(* ===== verification/Prelude.thy ===== *)
theory Prelude
  imports Main "HOL-Library.Sublist"
begin

text \<open>
  Shared ground of the development: the outcomes of C++ code (value, exception,
  undefined behaviour), the fragment of \<open>std::string\<close> and \<open>std::to_string\<close>
  the library uses, 64-bit and 32-bit signed arithmetic, and the generic lemmas the
  component theories rest on.

  A C++ object that throws keeps the fields it wrote before the throw, so a method is
  modelled as a function that returns the new object in every case, next to a
  \<open>result\<close> that says whether it returned or threw.
\<close>

named_theorems handler_simps \<open>equations of the handlers of a connection's owner\<close>

section \<open>Outcomes\<close>

datatype ub =
    Signed_Overflow
  | Index_Out_Of_Range
  | Indeterminate_Value
  | Mutex_Relocked

datatype error =
    Redis_Error string
  | Std_Exception string
  | Undefined_Behaviour ub

type_synonym 'a result = "error + 'a"

text \<open>\<open>catch (const redis_error&)\<close> takes redis errors only; undefined behaviour is
  never caught.\<close>

fun is_redis_error :: "error \<Rightarrow> bool" where
  "is_redis_error (Redis_Error _) = True"
| "is_redis_error (Std_Exception _) = False"
| "is_redis_error (Undefined_Behaviour _) = False"

text \<open>\<open>catch (const std::exception&)\<close> and \<open>catch (...)\<close> take every exception.\<close>

fun is_exception :: "error \<Rightarrow> bool" where
  "is_exception (Redis_Error _) = True"
| "is_exception (Std_Exception _) = True"
| "is_exception (Undefined_Behaviour _) = False"

fun is_ok :: "'a result \<Rightarrow> bool" where
  "is_ok (Inl _) = False"
| "is_ok (Inr _) = True"

text \<open>Using a value a call returned, or passing its exception on.\<close>

definition with_value ::
  "'a result \<Rightarrow> ('a \<Rightarrow> 's \<times> 'b result) \<Rightarrow> 's \<Rightarrow> 's \<times> 'b result"
where
  "with_value r f s = (case r of Inl e \<Rightarrow> (s, Inl e) | Inr x \<Rightarrow> f x)"

lemma with_value_simps [simp]: "with_value (Inl e) f s = (s, Inl e)" "with_value (Inr x) f s = f x"
  by (simp_all add: with_value_def)

lemma is_ok_iff: "is_ok r \<longleftrightarrow> (\<exists>x. r = Inr x)"
  by (cases r) auto

lemma unit_result_cases: "(r :: unit result) = Inr () \<or> (\<exists>e. r = Inl e)"
  by (cases r) auto

section \<open>Machine integers\<close>

definition in_int64 :: "int \<Rightarrow> bool" where
  "in_int64 i \<longleftrightarrow> - (2 ^ 63) \<le> i \<and> i < 2 ^ 63"

definition in_int32 :: "int \<Rightarrow> bool" where
  "in_int32 i \<longleftrightarrow> - (2 ^ 31) \<le> i \<and> i < 2 ^ 31"

text \<open>\<open>(int) x\<close> of a 64-bit value keeps the low 32 bits (two's complement).\<close>

definition int_cast :: "int \<Rightarrow> int" where
  "int_cast i = (i + 2 ^ 31) mod 2 ^ 32 - 2 ^ 31"

text \<open>\<open>std::size_t\<close> and \<open>uint64_t\<close> values are natural numbers below \<open>2 ^ 64\<close>;
  the conversion of a signed value to them and their addition are modulo \<open>2 ^ 64\<close>.\<close>

definition size_t_cast :: "int \<Rightarrow> nat" where
  "size_t_cast i = nat (i mod 2 ^ 64)"

definition size_t_add :: "nat \<Rightarrow> nat \<Rightarrow> nat" where
  "size_t_add a b = (a + b) mod 2 ^ 64"

lemma in_int32_cast [simp]: "in_int32 (int_cast i)"
  by (simp add: in_int32_def int_cast_def)

lemma in_int32_consts [simp]: "in_int32 0" "in_int32 (-1)"
  by (simp_all add: in_int32_def)

lemma int_cast_id: "in_int32 i \<Longrightarrow> int_cast i = i"
  by (simp add: int_cast_def in_int32_def)

lemma size_t_cast_id: "0 \<le> i \<Longrightarrow> i < 2 ^ 64 \<Longrightarrow> size_t_cast i = nat i"
  by (simp add: size_t_cast_def)

lemma size_t_cast_bound: "size_t_cast i < 2 ^ 64"
  by (simp add: size_t_cast_def nat_less_iff)

section \<open>Strings\<close>

definition CR :: char where "CR = CHR 0x0D"
definition LF :: char where "LF = CHR 0x0A"
definition crlf :: string where "crlf = [CR, LF]"

lemma CR_neq_LF [simp]: "CR \<noteq> LF" "LF \<noteq> CR"
  by (simp_all add: CR_def LF_def)

text \<open>\<open>buffer.find("\r\n")\<close>, with \<open>None\<close> for \<open>std::string::npos\<close>.\<close>

fun find_crlf :: "string \<Rightarrow> nat option" where
  "find_crlf (c # d # cs) =
     (if c = CR \<and> d = LF then Some 0 else map_option Suc (find_crlf (d # cs)))"
| "find_crlf _ = None"

lemma find_crlf_append: "find_crlf s = Some n \<Longrightarrow> find_crlf (s @ t) = Some n"
  by (induction s arbitrary: n rule: find_crlf.induct) (auto split: if_splits)

lemma find_crlf_Some_split:
  "find_crlf s = Some n \<Longrightarrow> s = take n s @ CR # LF # drop (n + 2) s"
  by (induction s arbitrary: n rule: find_crlf.induct) (auto split: if_splits)

lemma find_crlf_bound: "find_crlf s = Some n \<Longrightarrow> n + 2 \<le> length s"
  by (induction s arbitrary: n rule: find_crlf.induct) (auto split: if_splits)

lemma find_crlf_at: "find_crlf s = None \<Longrightarrow> find_crlf (s @ CR # LF # t) = Some (length s)"
proof (induction s rule: find_crlf.induct)
  case (1 c d cs)
  then show ?case by (auto split: if_splits)
qed (auto simp: CR_def LF_def)

lemma find_crlf_no_CR: "CR \<notin> set s \<Longrightarrow> find_crlf s = None"
  by (induction s rule: find_crlf.induct) auto

text \<open>\<open>s[i]\<close>: the terminating zero at \<open>i = size()\<close>, undefined past it. No string
  is longer than \<open>std::string::max_size()\<close>, here \<open>2 ^ 63 - 1\<close>.\<close>

definition string_at :: "string \<Rightarrow> nat \<Rightarrow> char result" where
  "string_at s i =
     (if 2 ^ 63 \<le> i then Inl (Undefined_Behaviour Index_Out_Of_Range)
      else if i < length s then Inr (s ! i)
      else if i = length s then Inr (CHR 0x00)
      else Inl (Undefined_Behaviour Index_Out_Of_Range))"

section \<open>\<open>std::to_string\<close> and \<open>std::isdigit\<close>\<close>

definition digit_char :: "nat \<Rightarrow> char" where
  "digit_char d = char_of (48 + d)"

definition isdigit :: "char \<Rightarrow> bool" where
  "isdigit c \<longleftrightarrow> 48 \<le> (of_char c :: nat) \<and> (of_char c :: nat) \<le> 57"

definition digit_value :: "char \<Rightarrow> int" where
  "digit_value c = int (of_char c) - 48"

fun to_string_nat :: "nat \<Rightarrow> string" where
  "to_string_nat n =
     (if n < 10 then [digit_char n] else to_string_nat (n div 10) @ [digit_char (n mod 10)])"

declare to_string_nat.simps [simp del]

definition to_string_int :: "int \<Rightarrow> string" where
  "to_string_int i =
     (if i < 0 then CHR ''-'' # to_string_nat (nat (- i)) else to_string_nat (nat i))"

lemma of_char_digit_char: "d < 10 \<Longrightarrow> (of_char (digit_char d) :: nat) = 48 + d"
  by (simp add: digit_char_def of_char_of)

lemma isdigit_digit_char [simp]: "d < 10 \<Longrightarrow> isdigit (digit_char d)"
  by (simp add: isdigit_def of_char_digit_char)

lemma digit_value_digit_char [simp]: "d < 10 \<Longrightarrow> digit_value (digit_char d) = int d"
  by (simp add: digit_value_def of_char_digit_char)

lemma digit_value_bounds: "isdigit c \<Longrightarrow> 0 \<le> digit_value c \<and> digit_value c \<le> 9"
  by (simp add: isdigit_def digit_value_def)

lemma not_isdigit_consts [simp]: "\<not> isdigit CR" "\<not> isdigit LF" "\<not> isdigit (CHR ''-'')"
  by (simp_all add: isdigit_def CR_def LF_def)

lemma to_string_nat_digits: "c \<in> set (to_string_nat n) \<Longrightarrow> isdigit c"
proof (induction n rule: to_string_nat.induct)
  case (1 n)
  then show ?case
    by (subst (asm) to_string_nat.simps) (auto split: if_splits)
qed

lemma to_string_nat_nonempty [simp]: "to_string_nat n \<noteq> []"
  by (subst to_string_nat.simps) simp

lemma to_string_nat_no_CR: "CR \<notin> set (to_string_nat n)"
  using to_string_nat_digits [of CR n] by auto

lemma to_string_int_no_CR: "CR \<notin> set (to_string_int i)"
  by (auto simp: to_string_int_def to_string_nat_no_CR) (simp_all add: CR_def)

text \<open>Reading a decimal back, most significant digit first.\<close>

definition decimal_value :: "int \<Rightarrow> string \<Rightarrow> int" where
  "decimal_value acc cs = foldl (\<lambda>n c. n * 10 + digit_value c) acc cs"

lemma decimal_value_Nil [simp]: "decimal_value acc [] = acc"
  by (simp add: decimal_value_def)

lemma decimal_value_Cons [simp]:
  "decimal_value acc (c # cs) = decimal_value (acc * 10 + digit_value c) cs"
  by (simp add: decimal_value_def)

lemma decimal_value_append:
  "decimal_value acc (xs @ ys) = decimal_value (decimal_value acc xs) ys"
  by (simp add: decimal_value_def)

lemma decimal_value_to_string: "decimal_value 0 (to_string_nat n) = int n"
proof (induction n rule: to_string_nat.induct)
  case (1 n)
  show ?case
  proof (cases "n < 10")
    case True
    then show ?thesis by (subst to_string_nat.simps) simp
  next
    case False
    have "int (n div 10) * 10 + int (n mod 10) = int n"
      by (metis div_mult_mod_eq of_nat_add of_nat_mult of_nat_numeral)
    with False 1 show ?thesis
      by (subst to_string_nat.simps) (simp add: decimal_value_append)
  qed
qed

lemma decimal_value_ge:
  "0 \<le> acc \<Longrightarrow> \<forall>c \<in> set cs. isdigit c \<Longrightarrow> acc \<le> decimal_value acc cs"
proof (induction cs arbitrary: acc)
  case Nil
  then show ?case by simp
next
  case (Cons c cs)
  have "0 \<le> digit_value c" using Cons.prems digit_value_bounds by auto
  then have "0 \<le> acc * 10 + digit_value c" "acc \<le> acc * 10 + digit_value c"
    using Cons.prems(1) by auto
  then show ?case using Cons.IH [of "acc * 10 + digit_value c"] Cons.prems by auto
qed

lemma to_string_nat_inj: "to_string_nat m = to_string_nat n \<Longrightarrow> m = n"
  by (metis decimal_value_to_string of_nat_eq_iff)

section \<open>\<open>std::stoi\<close>\<close>

definition isspace :: "char \<Rightarrow> bool" where
  "isspace c \<longleftrightarrow> (of_char c :: nat) = 32 \<or> 9 \<le> (of_char c :: nat) \<and> (of_char c :: nat) \<le> 13"

text \<open>Base ten: spaces, a sign, then as many digits as there are. No digit is
  \<open>std::invalid_argument\<close>, a value outside \<open>int\<close> is \<open>std::out_of_range\<close>.\<close>

definition stoi :: "string \<Rightarrow> int result" where
  "stoi s =
     (let t = dropWhile isspace s;
          (neg, u) = (case t of
              [] \<Rightarrow> (False, [])
            | c # cs \<Rightarrow> if c = CHR ''-'' then (True, cs) else if c = CHR ''+'' then (False, cs) else (False, t));
          ds = takeWhile isdigit u;
          n = (if neg then - decimal_value 0 ds else decimal_value 0 ds)
      in if ds = [] then Inl (Std_Exception ''stoi: no conversion'')
         else if \<not> in_int32 n then Inl (Std_Exception ''stoi: out of range'')
         else Inr n)"

lemma stoi_to_string:
  assumes "n < 2 ^ 31"
  shows "stoi (to_string_nat n) = Inr (int n)"
proof -
  obtain c cs where c: "to_string_nat n = c # cs" by (cases "to_string_nat n") auto
  have d: "\<forall>x \<in> set (c # cs). isdigit x" using to_string_nat_digits [of _ n] by (auto simp: c)
  then have "\<not> isspace c" "c \<noteq> CHR ''-''" "c \<noteq> CHR ''+''"
    by (auto simp: isdigit_def isspace_def)
  moreover have "takeWhile isdigit (c # cs) = c # cs" using d by (simp add: takeWhile_eq_all_conv)
  moreover have "decimal_value 0 (c # cs) = int n" using decimal_value_to_string [of n] by (simp add: c)
  ultimately show ?thesis using assms by (simp add: stoi_def c in_int32_def Let_def)
qed

end
