(* ===== verification/Reply.thy ===== *)
theory Reply
  imports Prelude
begin

text \<open>
  \<open>cpp_redis::reply\<close> (includes/cpp_redis/core/reply.hpp, sources/core/reply.cpp):
  a tagged value that keeps the fields of every tag it ever had. \<open>m_intval\<close> has no
  initialiser in the constructors, so it is an option: \<open>None\<close> until an integer is
  stored. Reading it while \<open>None\<close> is undefined behaviour; the invariant
  \<open>reply_inv\<close>, which every constructor and mutator keeps, excludes it.
\<close>

section \<open>Data\<close>

datatype reply_type =
    Type_error
  | Type_bulk_string
  | Type_simple_string
  | Type_null
  | Type_integer
  | Type_array

datatype string_type =
    String_error
  | String_bulk_string
  | String_simple_string

text \<open>\<open>static_cast<type>(reply_type)\<close>: the two enumerations share the numbers 0, 1, 2.\<close>

fun type_of_string_type :: "string_type \<Rightarrow> reply_type" where
  "type_of_string_type String_error = Type_error"
| "type_of_string_type String_bulk_string = Type_bulk_string"
| "type_of_string_type String_simple_string = Type_simple_string"

datatype reply =
  Reply (m_type: reply_type) (m_rows: "reply list") (m_strval: string) (m_intval: "int option")

section \<open>Constructors and mutators\<close>

definition reply_null :: reply where
  "reply_null = Reply Type_null [] [] None"

definition reply_string :: "string \<Rightarrow> string_type \<Rightarrow> reply" where
  "reply_string value t = Reply (type_of_string_type t) [] value None"

definition reply_integer :: "int \<Rightarrow> reply" where
  "reply_integer value = Reply Type_integer [] [] (Some value)"

definition reply_array :: "reply list \<Rightarrow> reply" where
  "reply_array rows = Reply Type_array rows [] None"

text \<open>The move constructor copies type and integer and takes the containers over.\<close>

definition reply_move :: "reply \<Rightarrow> reply" where
  "reply_move other = Reply (m_type other) (m_rows other) (m_strval other) (m_intval other)"

definition reply_set :: "reply \<Rightarrow> reply" where
  "reply_set r = Reply Type_null (m_rows r) (m_strval r) (m_intval r)"

definition reply_set_string :: "reply \<Rightarrow> string \<Rightarrow> string_type \<Rightarrow> reply" where
  "reply_set_string r value t =
     Reply (type_of_string_type t) (m_rows r) value (m_intval r)"

definition reply_set_integer :: "reply \<Rightarrow> int \<Rightarrow> reply" where
  "reply_set_integer r value = Reply Type_integer (m_rows r) (m_strval r) (Some value)"

definition reply_set_array :: "reply \<Rightarrow> reply list \<Rightarrow> reply" where
  "reply_set_array r rows = Reply Type_array rows (m_strval r) (m_intval r)"

definition reply_push :: "reply \<Rightarrow> reply \<Rightarrow> reply" where
  "reply_push r row = Reply Type_array (m_rows r @ [row]) (m_strval r) (m_intval r)"

lemmas reply_defs =
  reply_null_def reply_string_def reply_integer_def reply_array_def reply_move_def
  reply_set_def reply_set_string_def reply_set_integer_def reply_set_array_def reply_push_def

section \<open>Observers\<close>

definition is_array :: "reply \<Rightarrow> bool" where
  "is_array r \<longleftrightarrow> m_type r = Type_array"

definition is_simple_string :: "reply \<Rightarrow> bool" where
  "is_simple_string r \<longleftrightarrow> m_type r = Type_simple_string"

definition is_bulk_string :: "reply \<Rightarrow> bool" where
  "is_bulk_string r \<longleftrightarrow> m_type r = Type_bulk_string"

definition is_error :: "reply \<Rightarrow> bool" where
  "is_error r \<longleftrightarrow> m_type r = Type_error"

definition is_string :: "reply \<Rightarrow> bool" where
  "is_string r \<longleftrightarrow> is_simple_string r \<or> is_bulk_string r \<or> is_error r"

definition is_integer :: "reply \<Rightarrow> bool" where
  "is_integer r \<longleftrightarrow> m_type r = Type_integer"

definition is_null :: "reply \<Rightarrow> bool" where
  "is_null r \<longleftrightarrow> m_type r = Type_null"

definition ok :: "reply \<Rightarrow> bool" where
  "ok r \<longleftrightarrow> \<not> is_error r"

definition ko :: "reply \<Rightarrow> bool" where
  "ko r \<longleftrightarrow> \<not> ok r"

definition reply_to_bool :: "reply \<Rightarrow> bool" where
  "reply_to_bool r \<longleftrightarrow> \<not> is_error r \<and> \<not> is_null r"

definition as_array :: "reply \<Rightarrow> reply list result" where
  "as_array r = (if \<not> is_array r then Inl (Redis_Error ''Reply is not an array'')
                 else Inr (m_rows r))"

definition as_string :: "reply \<Rightarrow> string result" where
  "as_string r = (if \<not> is_string r then Inl (Redis_Error ''Reply is not a string'')
                  else Inr (m_strval r))"

definition as_integer :: "reply \<Rightarrow> int result" where
  "as_integer r = (if \<not> is_integer r then Inl (Redis_Error ''Reply is not an integer'')
                   else case m_intval r of
                     Some i \<Rightarrow> Inr i
                   | None \<Rightarrow> Inl (Undefined_Behaviour Indeterminate_Value))"

definition error_of :: "reply \<Rightarrow> string result" where
  "error_of r = (if \<not> is_error r then Inl (Redis_Error ''Reply is not an error'')
                 else as_string r)"

definition get_type :: "reply \<Rightarrow> reply_type" where
  "get_type r = m_type r"

lemmas observer_defs =
  is_array_def is_simple_string_def is_bulk_string_def is_error_def is_string_def
  is_integer_def is_null_def ok_def ko_def reply_to_bool_def as_array_def as_string_def
  as_integer_def error_of_def get_type_def

text \<open>\<open>operator<<(std::ostream&, const reply&)\<close>: the text written to the stream.\<close>

fun print_reply :: "reply \<Rightarrow> string result" and print_rows :: "reply list \<Rightarrow> string result" where
  "print_reply (Reply t rows s i) =
     (case get_type (Reply t rows s i) of
        Type_error \<Rightarrow> error_of (Reply t rows s i)
      | Type_bulk_string \<Rightarrow> as_string (Reply t rows s i)
      | Type_simple_string \<Rightarrow> as_string (Reply t rows s i)
      | Type_null \<Rightarrow> Inr ''(nil)''
      | Type_integer \<Rightarrow>
          (case as_integer (Reply t rows s i) of Inl e \<Rightarrow> Inl e | Inr n \<Rightarrow> Inr (to_string_int n))
      | Type_array \<Rightarrow> print_rows rows)"
| "print_rows [] = Inr []"
| "print_rows (item # items) =
     (case print_reply item of
        Inl e \<Rightarrow> Inl e
      | Inr s \<Rightarrow> (case print_rows items of Inl e \<Rightarrow> Inl e | Inr t \<Rightarrow> Inr (s @ t)))"

text \<open>Fields of a mutated reply; the proofs about the builders use these, never the
  representation.\<close>

lemma reply_sel [simp]:
  "m_type reply_null = Type_null"
  "m_type (reply_set r) = Type_null"
  "m_type (reply_set_string r v t) = type_of_string_type t"
  "m_strval (reply_set_string r v t) = v"
  "m_type (reply_set_integer r n) = Type_integer"
  "m_intval (reply_set_integer r n) = Some n"
  "m_type (reply_push r row) = Type_array"
  "m_rows (reply_push r row) = m_rows r @ [row]"
  "reply_set_string (reply_set_string r v t) v' t' = reply_set_string r v' t'"
  by (simp_all add: reply_defs)

section \<open>Invariant\<close>

text \<open>An integer reply, at any depth, holds an integer.\<close>

fun reply_inv :: "reply \<Rightarrow> bool" where
  "reply_inv (Reply t rows s i) =
     ((t = Type_integer \<longrightarrow> i \<noteq> None) \<and> list_all reply_inv rows)"

lemma reply_inv_ctors [simp, intro]:
  "reply_inv reply_null" "reply_inv (reply_string v t)" "reply_inv (reply_integer n)"
  by (cases t; simp add: reply_defs)+

lemma reply_inv_mutators:
  "reply_inv r \<Longrightarrow> reply_inv (reply_set r)"
  "reply_inv r \<Longrightarrow> reply_inv (reply_set_string r v t)"
  "reply_inv r \<Longrightarrow> reply_inv (reply_set_integer r n)"
  "reply_inv r \<Longrightarrow> list_all reply_inv rows \<Longrightarrow> reply_inv (reply_set_array r rows)"
  "reply_inv r \<Longrightarrow> reply_inv row \<Longrightarrow> reply_inv (reply_push r row)"
  "list_all reply_inv rows \<Longrightarrow> reply_inv (reply_array rows)"
  by (cases r; cases t; simp add: reply_defs)+

lemma print_reply_total:
  shows "reply_inv r \<Longrightarrow> \<exists>s. print_reply r = Inr s"
    and "list_all reply_inv rs \<Longrightarrow> \<exists>s. print_rows rs = Inr s"
proof (induction r and rs rule: print_reply_print_rows.induct)
  case (1 t rows s i)
  then show ?case by (cases t) (auto simp: observer_defs)
next
  case 2
  then show ?case by simp
next
  case (3 item items)
  then obtain s t where "print_reply item = Inr s" "print_rows items = Inr t" by auto
  then show ?case by simp
qed

lemma print_rows_append:
  "print_rows (xs @ ys) =
     (case print_rows xs of Inl e \<Rightarrow> Inl e
      | Inr s \<Rightarrow> (case print_rows ys of Inl e \<Rightarrow> Inl e | Inr t \<Rightarrow> Inr (s @ t)))"
  by (induction xs) (auto split: sum.splits)

section \<open>Properties\<close>

text \<open>Printing a well-formed reply, arrays of any depth included, throws nothing and
  reads no indeterminate integer.\<close>

lemma print_reply_ok:
  assumes "reply_inv r"
  shows "is_ok (print_reply r)"
  using print_reply_total(1) [OF assms] by auto

text \<open>A reply is read back through exactly one accessor: each throws a redis error
  unless the reply has its type, and returns the stored value when it has.\<close>

lemma accessors_match_type:
  "((\<exists>e. as_string r = Inl (Redis_Error e)) \<longleftrightarrow> \<not> is_string r) \<and>
   ((\<exists>e. as_array r = Inl (Redis_Error e)) \<longleftrightarrow> \<not> is_array r) \<and>
   ((\<exists>e. as_integer r = Inl (Redis_Error e)) \<longleftrightarrow> \<not> is_integer r) \<and>
   as_string (reply_set_string r v t) = Inr v \<and>
   as_integer (reply_set_integer r n) = Inr n \<and>
   as_array (reply_set_array r rows) = Inr rows"
  by (cases t) (auto simp: observer_defs reply_defs split: option.splits)

end
