(* ===== verification/Builder_Iface.thy ===== *)
theory Builder_Iface
  imports Reply
begin

text \<open>
  The interface every reply builder implements
  (includes/cpp_redis/builders/builder_iface.hpp): \<open>operator<<\<close> takes bytes off the
  front of the caller's buffer, \<open>reply_ready\<close> says whether the reply is complete. The
  locale states the contract the callers rely on, and the consequence they need: a
  builder does not see how the bytes were cut into packets.
\<close>

type_synonym 'b feed = "'b \<Rightarrow> string \<Rightarrow> 'b \<times> string \<times> unit result"

text \<open>What a builder that stopped with outcome \<open>out\<close> does when \<open>more\<close> arrives behind
  the bytes it left in the buffer. A builder that threw is not called again.\<close>

fun resumed ::
  "'b feed \<Rightarrow> ('b \<Rightarrow> bool) \<Rightarrow> 'b \<times> string \<times> unit result \<Rightarrow> string \<Rightarrow> 'b \<times> string \<times> unit result"
where
  "resumed feed ready (b, buf, Inl e) more = (b, buf @ more, Inl e)"
| "resumed feed ready (b, buf, Inr u) more =
     (if ready b then (b, buf @ more, Inr ()) else feed b (buf @ more))"

text \<open>The caller's loop: each packet is appended to the leftover bytes and offered to the
  builder; an exception ends it.\<close>

fun feed_chunks ::
  "'b feed \<Rightarrow> 'b \<Rightarrow> string \<Rightarrow> string list \<Rightarrow> 'b \<times> string \<times> unit result"
where
  "feed_chunks feed b buf [] = (b, buf, Inr ())"
| "feed_chunks feed b buf (c # cs) =
     (case feed b (buf @ c) of
        (b', buf', Inl e) \<Rightarrow> (b', buf' @ concat cs, Inl e)
      | (b', buf', Inr u) \<Rightarrow> feed_chunks feed b' buf' cs)"

locale builder_iface =
  fixes feed :: "'b \<Rightarrow> string \<Rightarrow> 'b \<times> string \<times> unit result"
    and ready :: "'b \<Rightarrow> bool"
    and get_reply :: "'b \<Rightarrow> reply"
    and invar :: "'b \<Rightarrow> bool"
  assumes feed_done: "invar b \<Longrightarrow> ready b \<Longrightarrow> feed b buf = (b, buf, Inr ())"
    and feed_resume: "invar b \<Longrightarrow> feed b (buf @ more) = resumed feed ready (feed b buf) more"
    and feed_suffix: "feed b buf = (b', buf', r) \<Longrightarrow> suffix buf' buf"
    and feed_invar: "invar b \<Longrightarrow> feed b buf = (b', buf', r) \<Longrightarrow> invar b'"
    and ready_reply_inv: "invar b \<Longrightarrow> ready b \<Longrightarrow> reply_inv (get_reply b)"
begin

lemma feed_length: "feed b buf = (b', buf', r) \<Longrightarrow> length buf' \<le> length buf"
  by (drule feed_suffix) (rule suffix_length_le)

lemma feed_error_append:
  "invar b \<Longrightarrow> feed b buf = (b', buf', Inl e) \<Longrightarrow> feed b (buf @ more) = (b', buf' @ more, Inl e)"
  by (simp add: feed_resume)

lemma feed_ready_append:
  "invar b \<Longrightarrow> feed b buf = (b', buf', Inr u) \<Longrightarrow> ready b' \<Longrightarrow>
   feed b (buf @ more) = (b', buf' @ more, Inr ())"
  by (simp add: feed_resume)

lemma feed_pending_append:
  "invar b \<Longrightarrow> feed b buf = (b', buf', Inr u) \<Longrightarrow> \<not> ready b' \<Longrightarrow>
   feed b (buf @ more) = feed b' (buf' @ more)"
  by (simp add: feed_resume)

lemma feed_chunks_concat:
  "invar b \<Longrightarrow> cs \<noteq> [] \<Longrightarrow> feed_chunks feed b buf cs = feed b (buf @ concat cs)"
proof (induction cs arbitrary: b buf)
  case Nil
  then show ?case by simp
next
  case (Cons c cs)
  obtain b' buf' r where out: "feed b (buf @ c) = (b', buf', r)"
    by (cases "feed b (buf @ c)") auto
  have inv': "invar b'" using feed_invar [OF Cons.prems(1) out] .
  have whole: "feed b (buf @ concat (c # cs)) = resumed feed ready (b', buf', r) (concat cs)"
    using feed_resume [OF Cons.prems(1), of "buf @ c" "concat cs"] out by simp
  show ?case
  proof (cases "cs = []")
    case True
    then show ?thesis using out by (cases r) auto
  next
    case False
    then show ?thesis
      using out whole inv' Cons.IH [of b' buf'] by (cases r) (auto simp: feed_done)
  qed
qed

lemma feed_chunks_same_bytes:
  "invar b \<Longrightarrow> cs \<noteq> [] \<Longrightarrow> ds \<noteq> [] \<Longrightarrow> concat cs = concat ds \<Longrightarrow>
   feed_chunks feed b buf cs = feed_chunks feed b buf ds"
  by (simp add: feed_chunks_concat)

end

end
