(* ===== verification/Scalar_Builders.thy ===== *)
theory Scalar_Builders
  imports Builder_Iface
begin

text \<open>
  The builders of the replies that are not arrays: simple strings, errors, integers and
  bulk strings (sources/builders/simple_string_builder.cpp, error_builder.cpp,
  integer_builder.cpp, bulk_string_builder.cpp). Each is a record of the class's fields
  with its \<open>operator<<\<close> as a function of the object and the buffer, interpreted as a
  \<open>builder_iface\<close>.
\<close>

section \<open>Simple strings\<close>

record simple_string_builder =
  ss_str :: string
  ss_ready :: bool
  ss_reply :: reply

definition simple_string_init :: simple_string_builder where
  "simple_string_init = \<lparr>ss_str = [], ss_ready = False, ss_reply = reply_null\<rparr>"

definition simple_string_feed ::
  "simple_string_builder \<Rightarrow> string \<Rightarrow> simple_string_builder \<times> string \<times> unit result"
where
  "simple_string_feed b buffer =
     (if ss_ready b then (b, buffer, Inr ())
      else case find_crlf buffer of
        None \<Rightarrow> (b, buffer, Inr ())
      | Some end_sequence \<Rightarrow>
          (let str = take end_sequence buffer
           in (b\<lparr>ss_str := str,
                 ss_reply := reply_set_string (ss_reply b) str String_simple_string,
                 ss_ready := True\<rparr>,
               drop (end_sequence + 2) buffer, Inr ())))"

definition simple_string_inv :: "simple_string_builder \<Rightarrow> bool" where
  "simple_string_inv b \<longleftrightarrow>
     reply_inv (ss_reply b) \<and>
     (ss_ready b \<longrightarrow> is_simple_string (ss_reply b) \<and> m_strval (ss_reply b) = ss_str b)"

interpretation simple_string:
  builder_iface simple_string_feed ss_ready ss_reply simple_string_inv
proof unfold_locales
  fix b :: simple_string_builder and buf extra
  show "ss_ready b \<Longrightarrow> simple_string_feed b buf = (b, buf, Inr ())"
    by (simp add: simple_string_feed_def)
  show "simple_string_feed b (buf @ extra)
      = resumed simple_string_feed ss_ready (simple_string_feed b buf) extra"
    by (auto simp: simple_string_feed_def Let_def find_crlf_append
        dest: find_crlf_bound split: option.splits)
  show "\<And>b' buf' r. simple_string_feed b buf = (b', buf', r) \<Longrightarrow> suffix buf' buf"
    by (auto simp: simple_string_feed_def Let_def suffix_drop split: if_splits option.splits)
  show "\<And>b' buf' r. simple_string_inv b \<Longrightarrow> simple_string_feed b buf = (b', buf', r) \<Longrightarrow>
      simple_string_inv b'"
    by (auto simp: simple_string_feed_def simple_string_inv_def Let_def observer_defs
        reply_inv_mutators split: if_splits option.splits)
  show "simple_string_inv b \<Longrightarrow> reply_inv (ss_reply b)"
    by (simp add: simple_string_inv_def)
qed

section \<open>Errors\<close>

record error_builder =
  er_string_builder :: simple_string_builder
  er_reply :: reply

definition error_init :: error_builder where
  "error_init = \<lparr>er_string_builder = simple_string_init, er_reply = reply_null\<rparr>"

definition error_ready :: "error_builder \<Rightarrow> bool" where
  "error_ready b = ss_ready (er_string_builder b)"

text \<open>The reply is stored again whenever the string is ready, also by a call that comes
  after that; the constructor leaves \<open>er_reply\<close> null.\<close>

definition error_feed :: "error_builder \<Rightarrow> string \<Rightarrow> error_builder \<times> string \<times> unit result" where
  "error_feed b buffer =
     (case simple_string_feed (er_string_builder b) buffer of
        (sb, buffer', Inl e) \<Rightarrow> (b\<lparr>er_string_builder := sb\<rparr>, buffer', Inl e)
      | (sb, buffer', Inr u) \<Rightarrow>
          (if ss_ready sb
           then (b\<lparr>er_string_builder := sb,
                   er_reply := reply_set_string (er_reply b) (ss_str sb) String_error\<rparr>,
                 buffer', Inr ())
           else (b\<lparr>er_string_builder := sb\<rparr>, buffer', Inr ())))"

lemma simple_string_no_throw: "simple_string_feed b buf = (b', buf', Inl e) \<Longrightarrow> False"
  by (auto simp: simple_string_feed_def Let_def split: if_splits option.splits)

definition error_inv :: "error_builder \<Rightarrow> bool" where
  "error_inv b \<longleftrightarrow>
     simple_string_inv (er_string_builder b) \<and> reply_inv (er_reply b) \<and>
     (error_ready b \<longrightarrow>
        er_reply b = reply_set_string (er_reply b) (ss_str (er_string_builder b)) String_error)"

interpretation error: builder_iface error_feed error_ready er_reply error_inv
proof unfold_locales
  fix b :: error_builder and buf extra
  show "error_inv b \<Longrightarrow> error_ready b \<Longrightarrow> error_feed b buf = (b, buf, Inr ())"
    by (simp add: error_feed_def error_inv_def error_ready_def simple_string_feed_def)
  show "error_feed b (buf @ extra) = resumed error_feed error_ready (error_feed b buf) extra"
    by (auto simp: error_feed_def error_ready_def simple_string_feed_def Let_def find_crlf_append
        dest: find_crlf_bound split: option.splits)
  show "\<And>b' buf' r. error_feed b buf = (b', buf', r) \<Longrightarrow> suffix buf' buf"
    by (auto simp: error_feed_def split: prod.splits sum.splits if_splits
        dest: simple_string.feed_suffix)
  show "\<And>b' buf' r. error_inv b \<Longrightarrow> error_feed b buf = (b', buf', r) \<Longrightarrow> error_inv b'"
    by (auto simp: error_feed_def error_inv_def error_ready_def reply_inv_mutators
        split: prod.splits sum.splits if_splits
        dest: simple_string.feed_invar simple_string_no_throw)
  show "error_inv b \<Longrightarrow> reply_inv (er_reply b)"
    by (simp add: error_inv_def)
qed

section \<open>Integers\<close>

record integer_builder =
  ib_nbr :: int
  ib_negative_multiplicator :: int
  ib_ready :: bool
  ib_reply :: reply

definition integer_init :: integer_builder where
  "integer_init =
     \<lparr>ib_nbr = 0, ib_negative_multiplicator = 1, ib_ready = False, ib_reply = reply_null\<rparr>"

text \<open>The loop over \<open>buffer[0 .. end_sequence)\<close>, at index \<open>i\<close>. \<open>m_nbr *= 10\<close> and
  \<open>m_nbr += digit\<close> are signed 64-bit operations: out of range is undefined behaviour.\<close>

fun integer_loop :: "nat \<Rightarrow> string \<Rightarrow> integer_builder \<Rightarrow> integer_builder \<times> unit result" where
  "integer_loop i [] b = (b, Inr ())"
| "integer_loop i (c # cs) b =
     (if i = 0 \<and> ib_negative_multiplicator b = 1 \<and> c = CHR ''-''
      then integer_loop (Suc i) cs (b\<lparr>ib_negative_multiplicator := -1\<rparr>)
      else if \<not> isdigit c
      then (b, Inl (Redis_Error ''Invalid character for integer redis reply''))
      else if \<not> in_int64 (ib_nbr b * 10) \<or> \<not> in_int64 (ib_nbr b * 10 + digit_value c)
      then (b, Inl (Undefined_Behaviour Signed_Overflow))
      else integer_loop (Suc i) cs (b\<lparr>ib_nbr := ib_nbr b * 10 + digit_value c\<rparr>))"

definition get_integer :: "integer_builder \<Rightarrow> int" where
  "get_integer b = ib_negative_multiplicator b * ib_nbr b"

definition integer_feed ::
  "integer_builder \<Rightarrow> string \<Rightarrow> integer_builder \<times> string \<times> unit result"
where
  "integer_feed b buffer =
     (if ib_ready b then (b, buffer, Inr ())
      else case find_crlf buffer of
        None \<Rightarrow> (b, buffer, Inr ())
      | Some end_sequence \<Rightarrow>
          (case integer_loop 0 (take end_sequence buffer) b of
             (b', Inl e) \<Rightarrow> (b', buffer, Inl e)
           | (b', Inr u) \<Rightarrow>
               (b'\<lparr>ib_reply := reply_set_integer (ib_reply b')
                                (ib_negative_multiplicator b' * ib_nbr b'),
                   ib_ready := True\<rparr>,
                drop (end_sequence + 2) buffer, Inr ())))"

lemma integer_loop_ready: "integer_loop i cs b = (b', r) \<Longrightarrow> ib_ready b' = ib_ready b"
  by (induction i cs b rule: integer_loop.induct) (auto split: if_splits)

definition integer_inv :: "integer_builder \<Rightarrow> bool" where
  "integer_inv b \<longleftrightarrow>
     0 \<le> ib_nbr b \<and> in_int64 (ib_nbr b) \<and> ib_negative_multiplicator b \<in> {1, -1} \<and>
     reply_inv (ib_reply b) \<and>
     (ib_ready b \<longrightarrow> is_integer (ib_reply b) \<and> m_intval (ib_reply b) = Some (get_integer b))"

lemma integer_loop_inv:
  "integer_loop i cs b = (b', r) \<Longrightarrow>
   0 \<le> ib_nbr b \<Longrightarrow> in_int64 (ib_nbr b) \<Longrightarrow> ib_negative_multiplicator b \<in> {1, -1} \<Longrightarrow>
   0 \<le> ib_nbr b' \<and> in_int64 (ib_nbr b') \<and> ib_negative_multiplicator b' \<in> {1, -1} \<and>
   ib_reply b' = ib_reply b"
proof (induction i cs b rule: integer_loop.induct)
  case (2 i c cs b)
  have "isdigit c \<Longrightarrow> 0 \<le> digit_value c" using digit_value_bounds by auto
  with 2 show ?case by (auto split: if_splits)
qed auto

lemma get_integer_range: "integer_inv b \<Longrightarrow> in_int64 (get_integer b)"
  by (auto simp: integer_inv_def get_integer_def in_int64_def)

lemma integer_feed_inv:
  assumes "integer_inv b" "integer_feed b buf = (b', buf', r)"
  shows "integer_inv b'"
proof -
  have pre: "0 \<le> ib_nbr b" "in_int64 (ib_nbr b)" "ib_negative_multiplicator b \<in> {1, -1}"
    "reply_inv (ib_reply b)"
    using assms(1) by (auto simp: integer_inv_def)
  show ?thesis
  proof (cases "ib_ready b \<or> find_crlf buf = None")
    case True
    then show ?thesis using assms by (auto simp: integer_feed_def split: if_splits)
  next
    case False
    then obtain n where n: "find_crlf buf = Some n" and nr: "\<not> ib_ready b" by auto
    obtain b1 r1 where loop: "integer_loop 0 (take n buf) b = (b1, r1)"
      by (cases "integer_loop 0 (take n buf) b") auto
    note l = integer_loop_inv [OF loop pre(1-3)] integer_loop_ready [OF loop]
    show ?thesis
      using assms(2) n nr loop l pre
      by (auto simp: integer_feed_def integer_inv_def get_integer_def observer_defs
          reply_inv_mutators split: sum.splits)
  qed
qed

interpretation integer: builder_iface integer_feed ib_ready ib_reply integer_inv
proof unfold_locales
  fix b :: integer_builder and buf extra
  show "ib_ready b \<Longrightarrow> integer_feed b buf = (b, buf, Inr ())"
    by (simp add: integer_feed_def)
  show "integer_feed b (buf @ extra) = resumed integer_feed ib_ready (integer_feed b buf) extra"
    by (auto simp: integer_feed_def find_crlf_append
        dest: find_crlf_bound split: option.splits prod.splits sum.splits)
  show "\<And>b' buf' r. integer_feed b buf = (b', buf', r) \<Longrightarrow> suffix buf' buf"
    by (auto simp: integer_feed_def suffix_drop split: if_splits option.splits prod.splits sum.splits)
  show "\<And>b' buf' r. integer_inv b \<Longrightarrow> integer_feed b buf = (b', buf', r) \<Longrightarrow> integer_inv b'"
    by (rule integer_feed_inv)
  show "integer_inv b \<Longrightarrow> reply_inv (ib_reply b)"
    by (simp add: integer_inv_def)
qed

section \<open>Bulk strings\<close>

record bulk_string_builder =
  bs_int_builder :: integer_builder
  bs_str_size :: int
  bs_str :: string
  bs_is_null :: bool
  bs_ready :: bool
  bs_reply :: reply

definition bulk_string_init :: bulk_string_builder where
  "bulk_string_init =
     \<lparr>bs_int_builder = integer_init, bs_str_size = 0, bs_str = [], bs_is_null = False,
      bs_ready = False, bs_reply = reply_null\<rparr>"

definition bulk_build_reply :: "bulk_string_builder \<Rightarrow> bulk_string_builder" where
  "bulk_build_reply b =
     b\<lparr>bs_reply := (if bs_is_null b then reply_set (bs_reply b)
                    else reply_set_string (bs_reply b) (bs_str b) String_bulk_string),
       bs_ready := True\<rparr>"

definition bulk_fetch_size ::
  "bulk_string_builder \<Rightarrow> string \<Rightarrow> bulk_string_builder \<times> string \<times> bool result"
where
  "bulk_fetch_size b buffer =
     (if ib_ready (bs_int_builder b) then (b, buffer, Inr True)
      else case integer_feed (bs_int_builder b) buffer of
        (ib, buffer', Inl e) \<Rightarrow> (b\<lparr>bs_int_builder := ib\<rparr>, buffer', Inl e)
      | (ib, buffer', Inr u) \<Rightarrow>
          (if \<not> ib_ready ib then (b\<lparr>bs_int_builder := ib\<rparr>, buffer', Inr False)
           else let b' = b\<lparr>bs_int_builder := ib, bs_str_size := int_cast (get_integer ib)\<rparr>
                in if bs_str_size b' = -1
                   then (bulk_build_reply (b'\<lparr>bs_is_null := True\<rparr>), buffer', Inr True)
                   else (b', buffer', Inr True)))"

text \<open>\<open>m_str_size\<close> is an \<open>int\<close>: it is converted to \<open>std::size_t\<close> where it meets the
  buffer's size or indexes it, and \<open>m_str_size + 1\<close>, \<open>m_str_size + 2\<close> are \<open>int\<close>
  additions.\<close>

definition bulk_fetch_str ::
  "bulk_string_builder \<Rightarrow> string \<Rightarrow> bulk_string_builder \<times> string \<times> unit result"
where
  "bulk_fetch_str b buffer =
     (let sz = bs_str_size b
      in if length buffer < size_t_add (size_t_cast sz) 2 then (b, buffer, Inr ())
         else case string_at buffer (size_t_cast sz) of
           Inl e \<Rightarrow> (b, buffer, Inl e)
         | Inr c1 \<Rightarrow>
             if c1 \<noteq> CR then (b, buffer, Inl (Redis_Error ''Wrong ending sequence''))
             else if \<not> in_int32 (sz + 1)
             then (b, buffer, Inl (Undefined_Behaviour Signed_Overflow))
             else case string_at buffer (size_t_cast (sz + 1)) of
               Inl e \<Rightarrow> (b, buffer, Inl e)
             | Inr c2 \<Rightarrow>
                 if c2 \<noteq> LF then (b, buffer, Inl (Redis_Error ''Wrong ending sequence''))
                 else if \<not> in_int32 (sz + 2)
                 then (b\<lparr>bs_str := take (size_t_cast sz) buffer\<rparr>, buffer,
                       Inl (Undefined_Behaviour Signed_Overflow))
                 else (bulk_build_reply (b\<lparr>bs_str := take (size_t_cast sz) buffer\<rparr>),
                       drop (size_t_cast (sz + 2)) buffer, Inr ()))"

definition bulk_feed ::
  "bulk_string_builder \<Rightarrow> string \<Rightarrow> bulk_string_builder \<times> string \<times> unit result"
where
  "bulk_feed b buffer =
     (if bs_ready b then (b, buffer, Inr ())
      else case bulk_fetch_size b buffer of
        (b', buffer', Inl e) \<Rightarrow> (b', buffer', Inl e)
      | (b', buffer', Inr found) \<Rightarrow>
          (if \<not> found \<or> bs_ready b' then (b', buffer', Inr ())
           else bulk_fetch_str b' buffer'))"

definition bulk_inv :: "bulk_string_builder \<Rightarrow> bool" where
  "bulk_inv b \<longleftrightarrow>
     integer_inv (bs_int_builder b) \<and> in_int32 (bs_str_size b) \<and> reply_inv (bs_reply b) \<and>
     (bs_ready b \<longrightarrow> ib_ready (bs_int_builder b) \<and>
        (is_null (bs_reply b) \<or> is_bulk_string (bs_reply b) \<and> m_strval (bs_reply b) = bs_str b))"

lemma bulk_build_reply_inv:
  "bulk_inv b \<Longrightarrow> ib_ready (bs_int_builder b) \<Longrightarrow> bulk_inv (bulk_build_reply b)"
  by (auto simp: bulk_inv_def bulk_build_reply_def observer_defs reply_inv_mutators)

lemma bulk_fetch_size_inv:
  assumes "bulk_inv b" "\<not> bs_ready b" "bulk_fetch_size b buf = (b', buf', r)"
  shows "bulk_inv b'" "suffix buf' buf" "r = Inr True \<Longrightarrow> ib_ready (bs_int_builder b')"
proof -
  obtain ib buf1 r1 where f: "integer_feed (bs_int_builder b) buf = (ib, buf1, r1)"
    by (cases "integer_feed (bs_int_builder b) buf") auto
  have inv: "integer_inv ib"
    using integer.feed_invar [OF _ f] assms(1) by (simp add: bulk_inv_def)
  have "bulk_inv (b\<lparr>bs_int_builder := ib\<rparr>)"
    "bulk_inv (b\<lparr>bs_int_builder := ib, bs_str_size := int_cast (get_integer ib)\<rparr>)"
    "bulk_inv (b\<lparr>bs_int_builder := ib, bs_str_size := -1, bs_is_null := True\<rparr>)"
    using assms(1,2) inv by (auto simp: bulk_inv_def)
  then show "bulk_inv b'"
    using assms f bulk_build_reply_inv
    by (auto simp: bulk_fetch_size_def Let_def split: if_splits sum.splits)
  show "suffix buf' buf"
    using assms f integer.feed_suffix [OF f]
    by (auto simp: bulk_fetch_size_def Let_def split: if_splits sum.splits)
  show "r = Inr True \<Longrightarrow> ib_ready (bs_int_builder b')"
    using assms f
    by (auto simp: bulk_fetch_size_def Let_def bulk_build_reply_def split: if_splits sum.splits)
qed

lemma bulk_fetch_size_resume:
  assumes "bulk_inv b" "\<not> bs_ready b" "bulk_fetch_size b buf = (b', buf', r)"
  shows "r \<noteq> Inr False \<Longrightarrow> bulk_fetch_size b (buf @ extra) = (b', buf' @ extra, r)"
    and "r = Inr False \<Longrightarrow> \<not> bs_ready b' \<and>
      bulk_fetch_size b (buf @ extra) = bulk_fetch_size b' (buf' @ extra)"
proof -
  obtain ib buf1 r1 where f: "integer_feed (bs_int_builder b) buf = (ib, buf1, r1)"
    by (cases "integer_feed (bs_int_builder b) buf") auto
  have inv: "integer_inv (bs_int_builder b)" using assms(1) by (simp add: bulk_inv_def)
  note res = integer.feed_resume [OF inv, of buf extra]
  show "r \<noteq> Inr False \<Longrightarrow> bulk_fetch_size b (buf @ extra) = (b', buf' @ extra, r)"
    using assms(3) f res
    by (cases r1) (auto simp: bulk_fetch_size_def Let_def split: if_splits)
  show "r = Inr False \<Longrightarrow> \<not> bs_ready b' \<and>
      bulk_fetch_size b (buf @ extra) = bulk_fetch_size b' (buf' @ extra)"
    using assms(2,3) f res
    by (cases r1) (auto simp: bulk_fetch_size_def Let_def split: if_splits prod.splits sum.splits)
qed

lemma size_t_cast_negative: "in_int32 i \<Longrightarrow> i < 0 \<Longrightarrow> 2 ^ 63 \<le> size_t_cast i"
proof -
  assume a: "in_int32 i" "i < 0"
  then have "i mod 2 ^ 64 = i + 2 ^ 64"
    using mod_pos_pos_trivial [of "i + 2 ^ 64" "2 ^ 64"] by (simp add: in_int32_def)
  with a show ?thesis by (simp add: size_t_cast_def in_int32_def)
qed

lemma string_at_prefix: "i < length s \<Longrightarrow> string_at (s @ t) i = string_at s i"
  by (simp add: string_at_def nth_append)

lemma string_at_huge: "2 ^ 63 \<le> i \<Longrightarrow> string_at s i = Inl (Undefined_Behaviour Index_Out_Of_Range)"
  by (simp add: string_at_def)

text \<open>Once enough bytes are there, \<open>fetch_str\<close> looks at the declared size and the two
  bytes after it only; a negative size reads out of bounds.\<close>

lemma bulk_fetch_str_enough:
  assumes "bs_str_size b = int n" "n < 2 ^ 31" "n + 2 \<le> length buf"
  shows "bulk_fetch_str b buf =
    (if buf ! n \<noteq> CR then (b, buf, Inl (Redis_Error ''Wrong ending sequence''))
     else if \<not> n + 1 < 2 ^ 31 then (b, buf, Inl (Undefined_Behaviour Signed_Overflow))
     else if buf ! (n + 1) \<noteq> LF then (b, buf, Inl (Redis_Error ''Wrong ending sequence''))
     else if \<not> n + 2 < 2 ^ 31
     then (b\<lparr>bs_str := take n buf\<rparr>, buf, Inl (Undefined_Behaviour Signed_Overflow))
     else (bulk_build_reply (b\<lparr>bs_str := take n buf\<rparr>), drop (n + 2) buf, Inr ()))"
proof -
  have c: "size_t_cast (int n) = n" "size_t_cast (int n + 1) = n + 1"
    "size_t_cast (int n + 2) = n + 2" "size_t_add n 2 = n + 2"
    using assms(2) by (simp_all add: size_t_cast_id size_t_add_def nat_add_distrib)
  have at: "string_at buf n = Inr (buf ! n)" "string_at buf (n + 1) = Inr (buf ! (n + 1))"
    using assms(2,3) by (simp_all add: string_at_def)
  have i: "in_int32 (int n + 1) \<longleftrightarrow> n + 1 < 2 ^ 31" "in_int32 (int n + 2) \<longleftrightarrow> n + 2 < 2 ^ 31"
    by (auto simp: in_int32_def)
  show ?thesis
    unfolding bulk_fetch_str_def Let_def assms(1) c at i sum.case
    using assms(3) by auto
qed

lemma bulk_fetch_str_negative:
  assumes "in_int32 (bs_str_size b)" "bs_str_size b < 0"
    and "\<not> length buf < size_t_add (size_t_cast (bs_str_size b)) 2"
  shows "bulk_fetch_str b buf = (b, buf, Inl (Undefined_Behaviour Index_Out_Of_Range))"
  using assms(3) string_at_huge [OF size_t_cast_negative [OF assms(1,2)]]
  by (simp add: bulk_fetch_str_def Let_def)

text \<open>So the outcome does not depend on what follows those bytes.\<close>

lemma bulk_fetch_str_append:
  assumes "in_int32 (bs_str_size b)"
    and "\<not> length buf < size_t_add (size_t_cast (bs_str_size b)) 2"
    and "bulk_fetch_str b buf = (b', buf', r)"
  shows "bulk_fetch_str b (buf @ extra) = (b', buf' @ extra, r) \<and> (r = Inr () \<longrightarrow> bs_ready b')"
proof (cases "bs_str_size b < 0")
  case True
  then show ?thesis
    using assms bulk_fetch_str_negative [of b buf] bulk_fetch_str_negative [of b "buf @ extra"]
    by auto
next
  case False
  define n where "n = nat (bs_str_size b)"
  have n: "bs_str_size b = int n" "n < 2 ^ 31"
    using False assms(1) by (auto simp: n_def in_int32_def)
  have len: "n + 2 \<le> length buf"
    using assms(2) n by (simp add: size_t_cast_id size_t_add_def)
  then have *: "n + 2 \<le> length (buf @ extra)" by simp
  have at: "(buf @ extra) ! n = buf ! n" "(buf @ extra) ! (n + 1) = buf ! (n + 1)"
    "take n (buf @ extra) = take n buf" "drop (n + 2) (buf @ extra) = drop (n + 2) buf @ extra"
    using len by (simp_all add: nth_append)
  show ?thesis
    using assms(3)
    unfolding bulk_fetch_str_enough [OF n len] bulk_fetch_str_enough [OF n *] at
    by (auto simp: bulk_build_reply_def split: if_splits)
qed

lemma bulk_fetch_str_short:
  "length buf < size_t_add (size_t_cast (bs_str_size b)) 2 \<Longrightarrow> bulk_fetch_str b buf = (b, buf, Inr ())"
  by (simp add: bulk_fetch_str_def Let_def)

lemma bulk_fetch_str_inv:
  assumes "bulk_inv b" "\<not> bs_ready b" "ib_ready (bs_int_builder b)"
    and "bulk_fetch_str b buf = (b', buf', r)"
  shows "bulk_inv b'" "suffix buf' buf"
proof -
  have "bulk_inv (b\<lparr>bs_str := s\<rparr>)" for s
    using assms(1,2) by (simp add: bulk_inv_def)
  then show "bulk_inv b'"
    using assms bulk_build_reply_inv [of "b\<lparr>bs_str := _\<rparr>"]
    by (auto simp: bulk_fetch_str_def Let_def split: sum.splits if_splits)
  show "suffix buf' buf"
    using assms(4) by (auto simp: bulk_fetch_str_def Let_def suffix_drop split: sum.splits if_splits)
qed

lemma bulk_feed_inv:
  assumes "bulk_inv b" "bulk_feed b buf = (b', buf', r)"
  shows "bulk_inv b'"
proof (cases "bs_ready b")
  case True
  then show ?thesis using assms by (simp add: bulk_feed_def)
next
  case False
  obtain b1 buf1 r1 where s: "bulk_fetch_size b buf = (b1, buf1, r1)"
    by (cases "bulk_fetch_size b buf") auto
  note s1 = bulk_fetch_size_inv [OF assms(1) False s]
  show ?thesis
    using assms(2) False s s1 bulk_fetch_str_inv(1) [OF s1(1)]
    by (auto simp: bulk_feed_def split: sum.splits if_splits)
qed

lemma bulk_feed_suffix: "bulk_feed b buf = (b', buf', r) \<Longrightarrow> suffix buf' buf"
  by (auto simp: bulk_feed_def bulk_fetch_size_def bulk_fetch_str_def Let_def
      split: if_splits sum.splits prod.splits
      dest!: integer.feed_suffix intro: suffix_drop suffix_order.trans)

lemma bulk_feed_resume:
  assumes "bulk_inv b"
  shows "bulk_feed b (buf @ extra) = resumed bulk_feed bs_ready (bulk_feed b buf) extra"
proof (cases "bs_ready b")
  case True
  then show ?thesis by (simp add: bulk_feed_def)
next
  case nr: False
  obtain b1 buf1 r1 where s: "bulk_fetch_size b buf = (b1, buf1, r1)"
    by (cases "bulk_fetch_size b buf") auto
  note inv1 = bulk_fetch_size_inv [OF assms nr s]
  note res = bulk_fetch_size_resume [OF assms nr s, of extra]
  consider (err) e where "r1 = Inl e" | (pending) "r1 = Inr False"
    | (null) "r1 = Inr True" "bs_ready b1" | (str) "r1 = Inr True" "\<not> bs_ready b1"
    by (cases r1) auto
  then show ?thesis
  proof cases
    case err
    then show ?thesis using nr s res by (simp add: bulk_feed_def)
  next
    case pending
    then show ?thesis using nr s res by (simp add: bulk_feed_def)
  next
    case null
    then show ?thesis using nr s res by (simp add: bulk_feed_def)
  next
    case str
    have i: "ib_ready (bs_int_builder b1)" using inv1(3) str(1) by simp
    obtain b2 buf2 r2 where f: "bulk_fetch_str b1 buf1 = (b2, buf2, r2)"
      by (cases "bulk_fetch_str b1 buf1") auto
    show ?thesis
    proof (cases "length buf1 < size_t_add (size_t_cast (bs_str_size b1)) 2")
      case True
      then show ?thesis
        using nr s res str i
        by (simp add: bulk_feed_def bulk_fetch_str_short) (simp add: bulk_fetch_size_def)
    next
      case False
      have "in_int32 (bs_str_size b1)" using inv1(1) by (simp add: bulk_inv_def)
      note a = bulk_fetch_str_append [OF this False f, of extra]
      show ?thesis
        using nr s res str f a by (cases r2) (auto simp: bulk_feed_def)
    qed
  qed
qed

interpretation bulk_string: builder_iface bulk_feed bs_ready bs_reply bulk_inv
proof unfold_locales
  fix b :: bulk_string_builder and buf extra
  show "bs_ready b \<Longrightarrow> bulk_feed b buf = (b, buf, Inr ())"
    by (simp add: bulk_feed_def)
  show "bulk_inv b \<Longrightarrow> bulk_feed b (buf @ extra) = resumed bulk_feed bs_ready (bulk_feed b buf) extra"
    by (rule bulk_feed_resume)
  show "\<And>b' buf' r. bulk_feed b buf = (b', buf', r) \<Longrightarrow> suffix buf' buf"
    by (rule bulk_feed_suffix)
  show "\<And>b' buf' r. bulk_inv b \<Longrightarrow> bulk_feed b buf = (b', buf', r) \<Longrightarrow> bulk_inv b'"
    by (rule bulk_feed_inv)
  show "bulk_inv b \<Longrightarrow> reply_inv (bs_reply b)"
    by (simp add: bulk_inv_def)
qed

end
