(* ===== verification/Resp.thy ===== *)
theory Resp
  imports Scalar_Builders
begin

text \<open>
  The wire format the server speaks, as a specification the builders are checked
  against: the abstract replies, their bytes, and the \<open>reply\<close> object each one must
  become. Then the builders of scalar replies decode it.
\<close>

section \<open>Specification\<close>

datatype resp =
    Simple string
  | Error string
  | Integer int
  | Bulk string
  | Null_Bulk
  | Null_Array
  | Array "resp list"

text \<open>A reply on the wire: its type byte and its body.\<close>

fun resp_id :: "resp \<Rightarrow> char" where
  "resp_id (Simple _) = CHR ''+''"
| "resp_id (Error _) = CHR ''-''"
| "resp_id (Integer _) = CHR '':''"
| "resp_id (Bulk _) = CHR ''$''"
| "resp_id Null_Bulk = CHR ''$''"
| "resp_id Null_Array = CHR ''*''"
| "resp_id (Array _) = CHR ''*''"

definition line :: "string \<Rightarrow> string" where
  "line s = s @ crlf"

fun encode :: "resp \<Rightarrow> string" where
  "encode (Simple s) = CHR ''+'' # line s"
| "encode (Error s) = CHR ''-'' # line s"
| "encode (Integer i) = CHR '':'' # line (to_string_int i)"
| "encode (Bulk s) = CHR ''$'' # line (to_string_nat (length s)) @ line s"
| "encode Null_Bulk = CHR ''$'' # line ''-1''"
| "encode Null_Array = CHR ''*'' # line ''-1''"
| "encode (Array rs) =
     CHR ''*'' # line (to_string_nat (length rs)) @ concat (map encode rs)"

text \<open>What a conforming server may send within the sizes the library can hold: line
  replies without a line end, 64-bit integers (the most negative one excepted, see
  \<open>integer_min_undefined\<close>), bulk strings whose size and terminator fit an \<open>int\<close>, arrays
  whose size fits an \<open>int64_t\<close>.\<close>

fun sendable :: "resp \<Rightarrow> bool" where
  "sendable (Simple s) = (find_crlf s = None)"
| "sendable (Error s) = (find_crlf s = None)"
| "sendable (Integer i) = (\<bar>i\<bar> < 2 ^ 63)"
| "sendable (Bulk s) = (length s + 2 < 2 ^ 31)"
| "sendable Null_Bulk = True"
| "sendable Null_Array = True"
| "sendable (Array rs) = (length rs < 2 ^ 63 \<and> list_all sendable rs)"

fun reply_of :: "resp \<Rightarrow> reply" where
  "reply_of (Simple s) = reply_string s String_simple_string"
| "reply_of (Error s) = reply_string s String_error"
| "reply_of (Integer i) = reply_integer i"
| "reply_of (Bulk s) = reply_string s String_bulk_string"
| "reply_of Null_Bulk = reply_null"
| "reply_of Null_Array = reply_null"
| "reply_of (Array rs) = reply_array (map reply_of rs)"

lemma encode_Cons: "encode r = resp_id r # tl (encode r)"
  by (cases r) simp_all

lemma encode_nonempty [simp]: "encode r \<noteq> []" "[] \<noteq> encode r"
  by (cases r; simp)+

lemma reply_of_inv: "reply_inv (reply_of r)"
  by (induction r) (auto simp: reply_inv_mutators list_all_iff)

section \<open>Lines\<close>

lemma find_crlf_line: "find_crlf s = None \<Longrightarrow> find_crlf (line s @ t) = Some (length s)"
  by (simp add: line_def crlf_def find_crlf_at)

lemma line_parts [simp]:
  "length (line s) = Suc (Suc (length s))"
  "take (length s) (line s) = s"
  "drop (Suc (Suc (length s))) (line s) = []"
  by (simp_all add: line_def crlf_def)

lemma find_crlf_numbers [simp]:
  "find_crlf (to_string_nat n) = None" "find_crlf (to_string_int i) = None"
  by (simp_all add: find_crlf_no_CR to_string_nat_no_CR to_string_int_no_CR)

section \<open>Scalar builders decode their lines\<close>

lemma simple_string_decode:
  assumes "find_crlf s = None"
  shows "simple_string_feed simple_string_init (line s @ rest) =
    (\<lparr>ss_str = s, ss_ready = True, ss_reply = reply_string s String_simple_string\<rparr>, rest, Inr ())"
  using assms
  by (simp add: simple_string_feed_def simple_string_init_def find_crlf_line Let_def
      reply_defs)

lemma error_decode:
  assumes "find_crlf s = None"
  shows "\<exists>b. error_feed error_init (line s @ rest) = (b, rest, Inr ()) \<and> error_ready b \<and>
    er_reply b = reply_string s String_error"
  using assms
  by (simp add: error_feed_def error_init_def simple_string_decode error_ready_def reply_defs)

text \<open>The digit loop computes the decimal value, provided it fits.\<close>

lemma integer_loop_digits:
  assumes "\<forall>c \<in> set cs. isdigit c" "0 \<le> ib_nbr b" "decimal_value (ib_nbr b) cs < 2 ^ 63"
  shows "integer_loop i cs b = (b\<lparr>ib_nbr := decimal_value (ib_nbr b) cs\<rparr>, Inr ())"
  using assms
proof (induction cs arbitrary: i b)
  case Nil
  then show ?case by simp
next
  case (Cons c cs)
  let ?n = "ib_nbr b * 10 + digit_value c"
  have d: "isdigit c" "0 \<le> digit_value c" using Cons.prems(1) digit_value_bounds by auto
  then have "c \<noteq> CHR ''-''" using not_isdigit_consts(3) by metis
  have "?n \<le> decimal_value ?n cs"
    using Cons.prems d by (intro decimal_value_ge) auto
  then have "?n < 2 ^ 63" using Cons.prems(3) by simp
  moreover have "0 \<le> ib_nbr b * 10" "0 \<le> ?n" using Cons.prems(2) d(2) by auto
  ultimately have "in_int64 (ib_nbr b * 10)" "in_int64 ?n" using d(2) by (auto simp: in_int64_def)
  moreover have "integer_loop (Suc i) cs (b\<lparr>ib_nbr := ?n\<rparr>) =
      (b\<lparr>ib_nbr := decimal_value ?n cs\<rparr>, Inr ())"
    using Cons.IH [of "b\<lparr>ib_nbr := ?n\<rparr>" "Suc i"] Cons.prems \<open>0 \<le> ?n\<close> by simp
  ultimately show ?case using d \<open>c \<noteq> CHR ''-''\<close> by simp
qed

lemma integer_loop_to_string:
  assumes "\<bar>i\<bar> < 2 ^ 63"
  shows "integer_loop 0 (to_string_int i) integer_init =
    (integer_init\<lparr>ib_nbr := \<bar>i\<bar>, ib_negative_multiplicator := (if i < 0 then -1 else 1)\<rparr>, Inr ())"
proof (cases "i < 0")
  case True
  have "\<forall>c \<in> set (to_string_nat (nat (- i))). isdigit c" by (blast dest: to_string_nat_digits)
  then show ?thesis
    using assms True
    by (simp add: to_string_int_def integer_init_def integer_loop_digits decimal_value_to_string)
next
  case False
  have "\<forall>c \<in> set (to_string_nat (nat i)). isdigit c" by (blast dest: to_string_nat_digits)
  then show ?thesis
    using assms False
    by (simp add: to_string_int_def integer_init_def integer_loop_digits decimal_value_to_string)
qed

definition integer_done :: "int \<Rightarrow> integer_builder" where
  "integer_done i =
     \<lparr>ib_nbr = \<bar>i\<bar>, ib_negative_multiplicator = (if i < 0 then -1 else 1), ib_ready = True,
      ib_reply = reply_integer i\<rparr>"

lemma get_integer_done [simp]: "get_integer (integer_done i) = i" "ib_ready (integer_done i)"
  "ib_reply (integer_done i) = reply_integer i"
  by (simp_all add: integer_done_def get_integer_def)

lemma integer_decode:
  assumes "\<bar>i\<bar> < 2 ^ 63"
  shows "integer_feed integer_init (line (to_string_int i) @ rest) =
    (integer_done i, rest, Inr ())"
proof -
  have nr: "\<not> ib_ready integer_init" by (simp add: integer_init_def)
  show ?thesis
    unfolding integer_feed_def find_crlf_line [OF find_crlf_numbers(2)]
    using nr by (simp add: integer_loop_to_string [OF assms])
      (simp add: integer_init_def integer_done_def reply_defs)
qed

lemma integer_decode_nat:
  "n < 2 ^ 63 \<Longrightarrow> integer_feed integer_init (line (to_string_nat n) @ rest) =
    (integer_done (int n), rest, Inr ())"
  using integer_decode [of "int n" rest] by (simp add: to_string_int_def)

lemma integer_decode_m1:
  "integer_feed integer_init (line ''-1'' @ rest) = (integer_done (-1), rest, Inr ())"
proof -
  have "to_string_int (-1) = ''-1''"
    by code_simp
  then show ?thesis using integer_decode [of "-1" rest] by simp
qed

lemma bulk_decode:
  assumes "length s + 2 < 2 ^ 31"
  shows "\<exists>b. bulk_feed bulk_string_init (line (to_string_nat (length s)) @ line s @ rest)
      = (b, rest, Inr ()) \<and> bs_ready b \<and> bs_reply b = reply_string s String_bulk_string"
proof -
  let ?b = "bulk_string_init\<lparr>bs_int_builder := integer_done (int (length s)),
    bs_str_size := int (length s)\<rparr>"
  have sz: "int_cast (int (length s)) = int (length s)"
    using assms by (simp add: int_cast_id in_int32_def)
  have size: "bulk_fetch_size bulk_string_init (line (to_string_nat (length s)) @ line s @ rest)
      = (?b, line s @ rest, Inr True)"
    using integer_decode_nat [of "length s" "line s @ rest"] assms sz
    by (simp add: bulk_fetch_size_def bulk_string_init_def integer_init_def [THEN arg_cong, of ib_ready]
        Let_def)
  have str: "bulk_fetch_str ?b (line s @ rest) =
      (bulk_build_reply (?b\<lparr>bs_str := s\<rparr>), rest, Inr ())"
    using bulk_fetch_str_enough [of ?b "length s" "line s @ rest"] assms
    by (simp add: line_def crlf_def nth_append)
  show ?thesis
    using size str
    by (simp add: bulk_feed_def bulk_build_reply_def bulk_string_init_def)
      (simp add: reply_defs)
qed

lemma bulk_decode_null:
  "\<exists>b. bulk_feed bulk_string_init (line ''-1'' @ rest) = (b, rest, Inr ()) \<and> bs_ready b \<and>
    bs_reply b = reply_null"
  using integer_decode_m1 [of rest]
  by (simp add: bulk_feed_def bulk_fetch_size_def bulk_string_init_def
      integer_init_def [THEN arg_cong, of ib_ready] Let_def int_cast_id bulk_build_reply_def)
    (simp add: reply_defs)



text \<open>What the integer builder does with one line.\<close>

lemma integer_feed_line:
  assumes "find_crlf s = None" "\<not> ib_ready b"
  shows "integer_feed b (line s @ rest) =
    (case integer_loop 0 s b of
       (b', Inl e) \<Rightarrow> (b', line s @ rest, Inl e)
     | (b', Inr u) \<Rightarrow>
         (b'\<lparr>ib_reply := reply_set_integer (ib_reply b') (get_integer b'), ib_ready := True\<rparr>,
          rest, Inr ()))"
  unfolding integer_feed_def find_crlf_line [OF assms(1)] using assms(2)
  by (auto simp: get_integer_def split: prod.splits sum.splits)

lemma int64_min_digits:
  "to_string_int (- (2 ^ 63)) = ''-9223372036854775808''"
  by (simp add: to_string_int_def to_string_nat.simps digit_char_def) (simp add: char_of_def bit_0)

lemma int64_min_loop:
  "snd (integer_loop 0 ''-9223372036854775808'' integer_init) =
    Inl (Undefined_Behaviour Signed_Overflow)"
  by (simp add: integer_init_def isdigit_def digit_value_def in_int64_def)

section \<open>Properties\<close>

text \<open>The most negative 64-bit integer, a reply a server may send, overflows the
  digit loop: the sign is applied after the digits, and \<open>2 ^ 63\<close> does not fit
  \<open>int64_t\<close>.\<close>

lemma integer_min_undefined:
  "snd (snd (integer_feed integer_init (line (to_string_int (- (2 ^ 63))) @ rest))) =
    Inl (Undefined_Behaviour Signed_Overflow)"
  using integer_feed_line [OF find_crlf_numbers(2), of integer_init "- (2 ^ 63)" rest] int64_min_loop
  unfolding int64_min_digits
  by (simp add: integer_init_def [THEN arg_cong, of ib_ready] del: integer_loop.simps
      split: prod.splits sum.splits)

text \<open>C37: every other 64-bit integer is read back exactly, its line consumed and the
  bytes behind it left, whatever they are.\<close>

theorem integer_exact:
  assumes "\<bar>i\<bar> < 2 ^ 63"
  shows "\<exists>b. integer_feed integer_init (line (to_string_int i) @ rest) = (b, rest, Inr ()) \<and>
    ib_ready b \<and> get_integer b = i \<and> as_integer (ib_reply b) = Inr i"
  using integer_decode [OF assms, of rest]
  by (auto simp: as_integer_def is_integer_def reply_integer_def)

theorem integer_exact_witness:
  "\<exists>b. integer_feed integer_init (line (to_string_int (-42)) @ ''$3'') = (b, ''$3'', Inr ()) \<and>
    ib_ready b \<and> get_integer b = -42 \<and> as_integer (ib_reply b) = Inr (-42)"
  by (rule integer_exact) simp

text \<open>C39: what the builder makes of a bulk string whose size is not a length. Only the low
  32 bits of the declared 64-bit size count. If they are \<open>-1\<close> the reply is null, whatever the
  size was; if they are \<open>-2\<close> the builder reads out of bounds; below that it waits for bytes
  that never suffice, and the reply never comes.\<close>

theorem bulk_size_not_a_length:
  assumes "\<bar>n\<bar> < 2 ^ 63" "length rest < 2 ^ 63"
  shows "(int_cast n = -1 \<longrightarrow> (\<exists>b. bulk_feed bulk_string_init (line (to_string_int n) @ rest) =
      (b, rest, Inr ()) \<and> bs_ready b \<and> is_null (bs_reply b))) \<and>
    (int_cast n = -2 \<longrightarrow> snd (snd (bulk_feed bulk_string_init (line (to_string_int n) @ rest))) =
      Inl (Undefined_Behaviour Index_Out_Of_Range)) \<and>
    (int_cast n < -2 \<longrightarrow> (\<exists>b. bulk_feed bulk_string_init (line (to_string_int n) @ rest) =
      (b, rest, Inr ()) \<and> \<not> bs_ready b))"
proof -
  let ?b = "bulk_string_init\<lparr>bs_int_builder := integer_done n, bs_str_size := int_cast n\<rparr>"
  have f: "bulk_feed bulk_string_init (line (to_string_int n) @ rest) =
      (if int_cast n = -1 then (bulk_build_reply (?b\<lparr>bs_is_null := True\<rparr>), rest, Inr ())
       else bulk_fetch_str ?b rest)"
    using integer_decode [OF assms(1), of rest]
    by (simp add: bulk_feed_def bulk_fetch_size_def bulk_string_init_def Let_def bulk_build_reply_def
        integer_init_def [THEN arg_cong, of ib_ready])
  have i: "in_int32 (int_cast n)" by (rule in_int32_cast)
  show ?thesis
  proof (intro conjI impI)
    assume "int_cast n = -1"
    then show "\<exists>b. bulk_feed bulk_string_init (line (to_string_int n) @ rest) = (b, rest, Inr ()) \<and>
        bs_ready b \<and> is_null (bs_reply b)"
      by (simp add: f bulk_build_reply_def is_null_def)
  next
    assume n: "int_cast n = -2"
    then have "size_t_add (size_t_cast (int_cast n)) 2 = 0"
      by (simp add: size_t_cast_def size_t_add_def)
    then show "snd (snd (bulk_feed bulk_string_init (line (to_string_int n) @ rest))) =
        Inl (Undefined_Behaviour Index_Out_Of_Range)"
      using bulk_fetch_str_negative [of ?b rest] i n by (simp add: f)
  next
    assume n: "int_cast n < -2"
    then have "size_t_cast (int_cast n) = nat (int_cast n + 2 ^ 64)"
      using i mod_pos_pos_trivial [of "int_cast n + 2 ^ 64" "2 ^ 64"]
      by (simp add: size_t_cast_def in_int32_def)
    then have "2 ^ 63 \<le> size_t_add (size_t_cast (int_cast n)) 2"
      using n i by (simp add: size_t_add_def in_int32_def)
    then have "bulk_fetch_str ?b rest = (?b, rest, Inr ())"
      using assms(2) by (simp add: bulk_fetch_str_def Let_def)
    moreover have "\<not> bs_ready ?b" by (simp add: bulk_string_init_def)
    ultimately show "\<exists>b. bulk_feed bulk_string_init (line (to_string_int n) @ rest) = (b, rest, Inr ()) \<and>
        \<not> bs_ready b"
      using n f by auto
  qed
qed

theorem bulk_size_not_a_length_witness:
  "snd (snd (bulk_feed bulk_string_init (line (to_string_int (-2)) @ ''abc''))) =
    Inl (Undefined_Behaviour Index_Out_Of_Range)"
  using bulk_size_not_a_length [of "-2" "''abc''"] by (simp add: int_cast_def)

end
