(* ===== verification/Command_Data.thy ===== *)
theory Command_Data
  imports Prelude
begin

text \<open>
  The data the commands of \<open>client\<close> take besides strings and integers (the enumerations
  and the bitfield operations of includes/cpp_redis/core/client.hpp, with their
  conversions in sources/core/client.cpp), and \<open>std::to_string\<close> of a \<open>double\<close>.
\<close>

section \<open>Enumerations\<close>

datatype aggregate_method =
    Aggregate_sum
  | Aggregate_min
  | Aggregate_max
  | Aggregate_server_default

fun aggregate_method_to_string :: "aggregate_method \<Rightarrow> string" where
  "aggregate_method_to_string Aggregate_sum = ''SUM''"
| "aggregate_method_to_string Aggregate_min = ''MIN''"
| "aggregate_method_to_string Aggregate_max = ''MAX''"
| "aggregate_method_to_string _ = []"

datatype geo_unit = Geo_m | Geo_km | Geo_ft | Geo_mi

fun geo_unit_to_string :: "geo_unit \<Rightarrow> string" where
  "geo_unit_to_string Geo_m = ''m''"
| "geo_unit_to_string Geo_km = ''km''"
| "geo_unit_to_string Geo_ft = ''ft''"
| "geo_unit_to_string Geo_mi = ''mi''"

datatype overflow_type =
    Overflow_wrap
  | Overflow_sat
  | Overflow_fail
  | Overflow_server_default

fun overflow_type_to_string :: "overflow_type \<Rightarrow> string" where
  "overflow_type_to_string Overflow_wrap = ''WRAP''"
| "overflow_type_to_string Overflow_sat = ''SAT''"
| "overflow_type_to_string Overflow_fail = ''FAIL''"
| "overflow_type_to_string _ = []"

datatype bitfield_operation_type = Bitfield_get | Bitfield_set | Bitfield_incrby

fun bitfield_operation_type_to_string :: "bitfield_operation_type \<Rightarrow> string" where
  "bitfield_operation_type_to_string Bitfield_get = ''GET''"
| "bitfield_operation_type_to_string Bitfield_set = ''SET''"
| "bitfield_operation_type_to_string Bitfield_incrby = ''INCRBY''"

section \<open>Bitfield operations\<close>

record bitfield_operation =
  bo_operation_type :: bitfield_operation_type
  bo_type :: string
  bo_offset :: int
  bo_value :: int
  bo_overflow :: overflow_type

definition bitfield_operation_get ::
  "string \<Rightarrow> int \<Rightarrow> overflow_type \<Rightarrow> bitfield_operation"
where
  "bitfield_operation_get t offset overflow =
     \<lparr>bo_operation_type = Bitfield_get, bo_type = t, bo_offset = offset, bo_value = 0,
      bo_overflow = overflow\<rparr>"

definition bitfield_operation_set ::
  "string \<Rightarrow> int \<Rightarrow> int \<Rightarrow> overflow_type \<Rightarrow> bitfield_operation"
where
  "bitfield_operation_set t offset v overflow =
     \<lparr>bo_operation_type = Bitfield_set, bo_type = t, bo_offset = offset, bo_value = v,
      bo_overflow = overflow\<rparr>"

definition bitfield_operation_incrby ::
  "string \<Rightarrow> int \<Rightarrow> int \<Rightarrow> overflow_type \<Rightarrow> bitfield_operation"
where
  "bitfield_operation_incrby t offset increment overflow =
     \<lparr>bo_operation_type = Bitfield_incrby, bo_type = t, bo_offset = offset,
      bo_value = increment, bo_overflow = overflow\<rparr>"

text \<open>The words one operation adds to a \<open>BITFIELD\<close> command.\<close>

definition bitfield_operation_words :: "bitfield_operation \<Rightarrow> string list" where
  "bitfield_operation_words op =
     [bitfield_operation_type_to_string (bo_operation_type op), bo_type op,
      to_string_int (bo_offset op)]
     @ (if bo_operation_type op = Bitfield_set \<or> bo_operation_type op = Bitfield_incrby
        then [to_string_int (bo_value op)] else [])
     @ (if bo_overflow op \<noteq> Overflow_server_default
        then [''OVERFLOW'', overflow_type_to_string (bo_overflow op)] else [])"

section \<open>Doubles\<close>

text \<open>A \<open>double\<close>, sign first: \<open>Finite s m e\<close> is \<open>m * 2 ^ e\<close>. \<open>std::to_string\<close> prints with
  \<open>%f\<close>: the exact value rounded to six decimals, ties to even.\<close>

datatype double =
    Finite bool nat int
  | Infinite bool
  | Not_A_Number bool

definition round_div :: "nat \<Rightarrow> nat \<Rightarrow> nat" where
  "round_div a b =
     (let q = a div b; r = a mod b
      in if 2 * r < b \<or> (2 * r = b \<and> even q) then q else q + 1)"

text \<open>The value in millionths.\<close>

definition millionths :: "nat \<Rightarrow> int \<Rightarrow> nat" where
  "millionths m e =
     (if 0 \<le> e then m * 2 ^ nat e * 10 ^ 6 else round_div (m * 10 ^ 6) (2 ^ nat (- e)))"

definition six_digits :: "nat \<Rightarrow> string" where
  "six_digits n = map (\<lambda>i. digit_char (n div 10 ^ i mod 10)) [5, 4, 3, 2, 1, 0]"

fun to_string_double :: "double \<Rightarrow> string" where
  "to_string_double (Finite s m e) =
     (if s then ''-'' else []) @ to_string_nat (millionths m e div 10 ^ 6) @ ''.''
     @ six_digits (millionths m e mod 10 ^ 6)"
| "to_string_double (Infinite s) = (if s then ''-'' else []) @ ''inf''"
| "to_string_double (Not_A_Number s) = (if s then ''-'' else []) @ ''nan''"

text \<open>Rounding is to the nearest: at most half a unit away.\<close>

lemma round_div_nearest:
  assumes "0 < b"
  shows "2 * a \<le> b * (2 * round_div a b + 1)" "b * (2 * round_div a b) \<le> 2 * a + b"
proof -
  define q r where "q = a div b" and "r = a mod b"
  have d: "a = b * q + r" "r < b" using assms by (simp_all add: q_def r_def)
  have rd: "round_div a b = (if 2 * r < b \<or> (2 * r = b \<and> even q) then q else q + 1)"
    by (simp add: round_div_def Let_def q_def r_def)
  show "2 * a \<le> b * (2 * round_div a b + 1)"
    unfolding rd using d by (auto simp: algebra_simps)
  show "b * (2 * round_div a b) \<le> 2 * a + b"
    unfolding rd using d by (auto simp: algebra_simps)
qed

end
