(* ===== verification/Commands_A_G.thy ===== *)
theory Commands_A_G
  imports Command_Data
begin

text \<open>
  The commands from \<open>append\<close> to \<open>georadiusbymember\<close> (sources/core/client.cpp): a datatype per
  stretch of the file, with a constructor for each overload of each method, and the words
  the overload sends. A method that only completes the arguments of another overload is
  defined through it, as in the code (\<open>..._impl\<close>).
\<close>

section \<open>\<open>append\<close> to \<open>client_setname\<close>\<close>

datatype (plugins only: code) string_client_command =
    C_append string string
  | C_auth string
  | C_bgrewriteaof
  | C_bgsave
  | C_bitcount string
  | C_bitcount_start_end string int int
  | C_bitfield string "bitfield_operation list"
  | C_bitop string string "string list"
  | C_bitpos string int
  | C_bitpos_start string int int
  | C_bitpos_start_end string int int int
  | C_blpop "string list" int
  | C_brpop "string list" int
  | C_brpoplpush string string int
  | C_client_list
  | C_client_getname
  | C_client_pause int
  | C_client_reply string
  | C_client_setname string

primrec string_client_words :: "string_client_command \<Rightarrow> string list" where
  "string_client_words (C_append key value') = [''APPEND'', key, value']"
| "string_client_words (C_auth password) = [''AUTH'', password]"
| "string_client_words C_bgrewriteaof = [''BGREWRITEAOF'']"
| "string_client_words C_bgsave = [''BGSAVE'']"
| "string_client_words (C_bitcount key) = [''BITCOUNT'', key]"
| "string_client_words (C_bitcount_start_end key start end') =
     [''BITCOUNT'', key, to_string_int start, to_string_int end']"
| "string_client_words (C_bitfield key operations) =
     [''BITFIELD'', key] @ concat (map bitfield_operation_words operations)"
| "string_client_words (C_bitop operation destkey keys) = [''BITOP'', operation, destkey] @ keys"
| "string_client_words (C_bitpos key bit') = [''BITPOS'', key, to_string_int bit']"
| "string_client_words (C_bitpos_start key bit' start) =
     [''BITPOS'', key, to_string_int bit', to_string_int start]"
| "string_client_words (C_bitpos_start_end key bit' start end') =
     [''BITPOS'', key, to_string_int bit', to_string_int start, to_string_int end']"
| "string_client_words (C_blpop keys timeout) = [''BLPOP''] @ keys @ [to_string_int timeout]"
| "string_client_words (C_brpop keys timeout) = [''BRPOP''] @ keys @ [to_string_int timeout]"
| "string_client_words (C_brpoplpush src dst timeout) =
     [''BRPOPLPUSH'', src, dst, to_string_int timeout]"
| "string_client_words C_client_list = [''CLIENT'', ''LIST'']"
| "string_client_words C_client_getname = [''CLIENT'', ''GETNAME'']"
| "string_client_words (C_client_pause timeout) = [''CLIENT'', ''PAUSE'', to_string_int timeout]"
| "string_client_words (C_client_reply mode) = [''CLIENT'', ''REPLY'', mode]"
| "string_client_words (C_client_setname name) = [''CLIENT'', ''SETNAME'', name]"

section \<open>\<open>cluster_addslots\<close> to \<open>cluster_slots\<close>\<close>

datatype (plugins only: code) cluster_command =
    C_cluster_addslots "string list"
  | C_cluster_count_failure_reports string
  | C_cluster_countkeysinslot string
  | C_cluster_delslots "string list"
  | C_cluster_failover
  | C_cluster_failover_mode string
  | C_cluster_forget string
  | C_cluster_getkeysinslot string int
  | C_cluster_info
  | C_cluster_keyslot string
  | C_cluster_meet string int
  | C_cluster_nodes
  | C_cluster_replicate string
  | C_cluster_reset
  | C_cluster_reset_mode string
  | C_cluster_saveconfig
  | C_cluster_set_config_epoch string
  | C_cluster_setslot string string
  | C_cluster_setslot_node_id string string string
  | C_cluster_slaves string
  | C_cluster_slots

primrec cluster_words :: "cluster_command \<Rightarrow> string list" where
  "cluster_words (C_cluster_addslots p_slots) = [''CLUSTER'', ''ADDSLOTS''] @ p_slots"
| "cluster_words (C_cluster_count_failure_reports node_id) =
     [''CLUSTER'', ''COUNT-FAILURE-REPORTS'', node_id]"
| "cluster_words (C_cluster_countkeysinslot slot) = [''CLUSTER'', ''COUNTKEYSINSLOT'', slot]"
| "cluster_words (C_cluster_delslots p_slots) = [''CLUSTER'', ''DELSLOTS''] @ p_slots"
| "cluster_words C_cluster_failover = [''CLUSTER'', ''FAILOVER'']"
| "cluster_words (C_cluster_failover_mode mode) = [''CLUSTER'', ''FAILOVER'', mode]"
| "cluster_words (C_cluster_forget node_id) = [''CLUSTER'', ''FORGET'', node_id]"
| "cluster_words (C_cluster_getkeysinslot slot count) =
     [''CLUSTER'', ''GETKEYSINSLOT'', slot, to_string_int count]"
| "cluster_words C_cluster_info = [''CLUSTER'', ''INFO'']"
| "cluster_words (C_cluster_keyslot key) = [''CLUSTER'', ''KEYSLOT'', key]"
| "cluster_words (C_cluster_meet ip port) = [''CLUSTER'', ''MEET'', ip, to_string_int port]"
| "cluster_words C_cluster_nodes = [''CLUSTER'', ''NODES'']"
| "cluster_words (C_cluster_replicate node_id) = [''CLUSTER'', ''REPLICATE'', node_id]"
| "cluster_words C_cluster_reset = [''CLUSTER'', ''RESET'']"
| "cluster_words (C_cluster_reset_mode mode) = [''CLUSTER'', ''RESET'', mode]"
| "cluster_words C_cluster_saveconfig = [''CLUSTER'', ''SAVECONFIG'']"
| "cluster_words (C_cluster_set_config_epoch epoch) = [''CLUSTER'', ''SET-CONFIG-EPOCH'', epoch]"
| "cluster_words (C_cluster_setslot slot mode) = [''CLUSTER'', ''SETSLOT'', slot, mode]"
| "cluster_words (C_cluster_setslot_node_id slot mode node_id) =
     [''CLUSTER'', ''SETSLOT'', slot, mode, node_id]"
| "cluster_words (C_cluster_slaves node_id) = [''CLUSTER'', ''SLAVES'', node_id]"
| "cluster_words C_cluster_slots = [''CLUSTER'', ''SLOTS'']"

section \<open>\<open>command\<close> to \<open>exec\<close>\<close>

datatype (plugins only: code) config_eval_command =
    C_command
  | C_command_count
  | C_command_getkeys
  | C_command_info "string list"
  | C_config_get string
  | C_config_rewrite
  | C_config_set string string
  | C_config_resetstat
  | C_dbsize
  | C_debug_object string
  | C_debug_segfault
  | C_decr string
  | C_decrby string int
  | C_del "string list"
  | C_discard
  | C_dump string
  | C_echo string
  | C_eval string int "string list" "string list"
  | C_evalsha string int "string list" "string list"
  | C_exec

primrec config_eval_words :: "config_eval_command \<Rightarrow> string list" where
  "config_eval_words C_command = [''COMMAND'']"
| "config_eval_words C_command_count = [''COMMAND'', ''COUNT'']"
| "config_eval_words C_command_getkeys = [''COMMAND'', ''GETKEYS'']"
| "config_eval_words (C_command_info command_name) = [''COMMAND'', ''COUNT''] @ command_name"
| "config_eval_words (C_config_get param) = [''CONFIG'', ''GET'', param]"
| "config_eval_words C_config_rewrite = [''CONFIG'', ''REWRITE'']"
| "config_eval_words (C_config_set param val) = [''CONFIG'', ''SET'', param, val]"
| "config_eval_words C_config_resetstat = [''CONFIG'', ''RESETSTAT'']"
| "config_eval_words C_dbsize = [''DBSIZE'']"
| "config_eval_words (C_debug_object key) = [''DEBUG'', ''OBJECT'', key]"
| "config_eval_words C_debug_segfault = [''DEBUG'', ''SEGFAULT'']"
| "config_eval_words (C_decr key) = [''DECR'', key]"
| "config_eval_words (C_decrby key val) = [''DECRBY'', key, to_string_int val]"
| "config_eval_words (C_del key) = [''DEL''] @ key"
| "config_eval_words C_discard = [''DISCARD'']"
| "config_eval_words (C_dump key) = [''DUMP'', key]"
| "config_eval_words (C_echo msg) = [''ECHO'', msg]"
| "config_eval_words (C_eval script numkeys keys args) =
     [''EVAL'', script, to_string_int numkeys]
     @ keys
     @ args"
| "config_eval_words (C_evalsha sha1 numkeys keys args) =
     [''EVALSHA'', sha1, to_string_int numkeys]
     @ keys
     @ args"
| "config_eval_words C_exec = [''EXEC'']"

section \<open>\<open>exists\<close> to \<open>georadiusbymember\<close>\<close>

definition georadius_impl ::
  "string \<Rightarrow> double \<Rightarrow> double \<Rightarrow> double \<Rightarrow>
   geo_unit \<Rightarrow> bool \<Rightarrow> bool \<Rightarrow> bool \<Rightarrow>
   bool \<Rightarrow> nat \<Rightarrow> string \<Rightarrow> string \<Rightarrow> string list"
where
  "georadius_impl key longitude latitude radius unit' with_coord with_dist with_hash asc_order
    count
    store_key storedist_key =
     [''GEORADIUS'', key, to_string_double longitude, to_string_double latitude, to_string_double
       radius, geo_unit_to_string unit']
     @ (if with_coord then [''WITHCOORD''] else [])
     @ (if with_dist then [''WITHDIST''] else [])
     @ (if with_hash then [''WITHHASH''] else [])
     @ [if asc_order then ''ASC'' else ''DESC'']
     @ (if 0 < count then [''COUNT'', to_string_nat count] else [])
     @ (if store_key \<noteq> [] then [''STOREDIST'', storedist_key] else [])
     @ (if storedist_key \<noteq> [] then [''STOREDIST'', storedist_key] else [])"

definition georadiusbymember_impl ::
  "string \<Rightarrow> string \<Rightarrow> double \<Rightarrow> geo_unit \<Rightarrow>
   bool \<Rightarrow> bool \<Rightarrow> bool \<Rightarrow> bool \<Rightarrow> nat \<Rightarrow>
   string \<Rightarrow> string \<Rightarrow> string list"
where
  "georadiusbymember_impl key member' radius unit' with_coord with_dist with_hash asc_order count
    store_key storedist_key =
     [''GEORADIUSBYMEMBER'', key, member', to_string_double radius, geo_unit_to_string unit']
     @ (if with_coord then [''WITHCOORD''] else [])
     @ (if with_dist then [''WITHDIST''] else [])
     @ (if with_hash then [''WITHHASH''] else [])
     @ [if asc_order then ''ASC'' else ''DESC'']
     @ (if 0 < count then [''COUNT'', to_string_nat count] else [])
     @ (if store_key \<noteq> [] then [''STOREDIST'', storedist_key] else [])
     @ (if storedist_key \<noteq> [] then [''STOREDIST'', storedist_key] else [])"

datatype (plugins only: code) expire_geo_command =
    C_exists "string list"
  | C_expire string int
  | C_expireat string int
  | C_flushall
  | C_flushdb
  | C_geoadd string "(string \<times> string \<times> string) list"
  | C_geohash string "string list"
  | C_geopos string "string list"
  | C_geodist string string string
  | C_geodist_unit string string string string
  | C_georadius string double double double geo_unit bool bool bool bool
  | C_georadius_count string double double double geo_unit bool bool bool bool nat
  | C_georadius_store string double double double geo_unit bool bool bool bool string
  | C_georadius_storedist string double double double geo_unit bool bool bool bool string string
  | C_georadius_count_store string double double double geo_unit bool bool bool bool nat string
  | C_georadius_count_storedist string double double double geo_unit bool bool bool bool nat
    string
      string
  | C_georadiusbymember string string double geo_unit bool bool bool bool
  | C_georadiusbymember_count string string double geo_unit bool bool bool bool nat
  | C_georadiusbymember_store string string double geo_unit bool bool bool bool string
  | C_georadiusbymember_storedist string string double geo_unit bool bool bool bool string string
  | C_georadiusbymember_count_store string string double geo_unit bool bool bool bool nat string
  | C_georadiusbymember_count_storedist string string double geo_unit bool bool bool bool nat
    string
      string

primrec expire_geo_words :: "expire_geo_command \<Rightarrow> string list" where
  "expire_geo_words (C_exists keys) = [''EXISTS''] @ keys"
| "expire_geo_words (C_expire key seconds) = [''EXPIRE'', key, to_string_int seconds]"
| "expire_geo_words (C_expireat key timestamp) = [''EXPIREAT'', key, to_string_int timestamp]"
| "expire_geo_words C_flushall = [''FLUSHALL'']"
| "expire_geo_words C_flushdb = [''FLUSHDB'']"
| "expire_geo_words (C_geoadd key long_lat_memb) =
     [''GEOADD'', key]
     @ concat (map (\<lambda>(a, b, c). [a, b, c]) long_lat_memb)"
| "expire_geo_words (C_geohash key members) = [''GEOHASH'', key] @ members"
| "expire_geo_words (C_geopos key members) = [''GEOPOS'', key] @ members"
| "expire_geo_words (C_geodist key member_1 member_2) = [''GEODIST'', key, member_1, member_2]"
| "expire_geo_words (C_geodist_unit key member_1 member_2 unit') =
     [''GEODIST'', key, member_1, member_2, unit']"
| "expire_geo_words (C_georadius key longitude latitude radius unit' with_coord with_dist
     with_hash asc_order) =
     georadius_impl key longitude latitude radius unit' with_coord with_dist with_hash asc_order
       0 [] []"
| "expire_geo_words (C_georadius_count key longitude latitude radius unit' with_coord with_dist
     with_hash asc_order count) =
     georadius_impl key longitude latitude radius unit' with_coord with_dist with_hash asc_order
       count [] []"
| "expire_geo_words (C_georadius_store key longitude latitude radius unit' with_coord with_dist
     with_hash asc_order store_key) =
     georadius_impl key longitude latitude radius unit' with_coord with_dist with_hash asc_order
       0 store_key []"
| "expire_geo_words (C_georadius_storedist key longitude latitude radius unit' with_coord
     with_dist with_hash asc_order store_key storedist_key) =
     georadius_impl key longitude latitude radius unit' with_coord with_dist with_hash asc_order
       0 store_key storedist_key"
| "expire_geo_words (C_georadius_count_store key longitude latitude radius unit' with_coord
     with_dist with_hash asc_order count store_key) =
     georadius_impl key longitude latitude radius unit' with_coord with_dist with_hash asc_order
       count store_key []"
| "expire_geo_words (C_georadius_count_storedist key longitude latitude radius unit' with_coord
     with_dist with_hash asc_order count store_key storedist_key) =
     georadius_impl key longitude latitude radius unit' with_coord with_dist with_hash asc_order
       count store_key storedist_key"
| "expire_geo_words (C_georadiusbymember key member' radius unit' with_coord with_dist with_hash
     asc_order) =
     georadiusbymember_impl key member' radius unit' with_coord with_dist with_hash asc_order 0
       [] []"
| "expire_geo_words (C_georadiusbymember_count key member' radius unit' with_coord with_dist
     with_hash asc_order count) =
     georadiusbymember_impl key member' radius unit' with_coord with_dist with_hash asc_order
       count [] []"
| "expire_geo_words (C_georadiusbymember_store key member' radius unit' with_coord with_dist
     with_hash asc_order store_key) =
     georadiusbymember_impl key member' radius unit' with_coord with_dist with_hash asc_order 0
       store_key []"
| "expire_geo_words (C_georadiusbymember_storedist key member' radius unit' with_coord with_dist
     with_hash asc_order store_key storedist_key) =
     georadiusbymember_impl key member' radius unit' with_coord with_dist with_hash asc_order 0
       store_key storedist_key"
| "expire_geo_words (C_georadiusbymember_count_store key member' radius unit' with_coord
     with_dist with_hash asc_order count store_key) =
     georadiusbymember_impl key member' radius unit' with_coord with_dist with_hash asc_order
       count store_key []"
| "expire_geo_words (C_georadiusbymember_count_storedist key member' radius unit' with_coord
     with_dist with_hash asc_order count store_key storedist_key) =
     georadiusbymember_impl key member' radius unit' with_coord with_dist with_hash asc_order
       count store_key storedist_key"

end
