(* ===== verification/Commands_G_R.thy ===== *)
theory Commands_G_R
  imports Command_Data
begin

text \<open>
  The commands from \<open>get\<close> to \<open>scard\<close> (sources/core/client.cpp): a datatype per
  stretch of the file, with a constructor for each overload of each method, and the words
  the overload sends. A method that only completes the arguments of another overload is
  defined through it, as in the code (\<open>..._impl\<close>).
\<close>

section \<open>\<open>get\<close> to \<open>hscan\<close>\<close>

definition hscan_impl ::
  "string \<Rightarrow> nat \<Rightarrow> string \<Rightarrow> nat \<Rightarrow> string list"
where
  "hscan_impl key cursor pattern count =
     [''HSCAN'', key, to_string_nat cursor]
     @ (if pattern \<noteq> [] then [''MATCH'', pattern] else [])
     @ (if 0 < count then [''COUNT'', to_string_nat count] else [])"

datatype (plugins only: code) get_hash_command =
    C_get string
  | C_getbit string int
  | C_getrange string int int
  | C_getset string string
  | C_hdel string "string list"
  | C_hexists string string
  | C_hget string string
  | C_hgetall string
  | C_hincrby string string int
  | C_hincrbyfloat string string double
  | C_hkeys string
  | C_hlen string
  | C_hmget string "string list"
  | C_hmset string "(string \<times> string) list"
  | C_hscan string nat
  | C_hscan_pattern string nat string
  | C_hscan_count string nat nat
  | C_hscan_pattern_count string nat string nat

primrec get_hash_words :: "get_hash_command \<Rightarrow> string list" where
  "get_hash_words (C_get key) = [''GET'', key]"
| "get_hash_words (C_getbit key offset) = [''GETBIT'', key, to_string_int offset]"
| "get_hash_words (C_getrange key start end') =
     [''GETRANGE'', key, to_string_int start, to_string_int end']"
| "get_hash_words (C_getset key val) = [''GETSET'', key, val]"
| "get_hash_words (C_hdel key fields') = [''HDEL'', key] @ fields'"
| "get_hash_words (C_hexists key field) = [''HEXISTS'', key, field]"
| "get_hash_words (C_hget key field) = [''HGET'', key, field]"
| "get_hash_words (C_hgetall key) = [''HGETALL'', key]"
| "get_hash_words (C_hincrby key field incr) = [''HINCRBY'', key, field, to_string_int incr]"
| "get_hash_words (C_hincrbyfloat key field incr) =
     [''HINCRBYFLOAT'', key, field, to_string_double incr]"
| "get_hash_words (C_hkeys key) = [''HKEYS'', key]"
| "get_hash_words (C_hlen key) = [''HLEN'', key]"
| "get_hash_words (C_hmget key fields') = [''HMGET'', key] @ fields'"
| "get_hash_words (C_hmset key field_val) =
     [''HMSET'', key]
     @ concat (map (\<lambda>(a, b). [a, b]) field_val)"
| "get_hash_words (C_hscan key cursor) = hscan_impl key cursor [] 0"
| "get_hash_words (C_hscan_pattern key cursor pattern) = hscan_impl key cursor pattern 0"
| "get_hash_words (C_hscan_count key cursor count) = hscan_impl key cursor [] count"
| "get_hash_words (C_hscan_pattern_count key cursor pattern count) =
     hscan_impl key cursor pattern count"

section \<open>\<open>hset\<close> to \<open>ltrim\<close>\<close>

datatype (plugins only: code) hash_list_command =
    C_hset string string string
  | C_hsetnx string string string
  | C_hstrlen string string
  | C_hvals string
  | C_incr string
  | C_incrby string int
  | C_incrbyfloat string double
  | C_info
  | C_info_section string
  | C_keys string
  | C_lastsave
  | C_lindex string int
  | C_linsert string string string string
  | C_llen string
  | C_lpop string
  | C_lpush string "string list"
  | C_lpushx string string
  | C_lrange string int int
  | C_lrem string int string
  | C_lset string int string
  | C_ltrim string int int

primrec hash_list_words :: "hash_list_command \<Rightarrow> string list" where
  "hash_list_words (C_hset key field value') = [''HSET'', key, field, value']"
| "hash_list_words (C_hsetnx key field value') = [''HSETNX'', key, field, value']"
| "hash_list_words (C_hstrlen key field) = [''HSTRLEN'', key, field]"
| "hash_list_words (C_hvals key) = [''HVALS'', key]"
| "hash_list_words (C_incr key) = [''INCR'', key]"
| "hash_list_words (C_incrby key incr) = [''INCRBY'', key, to_string_int incr]"
| "hash_list_words (C_incrbyfloat key incr) = [''INCRBYFLOAT'', key, to_string_double incr]"
| "hash_list_words C_info = [''INFO'']"
| "hash_list_words (C_info_section section') = [''INFO'', section']"
| "hash_list_words (C_keys pattern) = [''KEYS'', pattern]"
| "hash_list_words C_lastsave = [''LASTSAVE'']"
| "hash_list_words (C_lindex key index') = [''LINDEX'', key, to_string_int index']"
| "hash_list_words (C_linsert key before_after pivot value') =
     [''LINSERT'', key, before_after, pivot, value']"
| "hash_list_words (C_llen key) = [''LLEN'', key]"
| "hash_list_words (C_lpop key) = [''LPOP'', key]"
| "hash_list_words (C_lpush key values) = [''LPUSH'', key] @ values"
| "hash_list_words (C_lpushx key value') = [''LPUSHX'', key, value']"
| "hash_list_words (C_lrange key start stop) =
     [''LRANGE'', key, to_string_int start, to_string_int stop]"
| "hash_list_words (C_lrem key count value') = [''LREM'', key, to_string_int count, value']"
| "hash_list_words (C_lset key index' value') = [''LSET'', key, to_string_int index', value']"
| "hash_list_words (C_ltrim key start stop) =
     [''LTRIM'', key, to_string_int start, to_string_int stop]"

section \<open>\<open>mget\<close> to \<open>pubsub\<close>\<close>

datatype (plugins only: code) migrate_publish_command =
    C_mget "string list"
  | C_migrate string int string string int
  | C_migrate_options string int string string int bool bool "string list"
  | C_monitor
  | C_move string string
  | C_mset "(string \<times> string) list"
  | C_msetnx "(string \<times> string) list"
  | C_multi
  | C_object string "string list"
  | C_persist string
  | C_pexpire string int
  | C_pexpireat string int
  | C_pfadd string "string list"
  | C_pfcount "string list"
  | C_pfmerge string "string list"
  | C_ping
  | C_ping_message string
  | C_psetex string int string
  | C_publish string string
  | C_pubsub string "string list"

primrec migrate_publish_words :: "migrate_publish_command \<Rightarrow> string list" where
  "migrate_publish_words (C_mget keys) = [''MGET''] @ keys"
| "migrate_publish_words (C_migrate host port key dest_db timeout) =
     [''MIGRATE'', host, to_string_int port, key, dest_db, to_string_int timeout]"
| "migrate_publish_words (C_migrate_options host port key dest_db timeout copy' replace' keys) =
     [''MIGRATE'', host, to_string_int port, key, dest_db, to_string_int timeout]
     @ (if copy' then [''COPY''] else [])
     @ (if replace' then [''REPLACE''] else [])
     @ (if 0 < length keys then [''KEYS''] @ keys else [])"
| "migrate_publish_words C_monitor = [''MONITOR'']"
| "migrate_publish_words (C_move key db) = [''MOVE'', key, db]"
| "migrate_publish_words (C_mset key_vals) =
     [''MSET'']
     @ concat (map (\<lambda>(a, b). [a, b]) key_vals)"
| "migrate_publish_words (C_msetnx key_vals) =
     [''MSETNX'']
     @ concat (map (\<lambda>(a, b). [a, b]) key_vals)"
| "migrate_publish_words C_multi = [''MULTI'']"
| "migrate_publish_words (C_object subcommand args) = [''OBJECT'', subcommand] @ args"
| "migrate_publish_words (C_persist key) = [''PERSIST'', key]"
| "migrate_publish_words (C_pexpire key milliseconds) =
     [''PEXPIRE'', key, to_string_int milliseconds]"
| "migrate_publish_words (C_pexpireat key milliseconds_timestamp) =
     [''PEXPIREAT'', key, to_string_int milliseconds_timestamp]"
| "migrate_publish_words (C_pfadd key elements) = [''PFADD'', key] @ elements"
| "migrate_publish_words (C_pfcount keys) = [''PFCOUNT''] @ keys"
| "migrate_publish_words (C_pfmerge destkey sourcekeys) = [''PFMERGE'', destkey] @ sourcekeys"
| "migrate_publish_words C_ping = [''PING'']"
| "migrate_publish_words (C_ping_message message) = [''PING'', message]"
| "migrate_publish_words (C_psetex key milliseconds val) =
     [''PSETEX'', key, to_string_int milliseconds, val]"
| "migrate_publish_words (C_publish channel message) = [''PUBLISH'', channel, message]"
| "migrate_publish_words (C_pubsub subcommand args) = [''PUBSUB'', subcommand] @ args"

section \<open>\<open>pttl\<close> to \<open>scard\<close>\<close>

definition scan_impl ::
  "nat \<Rightarrow> string \<Rightarrow> nat \<Rightarrow> string list"
where
  "scan_impl cursor pattern count =
     [''SCAN'', to_string_nat cursor]
     @ (if pattern \<noteq> [] then [''MATCH'', pattern] else [])
     @ (if 0 < count then [''COUNT'', to_string_nat count] else [])"

datatype (plugins only: code) rename_scan_command =
    C_pttl string
  | C_quit
  | C_randomkey
  | C_readonly
  | C_readwrite
  | C_rename string string
  | C_renamenx string string
  | C_restore string int string
  | C_restore_replace string int string string
  | C_role
  | C_rpop string
  | C_rpoplpush string string
  | C_rpush string "string list"
  | C_rpushx string string
  | C_sadd string "string list"
  | C_save
  | C_scan nat
  | C_scan_pattern nat string
  | C_scan_count nat nat
  | C_scan_pattern_count nat string nat
  | C_scard string

primrec rename_scan_words :: "rename_scan_command \<Rightarrow> string list" where
  "rename_scan_words (C_pttl key) = [''PTTL'', key]"
| "rename_scan_words C_quit = [''QUIT'']"
| "rename_scan_words C_randomkey = [''RANDOMKEY'']"
| "rename_scan_words C_readonly = [''READONLY'']"
| "rename_scan_words C_readwrite = [''READWRITE'']"
| "rename_scan_words (C_rename key newkey) = [''RENAME'', key, newkey]"
| "rename_scan_words (C_renamenx key newkey) = [''RENAMENX'', key, newkey]"
| "rename_scan_words (C_restore key ttl serialized_value) =
     [''RESTORE'', key, to_string_int ttl, serialized_value]"
| "rename_scan_words (C_restore_replace key ttl serialized_value replace') =
     [''RESTORE'', key, to_string_int ttl, serialized_value, replace']"
| "rename_scan_words C_role = [''ROLE'']"
| "rename_scan_words (C_rpop key) = [''RPOP'', key]"
| "rename_scan_words (C_rpoplpush source' destination) = [''RPOPLPUSH'', source', destination]"
| "rename_scan_words (C_rpush key values) = [''RPUSH'', key] @ values"
| "rename_scan_words (C_rpushx key value') = [''RPUSHX'', key, value']"
| "rename_scan_words (C_sadd key members) = [''SADD'', key] @ members"
| "rename_scan_words C_save = [''SAVE'']"
| "rename_scan_words (C_scan cursor) = scan_impl cursor [] 0"
| "rename_scan_words (C_scan_pattern cursor pattern) = scan_impl cursor pattern 0"
| "rename_scan_words (C_scan_count cursor count) = scan_impl cursor [] count"
| "rename_scan_words (C_scan_pattern_count cursor pattern count) = scan_impl cursor pattern count"
| "rename_scan_words (C_scard key) = [''SCARD'', key]"

end
