(* ===== verification/Commands_S.thy ===== *)
theory Commands_S
  imports Command_Data
begin

text \<open>
  The commands from \<open>script_debug\<close> to \<open>watch\<close> (sources/core/client.cpp): a datatype per
  stretch of the file, with a constructor for each overload of each method, and the words
  the overload sends. A method that only completes the arguments of another overload is
  defined through it, as in the code (\<open>..._impl\<close>).
\<close>

section \<open>\<open>script_debug\<close> to \<open>sinterstore\<close>\<close>

datatype (plugins only: code) script_set_command =
    C_script_debug string
  | C_script_exists "string list"
  | C_script_flush
  | C_script_kill
  | C_script_load string
  | C_sdiff "string list"
  | C_sdiffstore string "string list"
  | C_select int
  | C_set string string
  | C_set_advanced string string
  | C_set_advanced_options string string bool int bool int bool bool
  | C_setbit string int string
  | C_setex string int string
  | C_setnx string string
  | C_setrange string int string
  | C_shutdown
  | C_shutdown_save string
  | C_sinter "string list"
  | C_sinterstore string "string list"

primrec script_set_words :: "script_set_command \<Rightarrow> string list" where
  "script_set_words (C_script_debug mode) = [''SCRIPT'', ''DEBUG'', mode]"
| "script_set_words (C_script_exists scripts) = [''SCRIPT'', ''EXISTS''] @ scripts"
| "script_set_words C_script_flush = [''SCRIPT'', ''FLUSH'']"
| "script_set_words C_script_kill = [''SCRIPT'', ''KILL'']"
| "script_set_words (C_script_load script) = [''SCRIPT'', ''LOAD'', script]"
| "script_set_words (C_sdiff keys) = [''SDIFF''] @ keys"
| "script_set_words (C_sdiffstore destination keys) = [''SDIFFSTORE'', destination] @ keys"
| "script_set_words (C_select index') = [''SELECT'', to_string_int index']"
| "script_set_words (C_set key value') = [''SET'', key, value']"
| "script_set_words (C_set_advanced key value') = [''SET'', key, value']"
| "script_set_words (C_set_advanced_options key value' ex ex_sec px px_milli nx xx) =
     [''SET'', key, value']
     @ (if ex then [''EX'', to_string_int ex_sec] else [])
     @ (if px then [''PX'', to_string_int px_milli] else [])
     @ (if nx then [''NX''] else [])
     @ (if xx then [''XX''] else [])"
| "script_set_words (C_setbit key offset value') = [''SETBIT'', key, to_string_int offset,
     value']"
| "script_set_words (C_setex key seconds value') = [''SETEX'', key, to_string_int seconds,
     value']"
| "script_set_words (C_setnx key value') = [''SETNX'', key, value']"
| "script_set_words (C_setrange key offset value') =
     [''SETRANGE'', key, to_string_int offset, value']"
| "script_set_words C_shutdown = [''SHUTDOWN'']"
| "script_set_words (C_shutdown_save save) = [''SHUTDOWN'', save]"
| "script_set_words (C_sinter keys) = [''SINTER''] @ keys"
| "script_set_words (C_sinterstore destination keys) = [''SINTERSTORE'', destination] @ keys"

section \<open>\<open>sismember\<close> to \<open>sort\<close>\<close>

definition sort_impl ::
  "string \<Rightarrow> string \<Rightarrow> bool \<Rightarrow> nat \<Rightarrow> nat
    \<Rightarrow>
   string list \<Rightarrow> bool \<Rightarrow> bool \<Rightarrow> string \<Rightarrow> string
     list"
where
  "sort_impl key by_pattern limit offset count get_patterns asc_order alpha store_dest =
     [''SORT'', key]
     @ (if by_pattern \<noteq> [] then [''BY'', by_pattern] else [])
     @ (if limit then [''LIMIT'', to_string_nat offset, to_string_nat count] else [])
     @ concat (map (\<lambda>p. if p = [] then [] else [''GET'', p]) get_patterns)
     @ [if asc_order then ''ASC'' else ''DESC'']
     @ (if alpha then [''ALPHA''] else [])
     @ (if store_dest \<noteq> [] then [''STORE'', store_dest] else [])"

datatype (plugins only: code) slow_sort_command =
    C_sismember string string
  | C_slaveof string int
  | C_slowlog string
  | C_slowlog_argument string string
  | C_smembers string
  | C_smove string string string
  | C_sort string
  | C_sort_get string "string list" bool bool
  | C_sort_limit string nat nat "string list" bool bool
  | C_sort_by string string "string list" bool bool
  | C_sort_get_store string "string list" bool bool string
  | C_sort_limit_store string nat nat "string list" bool bool string
  | C_sort_by_store string string "string list" bool bool string
  | C_sort_by_limit string string nat nat "string list" bool bool
  | C_sort_by_limit_store string string nat nat "string list" bool bool string

primrec slow_sort_words :: "slow_sort_command \<Rightarrow> string list" where
  "slow_sort_words (C_sismember key member') = [''SISMEMBER'', key, member']"
| "slow_sort_words (C_slaveof host port) = [''SLAVEOF'', host, to_string_int port]"
| "slow_sort_words (C_slowlog subcommand) = [''SLOWLOG'', subcommand]"
| "slow_sort_words (C_slowlog_argument subcommand argument) = [''SLOWLOG'', subcommand, argument]"
| "slow_sort_words (C_smembers key) = [''SMEMBERS'', key]"
| "slow_sort_words (C_smove source' destination member') =
     [''SMOVE'', source', destination, member']"
| "slow_sort_words (C_sort key) = [''SORT'', key]"
| "slow_sort_words (C_sort_get key get_patterns asc_order alpha) =
     sort_impl key [] False 0 0 get_patterns asc_order alpha []"
| "slow_sort_words (C_sort_limit key offset count get_patterns asc_order alpha) =
     sort_impl key [] True offset count get_patterns asc_order alpha []"
| "slow_sort_words (C_sort_by key by_pattern get_patterns asc_order alpha) =
     sort_impl key by_pattern False 0 0 get_patterns asc_order alpha []"
| "slow_sort_words (C_sort_get_store key get_patterns asc_order alpha store_dest) =
     sort_impl key [] False 0 0 get_patterns asc_order alpha store_dest"
| "slow_sort_words (C_sort_limit_store key offset count get_patterns asc_order alpha store_dest) =
     sort_impl key [] True offset count get_patterns asc_order alpha store_dest"
| "slow_sort_words (C_sort_by_store key by_pattern get_patterns asc_order alpha store_dest) =
     sort_impl key by_pattern False 0 0 get_patterns asc_order alpha store_dest"
| "slow_sort_words (C_sort_by_limit key by_pattern offset count get_patterns asc_order alpha) =
     sort_impl key by_pattern True offset count get_patterns asc_order alpha []"
| "slow_sort_words (C_sort_by_limit_store key by_pattern offset count get_patterns asc_order
     alpha store_dest) =
     sort_impl key by_pattern True offset count get_patterns asc_order alpha store_dest"

section \<open>\<open>spop\<close> to \<open>watch\<close>\<close>

definition sscan_impl ::
  "string \<Rightarrow> nat \<Rightarrow> string \<Rightarrow> nat \<Rightarrow> string list"
where
  "sscan_impl key cursor pattern count =
     [''SSCAN'', key, to_string_nat cursor]
     @ (if pattern \<noteq> [] then [''MATCH'', pattern] else [])
     @ (if 0 < count then [''COUNT'', to_string_nat count] else [])"

datatype (plugins only: code) set_watch_command =
    C_spop string
  | C_spop_count string int
  | C_srandmember string
  | C_srandmember_count string int
  | C_srem string "string list"
  | C_sscan string nat
  | C_sscan_pattern string nat string
  | C_sscan_count string nat nat
  | C_sscan_pattern_count string nat string nat
  | C_strlen string
  | C_sunion "string list"
  | C_sunionstore string "string list"
  | C_sync
  | C_time
  | C_ttl string
  | C_type string
  | C_unwatch
  | C_wait int int
  | C_watch "string list"

primrec set_watch_words :: "set_watch_command \<Rightarrow> string list" where
  "set_watch_words (C_spop key) = [''SPOP'', key]"
| "set_watch_words (C_spop_count key count) = [''SPOP'', key, to_string_int count]"
| "set_watch_words (C_srandmember key) = [''SRANDMEMBER'', key]"
| "set_watch_words (C_srandmember_count key count) = [''SRANDMEMBER'', key, to_string_int count]"
| "set_watch_words (C_srem key members) = [''SREM'', key] @ members"
| "set_watch_words (C_sscan key cursor) = sscan_impl key cursor [] 0"
| "set_watch_words (C_sscan_pattern key cursor pattern) = sscan_impl key cursor pattern 0"
| "set_watch_words (C_sscan_count key cursor count) = sscan_impl key cursor [] count"
| "set_watch_words (C_sscan_pattern_count key cursor pattern count) =
     sscan_impl key cursor pattern count"
| "set_watch_words (C_strlen key) = [''STRLEN'', key]"
| "set_watch_words (C_sunion keys) = [''SUNION''] @ keys"
| "set_watch_words (C_sunionstore destination keys) = [''SUNIONSTORE'', destination] @ keys"
| "set_watch_words C_sync = [''SYNC'']"
| "set_watch_words C_time = [''TIME'']"
| "set_watch_words (C_ttl key) = [''TTL'', key]"
| "set_watch_words (C_type key) = [''TYPE'', key]"
| "set_watch_words C_unwatch = [''UNWATCH'']"
| "set_watch_words (C_wait numslaves timeout) =
     [''WAIT'', to_string_int numslaves, to_string_int timeout]"
| "set_watch_words (C_watch keys) = [''WATCH''] @ keys"

end
