(* ===== verification/Commands_Z.thy ===== *)
theory Commands_Z
  imports Command_Data
begin

text \<open>
  The commands on sorted sets, from \<open>zadd\<close> to \<open>zunionstore\<close> (sources/core/client.cpp): a datatype per
  stretch of the file, with a constructor for each overload of each method, and the words
  the overload sends. A method that only completes the arguments of another overload is
  defined through it, as in the code (\<open>..._impl\<close>).
\<close>

section \<open>\<open>zadd\<close> to \<open>zlexcount\<close>\<close>

datatype (plugins only: code) zadd_command =
    C_zadd string "string list" "(string \<times> string) list"
  | C_zcard string
  | C_zcount_int string int int
  | C_zcount_double string double double
  | C_zcount_string string string string
  | C_zincrby_int string int string
  | C_zincrby_double string double string
  | C_zincrby_string string string string
  | C_zinterstore string nat "string list" "nat list" aggregate_method
  | C_zlexcount_int string int int
  | C_zlexcount_double string double double
  | C_zlexcount_string string string string

primrec zadd_words :: "zadd_command \<Rightarrow> string list" where
  "zadd_words (C_zadd key options score_members) =
     [''ZADD'', key]
     @ options
     @ concat (map (\<lambda>(a, b). [a, b]) score_members)"
| "zadd_words (C_zcard key) = [''ZCARD'', key]"
| "zadd_words (C_zcount_int key min' max') =
     [''ZCOUNT'', key, to_string_int min', to_string_int max']"
| "zadd_words (C_zcount_double key min' max') =
     [''ZCOUNT'', key, to_string_double min', to_string_double max']"
| "zadd_words (C_zcount_string key min' max') = [''ZCOUNT'', key, min', max']"
| "zadd_words (C_zincrby_int key incr member') = [''ZINCRBY'', key, to_string_int incr, member']"
| "zadd_words (C_zincrby_double key incr member') =
     [''ZINCRBY'', key, to_string_double incr, member']"
| "zadd_words (C_zincrby_string key incr member') = [''ZINCRBY'', key, incr, member']"
| "zadd_words (C_zinterstore destination numkeys keys weights method') =
     [''ZINTERSTORE'', destination, to_string_nat numkeys]
     @ keys
     @ (if weights \<noteq> [] then [''WEIGHTS''] @ map to_string_nat weights else [])
     @ (if method' \<noteq> Aggregate_server_default then [''AGGREGATE'',
       aggregate_method_to_string method'] else [])"
| "zadd_words (C_zlexcount_int key min' max') =
     [''ZLEXCOUNT'', key, to_string_int min', to_string_int max']"
| "zadd_words (C_zlexcount_double key min' max') =
     [''ZLEXCOUNT'', key, to_string_double min', to_string_double max']"
| "zadd_words (C_zlexcount_string key min' max') = [''ZLEXCOUNT'', key, min', max']"

section \<open>\<open>zrange\<close> to \<open>zrangebylex\<close>\<close>

definition zrangebylex_impl ::
  "string \<Rightarrow> string \<Rightarrow> string \<Rightarrow> bool \<Rightarrow>
   nat \<Rightarrow> nat \<Rightarrow> bool \<Rightarrow> string list"
where
  "zrangebylex_impl key min' max' limit offset count withscores =
     [''ZRANGEBYLEX'', key, min', max']
     @ (if withscores then [''WITHSCORES''] else [])
     @ (if limit then [''LIMIT'', to_string_nat offset, to_string_nat count] else [])"

datatype (plugins only: code) zrange_command =
    C_zrange_int string int int
  | C_zrange_int_withscores string int int bool
  | C_zrange_double string double double
  | C_zrange_double_withscores string double double bool
  | C_zrange_string string string string
  | C_zrange_string_withscores string string string bool
  | C_zrangebylex_int string int int
  | C_zrangebylex_int_withscores string int int bool
  | C_zrangebylex_double string double double
  | C_zrangebylex_double_withscores string double double bool
  | C_zrangebylex_string string string string
  | C_zrangebylex_string_withscores string string string bool
  | C_zrangebylex_int_offset_count string int int nat nat
  | C_zrangebylex_int_offset_count_withscores string int int nat nat bool
  | C_zrangebylex_double_offset_count string double double nat nat
  | C_zrangebylex_double_offset_count_withscores string double double nat nat bool
  | C_zrangebylex_string_offset_count string string string nat nat
  | C_zrangebylex_string_offset_count_withscores string string string nat nat bool

primrec zrange_words :: "zrange_command \<Rightarrow> string list" where
  "zrange_words (C_zrange_int key start stop) =
     [''ZRANGE'', key, to_string_int start, to_string_int stop]"
| "zrange_words (C_zrange_int_withscores key start stop withscores) =
     (if withscores
        then [''ZRANGE'', key, to_string_int start, to_string_int stop, ''WITHSCORES'']
        else [''ZRANGE'', key, to_string_int start, to_string_int stop])"
| "zrange_words (C_zrange_double key start stop) =
     [''ZRANGE'', key, to_string_double start, to_string_double stop]"
| "zrange_words (C_zrange_double_withscores key start stop withscores) =
     (if withscores
        then [''ZRANGE'', key, to_string_double start, to_string_double stop, ''WITHSCORES'']
        else [''ZRANGE'', key, to_string_double start, to_string_double stop])"
| "zrange_words (C_zrange_string key start stop) = [''ZRANGE'', key, start, stop]"
| "zrange_words (C_zrange_string_withscores key start stop withscores) =
     (if withscores
        then [''ZRANGE'', key, start, stop, ''WITHSCORES'']
        else [''ZRANGE'', key, start, stop])"
| "zrange_words (C_zrangebylex_int key min' max') =
     zrangebylex_impl key (to_string_int min') (to_string_int max') False 0 0 False"
| "zrange_words (C_zrangebylex_int_withscores key min' max' withscores) =
     zrangebylex_impl key (to_string_int min') (to_string_int max') False 0 0 withscores"
| "zrange_words (C_zrangebylex_double key min' max') =
     zrangebylex_impl key (to_string_double min') (to_string_double max') False 0 0 False"
| "zrange_words (C_zrangebylex_double_withscores key min' max' withscores) =
     zrangebylex_impl key (to_string_double min') (to_string_double max') False 0 0 withscores"
| "zrange_words (C_zrangebylex_string key min' max') =
     zrangebylex_impl key min' max' False 0 0 False"
| "zrange_words (C_zrangebylex_string_withscores key min' max' withscores) =
     zrangebylex_impl key min' max' False 0 0 withscores"
| "zrange_words (C_zrangebylex_int_offset_count key min' max' offset count) =
     zrangebylex_impl key (to_string_int min') (to_string_int max') True offset count False"
| "zrange_words (C_zrangebylex_int_offset_count_withscores key min' max' offset count withscores)
     =
     zrangebylex_impl key (to_string_int min') (to_string_int max') True offset count withscores"
| "zrange_words (C_zrangebylex_double_offset_count key min' max' offset count) =
     zrangebylex_impl key (to_string_double min') (to_string_double max') True offset count False"
| "zrange_words (C_zrangebylex_double_offset_count_withscores key min' max' offset count
     withscores) =
     zrangebylex_impl key (to_string_double min') (to_string_double max') True offset count
       withscores"
| "zrange_words (C_zrangebylex_string_offset_count key min' max' offset count) =
     zrangebylex_impl key min' max' True offset count False"
| "zrange_words (C_zrangebylex_string_offset_count_withscores key min' max' offset count
     withscores) =
     zrangebylex_impl key min' max' True offset count withscores"

section \<open>\<open>zrangebyscore\<close> to \<open>zremrangebyscore\<close>\<close>

definition zrangebyscore_impl ::
  "string \<Rightarrow> string \<Rightarrow> string \<Rightarrow> bool \<Rightarrow>
   nat \<Rightarrow> nat \<Rightarrow> bool \<Rightarrow> string list"
where
  "zrangebyscore_impl key min' max' limit offset count withscores =
     [''ZRANGEBYSCORE'', key, min', max']
     @ (if withscores then [''WITHSCORES''] else [])
     @ (if limit then [''LIMIT'', to_string_nat offset, to_string_nat count] else [])"

datatype (plugins only: code) zrangebyscore_command =
    C_zrangebyscore_int string int int
  | C_zrangebyscore_int_withscores string int int bool
  | C_zrangebyscore_double string double double
  | C_zrangebyscore_double_withscores string double double bool
  | C_zrangebyscore_string string string string
  | C_zrangebyscore_string_withscores string string string bool
  | C_zrangebyscore_int_offset_count string int int nat nat
  | C_zrangebyscore_int_offset_count_withscores string int int nat nat bool
  | C_zrangebyscore_double_offset_count string double double nat nat
  | C_zrangebyscore_double_offset_count_withscores string double double nat nat bool
  | C_zrangebyscore_string_offset_count string string string nat nat
  | C_zrangebyscore_string_offset_count_withscores string string string nat nat bool
  | C_zrank string string
  | C_zrem string "string list"
  | C_zremrangebylex_int string int int
  | C_zremrangebylex_double string double double
  | C_zremrangebylex_string string string string
  | C_zremrangebyrank_int string int int
  | C_zremrangebyrank_double string double double
  | C_zremrangebyrank_string string string string
  | C_zremrangebyscore_int string int int
  | C_zremrangebyscore_double string double double
  | C_zremrangebyscore_string string string string

primrec zrangebyscore_words :: "zrangebyscore_command \<Rightarrow> string list" where
  "zrangebyscore_words (C_zrangebyscore_int key min' max') =
     zrangebyscore_impl key (to_string_int min') (to_string_int max') False 0 0 False"
| "zrangebyscore_words (C_zrangebyscore_int_withscores key min' max' withscores) =
     zrangebyscore_impl key (to_string_int min') (to_string_int max') False 0 0 withscores"
| "zrangebyscore_words (C_zrangebyscore_double key min' max') =
     zrangebyscore_impl key (to_string_double min') (to_string_double max') False 0 0 False"
| "zrangebyscore_words (C_zrangebyscore_double_withscores key min' max' withscores) =
     zrangebyscore_impl key (to_string_double min') (to_string_double max') False 0 0 withscores"
| "zrangebyscore_words (C_zrangebyscore_string key min' max') =
     zrangebyscore_impl key min' max' False 0 0 False"
| "zrangebyscore_words (C_zrangebyscore_string_withscores key min' max' withscores) =
     zrangebyscore_impl key min' max' False 0 0 withscores"
| "zrangebyscore_words (C_zrangebyscore_int_offset_count key min' max' offset count) =
     zrangebyscore_impl key (to_string_int min') (to_string_int max') True offset count False"
| "zrangebyscore_words (C_zrangebyscore_int_offset_count_withscores key min' max' offset count
     withscores) =
     zrangebyscore_impl key (to_string_int min') (to_string_int max') True offset count
       withscores"
| "zrangebyscore_words (C_zrangebyscore_double_offset_count key min' max' offset count) =
     zrangebyscore_impl key (to_string_double min') (to_string_double max') True offset count
       False"
| "zrangebyscore_words (C_zrangebyscore_double_offset_count_withscores key min' max' offset count
     withscores) =
     zrangebyscore_impl key (to_string_double min') (to_string_double max') True offset count
       withscores"
| "zrangebyscore_words (C_zrangebyscore_string_offset_count key min' max' offset count) =
     zrangebyscore_impl key min' max' True offset count False"
| "zrangebyscore_words (C_zrangebyscore_string_offset_count_withscores key min' max' offset count
     withscores) =
     zrangebyscore_impl key min' max' True offset count withscores"
| "zrangebyscore_words (C_zrank key member') = [''ZRANK'', key, member']"
| "zrangebyscore_words (C_zrem key members) = [''ZREM'', key] @ members"
| "zrangebyscore_words (C_zremrangebylex_int key min' max') =
     [''ZREMRANGEBYLEX'', key, to_string_int min', to_string_int max']"
| "zrangebyscore_words (C_zremrangebylex_double key min' max') =
     [''ZREMRANGEBYLEX'', key, to_string_double min', to_string_double max']"
| "zrangebyscore_words (C_zremrangebylex_string key min' max') =
     [''ZREMRANGEBYLEX'', key, min', max']"
| "zrangebyscore_words (C_zremrangebyrank_int key start stop) =
     [''ZREMRANGEBYRANK'', key, to_string_int start, to_string_int stop]"
| "zrangebyscore_words (C_zremrangebyrank_double key start stop) =
     [''ZREMRANGEBYRANK'', key, to_string_double start, to_string_double stop]"
| "zrangebyscore_words (C_zremrangebyrank_string key start stop) =
     [''ZREMRANGEBYRANK'', key, start, stop]"
| "zrangebyscore_words (C_zremrangebyscore_int key min' max') =
     [''ZREMRANGEBYSCORE'', key, to_string_int min', to_string_int max']"
| "zrangebyscore_words (C_zremrangebyscore_double key min' max') =
     [''ZREMRANGEBYSCORE'', key, to_string_double min', to_string_double max']"
| "zrangebyscore_words (C_zremrangebyscore_string key min' max') =
     [''ZREMRANGEBYSCORE'', key, min', max']"

section \<open>\<open>zrevrange\<close> to \<open>zrevrangebylex\<close>\<close>

definition zrevrangebylex_impl ::
  "string \<Rightarrow> string \<Rightarrow> string \<Rightarrow> bool \<Rightarrow>
   nat \<Rightarrow> nat \<Rightarrow> bool \<Rightarrow> string list"
where
  "zrevrangebylex_impl key max' min' limit offset count withscores =
     [''ZREVRANGEBYLEX'', key, max', min']
     @ (if withscores then [''WITHSCORES''] else [])
     @ (if limit then [''LIMIT'', to_string_nat offset, to_string_nat count] else [])"

datatype (plugins only: code) zrevrange_command =
    C_zrevrange_int string int int
  | C_zrevrange_int_withscores string int int bool
  | C_zrevrange_double string double double
  | C_zrevrange_double_withscores string double double bool
  | C_zrevrange_string string string string
  | C_zrevrange_string_withscores string string string bool
  | C_zrevrangebylex_int string int int
  | C_zrevrangebylex_int_withscores string int int bool
  | C_zrevrangebylex_double string double double
  | C_zrevrangebylex_double_withscores string double double bool
  | C_zrevrangebylex_string string string string
  | C_zrevrangebylex_string_withscores string string string bool
  | C_zrevrangebylex_int_offset_count string int int nat nat
  | C_zrevrangebylex_int_offset_count_withscores string int int nat nat bool
  | C_zrevrangebylex_double_offset_count string double double nat nat
  | C_zrevrangebylex_double_offset_count_withscores string double double nat nat bool
  | C_zrevrangebylex_string_offset_count string string string nat nat
  | C_zrevrangebylex_string_offset_count_withscores string string string nat nat bool

primrec zrevrange_words :: "zrevrange_command \<Rightarrow> string list" where
  "zrevrange_words (C_zrevrange_int key start stop) =
     [''ZREVRANGE'', key, to_string_int start, to_string_int stop]"
| "zrevrange_words (C_zrevrange_int_withscores key start stop withscores) =
     (if withscores
        then [''ZREVRANGE'', key, to_string_int start, to_string_int stop, ''WITHSCORES'']
        else [''ZREVRANGE'', key, to_string_int start, to_string_int stop])"
| "zrevrange_words (C_zrevrange_double key start stop) =
     [''ZREVRANGE'', key, to_string_double start, to_string_double stop]"
| "zrevrange_words (C_zrevrange_double_withscores key start stop withscores) =
     (if withscores
        then [''ZREVRANGE'', key, to_string_double start, to_string_double stop, ''WITHSCORES'']
        else [''ZREVRANGE'', key, to_string_double start, to_string_double stop])"
| "zrevrange_words (C_zrevrange_string key start stop) = [''ZREVRANGE'', key, start, stop]"
| "zrevrange_words (C_zrevrange_string_withscores key start stop withscores) =
     (if withscores
        then [''ZREVRANGE'', key, start, stop, ''WITHSCORES'']
        else [''ZREVRANGE'', key, start, stop])"
| "zrevrange_words (C_zrevrangebylex_int key max' min') =
     zrevrangebylex_impl key (to_string_int max') (to_string_int min') False 0 0 False"
| "zrevrange_words (C_zrevrangebylex_int_withscores key max' min' withscores) =
     zrevrangebylex_impl key (to_string_int max') (to_string_int min') False 0 0 withscores"
| "zrevrange_words (C_zrevrangebylex_double key max' min') =
     zrevrangebylex_impl key (to_string_double max') (to_string_double min') False 0 0 False"
| "zrevrange_words (C_zrevrangebylex_double_withscores key max' min' withscores) =
     zrevrangebylex_impl key (to_string_double max') (to_string_double min') False 0 0 withscores"
| "zrevrange_words (C_zrevrangebylex_string key max' min') =
     zrevrangebylex_impl key max' min' False 0 0 False"
| "zrevrange_words (C_zrevrangebylex_string_withscores key max' min' withscores) =
     zrevrangebylex_impl key max' min' False 0 0 withscores"
| "zrevrange_words (C_zrevrangebylex_int_offset_count key max' min' offset count) =
     zrevrangebylex_impl key (to_string_int max') (to_string_int min') True offset count False"
| "zrevrange_words (C_zrevrangebylex_int_offset_count_withscores key max' min' offset count
     withscores) =
     zrevrangebylex_impl key (to_string_int max') (to_string_int min') True offset count
       withscores"
| "zrevrange_words (C_zrevrangebylex_double_offset_count key max' min' offset count) =
     zrevrangebylex_impl key (to_string_double max') (to_string_double min') True offset count
       False"
| "zrevrange_words (C_zrevrangebylex_double_offset_count_withscores key max' min' offset count
     withscores) =
     zrevrangebylex_impl key (to_string_double max') (to_string_double min') True offset count
       withscores"
| "zrevrange_words (C_zrevrangebylex_string_offset_count key max' min' offset count) =
     zrevrangebylex_impl key max' min' True offset count False"
| "zrevrange_words (C_zrevrangebylex_string_offset_count_withscores key max' min' offset count
     withscores) =
     zrevrangebylex_impl key max' min' True offset count withscores"

section \<open>\<open>zrevrangebyscore\<close> to \<open>zunionstore\<close>\<close>

definition zrevrangebyscore_impl ::
  "string \<Rightarrow> string \<Rightarrow> string \<Rightarrow> bool \<Rightarrow>
   nat \<Rightarrow> nat \<Rightarrow> bool \<Rightarrow> string list"
where
  "zrevrangebyscore_impl key max' min' limit offset count withscores =
     [''ZREVRANGEBYSCORE'', key, max', min']
     @ (if withscores then [''WITHSCORES''] else [])
     @ (if limit then [''LIMIT'', to_string_nat offset, to_string_nat count] else [])"

definition zscan_impl ::
  "string \<Rightarrow> nat \<Rightarrow> string \<Rightarrow> nat \<Rightarrow> string list"
where
  "zscan_impl key cursor pattern count =
     [''ZSCAN'', key, to_string_nat cursor]
     @ (if pattern \<noteq> [] then [''MATCH'', pattern] else [])
     @ (if 0 < count then [''COUNT'', to_string_nat count] else [])"

datatype (plugins only: code) zscan_command =
    C_zrevrangebyscore_int string int int
  | C_zrevrangebyscore_int_withscores string int int bool
  | C_zrevrangebyscore_double string double double
  | C_zrevrangebyscore_double_withscores string double double bool
  | C_zrevrangebyscore_string string string string
  | C_zrevrangebyscore_string_withscores string string string bool
  | C_zrevrangebyscore_int_offset_count string int int nat nat
  | C_zrevrangebyscore_int_offset_count_withscores string int int nat nat bool
  | C_zrevrangebyscore_double_offset_count string double double nat nat
  | C_zrevrangebyscore_double_offset_count_withscores string double double nat nat bool
  | C_zrevrangebyscore_string_offset_count string string string nat nat
  | C_zrevrangebyscore_string_offset_count_withscores string string string nat nat bool
  | C_zrevrank string string
  | C_zscan string nat
  | C_zscan_pattern string nat string
  | C_zscan_count string nat nat
  | C_zscan_pattern_count string nat string nat
  | C_zscore string string
  | C_zunionstore string nat "string list" "nat list" aggregate_method

primrec zscan_words :: "zscan_command \<Rightarrow> string list" where
  "zscan_words (C_zrevrangebyscore_int key max' min') =
     zrevrangebyscore_impl key (to_string_int max') (to_string_int min') False 0 0 False"
| "zscan_words (C_zrevrangebyscore_int_withscores key max' min' withscores) =
     zrevrangebyscore_impl key (to_string_int max') (to_string_int min') False 0 0 withscores"
| "zscan_words (C_zrevrangebyscore_double key max' min') =
     zrevrangebyscore_impl key (to_string_double max') (to_string_double min') False 0 0 False"
| "zscan_words (C_zrevrangebyscore_double_withscores key max' min' withscores) =
     zrevrangebyscore_impl key (to_string_double max') (to_string_double min') False 0 0
       withscores"
| "zscan_words (C_zrevrangebyscore_string key max' min') =
     zrevrangebyscore_impl key max' min' False 0 0 False"
| "zscan_words (C_zrevrangebyscore_string_withscores key max' min' withscores) =
     zrevrangebyscore_impl key max' min' False 0 0 withscores"
| "zscan_words (C_zrevrangebyscore_int_offset_count key max' min' offset count) =
     zrevrangebyscore_impl key (to_string_int max') (to_string_int min') True offset count False"
| "zscan_words (C_zrevrangebyscore_int_offset_count_withscores key max' min' offset count
     withscores) =
     zrevrangebyscore_impl key (to_string_int max') (to_string_int min') True offset count
       withscores"
| "zscan_words (C_zrevrangebyscore_double_offset_count key max' min' offset count) =
     zrevrangebyscore_impl key (to_string_double max') (to_string_double min') True offset count
       False"
| "zscan_words (C_zrevrangebyscore_double_offset_count_withscores key max' min' offset count
     withscores) =
     zrevrangebyscore_impl key (to_string_double max') (to_string_double min') True offset count
       withscores"
| "zscan_words (C_zrevrangebyscore_string_offset_count key max' min' offset count) =
     zrevrangebyscore_impl key max' min' True offset count False"
| "zscan_words (C_zrevrangebyscore_string_offset_count_withscores key max' min' offset count
     withscores) =
     zrevrangebyscore_impl key max' min' True offset count withscores"
| "zscan_words (C_zrevrank key member') = [''ZREVRANK'', key, member']"
| "zscan_words (C_zscan key cursor) = zscan_impl key cursor [] 0"
| "zscan_words (C_zscan_pattern key cursor pattern) = zscan_impl key cursor pattern 0"
| "zscan_words (C_zscan_count key cursor count) = zscan_impl key cursor [] count"
| "zscan_words (C_zscan_pattern_count key cursor pattern count) =
     zscan_impl key cursor pattern count"
| "zscan_words (C_zscore key member') = [''ZSCORE'', key, member']"
| "zscan_words (C_zunionstore destination numkeys keys weights method') =
     [''ZUNIONSTORE'', destination, to_string_nat numkeys]
     @ keys
     @ (if weights \<noteq> [] then [''WEIGHTS''] @ map to_string_nat weights else [])
     @ (if method' \<noteq> Aggregate_server_default then [''AGGREGATE'',
       aggregate_method_to_string method'] else [])"

end
