(* ===== verification/Commands.thy ===== *)
theory Commands
  imports Commands_A_G Commands_G_R Commands_S Commands_Z
begin

text \<open>
  All the commands together: \<open>command\<close> is a call of one of the callback-based methods of
  \<open>client\<close>, \<open>command_words\<close> the vector of words it sends. Then facts about the words:
  which part of them the arguments can reach, and how the optional parts are read back.
\<close>

section \<open>Commands\<close>

datatype command =
    String_Client string_client_command
  | Cluster cluster_command
  | Config_Eval config_eval_command
  | Expire_Geo expire_geo_command
  | Get_Hash get_hash_command
  | Hash_List hash_list_command
  | Migrate_Publish migrate_publish_command
  | Rename_Scan rename_scan_command
  | Script_Set script_set_command
  | Slow_Sort slow_sort_command
  | Set_Watch set_watch_command
  | Zadd zadd_command
  | Zrange zrange_command
  | Zrangebyscore zrangebyscore_command
  | Zrevrange zrevrange_command
  | Zscan zscan_command

primrec command_words :: "command \<Rightarrow> string list" where
  "command_words (String_Client c) = string_client_words c"
| "command_words (Cluster c) = cluster_words c"
| "command_words (Config_Eval c) = config_eval_words c"
| "command_words (Expire_Geo c) = expire_geo_words c"
| "command_words (Get_Hash c) = get_hash_words c"
| "command_words (Hash_List c) = hash_list_words c"
| "command_words (Migrate_Publish c) = migrate_publish_words c"
| "command_words (Rename_Scan c) = rename_scan_words c"
| "command_words (Script_Set c) = script_set_words c"
| "command_words (Slow_Sort c) = slow_sort_words c"
| "command_words (Set_Watch c) = set_watch_words c"
| "command_words (Zadd c) = zadd_words c"
| "command_words (Zrange c) = zrange_words c"
| "command_words (Zrangebyscore c) = zrangebyscore_words c"
| "command_words (Zrevrange c) = zrevrange_words c"
| "command_words (Zscan c) = zscan_words c"

named_theorems command_facts "facts about the words of each family of commands"

lemmas impl_defs =
  georadius_impl_def georadiusbymember_impl_def hscan_impl_def scan_impl_def sscan_impl_def
  zscan_impl_def sort_impl_def zrangebylex_impl_def zrangebyscore_impl_def
  zrevrangebylex_impl_def zrevrangebyscore_impl_def

section \<open>The command's name\<close>

definition isupper :: "char \<Rightarrow> bool" where
  "isupper c \<longleftrightarrow> 65 \<le> (of_char c :: nat) \<and> (of_char c :: nat) \<le> 90"

definition names_command :: "string list \<Rightarrow> bool" where
  "names_command ws \<longleftrightarrow>
     (case ws of [] \<Rightarrow> False | w # _ \<Rightarrow> w \<noteq> [] \<and> (\<forall>c \<in> set w. isupper c))"

lemma names_command_Cons [simp]:
  "names_command (w # ws) \<longleftrightarrow> w \<noteq> [] \<and> (\<forall>c \<in> set w. isupper c)" "\<not> names_command []"
  by (simp_all add: names_command_def)

lemma string_client_names [command_facts]: "names_command (string_client_words c)"
  by (cases c; simp add: isupper_def impl_defs)

lemma cluster_names [command_facts]: "names_command (cluster_words c)"
  by (cases c; simp add: isupper_def impl_defs)

lemma config_eval_names [command_facts]: "names_command (config_eval_words c)"
  by (cases c; simp add: isupper_def impl_defs)

lemma expire_geo_names [command_facts]: "names_command (expire_geo_words c)"
  by (cases c; simp add: isupper_def impl_defs)

lemma get_hash_names [command_facts]: "names_command (get_hash_words c)"
  by (cases c; simp add: isupper_def impl_defs)

lemma hash_list_names [command_facts]: "names_command (hash_list_words c)"
  by (cases c; simp add: isupper_def impl_defs)

lemma migrate_publish_names [command_facts]: "names_command (migrate_publish_words c)"
  by (cases c; simp add: isupper_def impl_defs)

lemma rename_scan_names [command_facts]: "names_command (rename_scan_words c)"
  by (cases c; simp add: isupper_def impl_defs)

lemma script_set_names [command_facts]: "names_command (script_set_words c)"
  by (cases c; simp add: isupper_def impl_defs)

lemma slow_sort_names [command_facts]: "names_command (slow_sort_words c)"
  by (cases c; simp add: isupper_def impl_defs)

lemma set_watch_names [command_facts]: "names_command (set_watch_words c)"
  by (cases c; simp add: isupper_def impl_defs)

lemma zadd_names [command_facts]: "names_command (zadd_words c)"
  by (cases c; simp add: isupper_def impl_defs)

lemma zrange_names [command_facts]: "names_command (zrange_words c)"
  by (cases c; simp add: isupper_def impl_defs)

lemma zrangebyscore_names [command_facts]: "names_command (zrangebyscore_words c)"
  by (cases c; simp add: isupper_def impl_defs)

lemma zrevrange_names [command_facts]: "names_command (zrevrange_words c)"
  by (cases c; simp add: isupper_def impl_defs)

lemma zscan_names [command_facts]: "names_command (zscan_words c)"
  by (cases c; simp add: isupper_def impl_defs)

lemma command_words_names: "names_command (command_words c)"
  by (cases c) (simp_all add: command_facts)

section \<open>Optional parts, read back\<close>

text \<open>What a server reads of the options of the \<open>SCAN\<close> family: a pattern and a count.\<close>

fun read_scan :: "string list \<Rightarrow> (string option \<times> string option) option" where
  "read_scan [] = Some (None, None)"
| "read_scan [w] = None"
| "read_scan (w # v # ws) =
     (case read_scan ws of
        None \<Rightarrow> None
      | Some (pattern, count) \<Rightarrow>
          if w = ''MATCH'' then Some (Some v, count)
          else if w = ''COUNT'' then Some (pattern, Some v)
          else None)"

text \<open>The options of \<open>SORT\<close>.\<close>

record sort_options =
  so_by :: "string option"
  so_limit :: "(string \<times> string) option"
  so_get :: "string list"
  so_desc :: bool
  so_alpha :: bool
  so_store :: "string option"

fun read_sort :: "string list \<Rightarrow> sort_options \<Rightarrow> sort_options option" where
  "read_sort [] s = Some s"
| "read_sort (w # ws) s =
     (if w = ''ASC'' then read_sort ws (s\<lparr>so_desc := False\<rparr>)
      else if w = ''DESC'' then read_sort ws (s\<lparr>so_desc := True\<rparr>)
      else if w = ''ALPHA'' then read_sort ws (s\<lparr>so_alpha := True\<rparr>)
      else case ws of
        [] \<Rightarrow> None
      | v # ws' \<Rightarrow>
          if w = ''BY'' then read_sort ws' (s\<lparr>so_by := Some v\<rparr>)
          else if w = ''GET'' then read_sort ws' (s\<lparr>so_get := so_get s @ [v]\<rparr>)
          else if w = ''STORE'' then read_sort ws' (s\<lparr>so_store := Some v\<rparr>)
          else if w = ''LIMIT'' then
            (case ws' of [] \<Rightarrow> None | v' # ws'' \<Rightarrow> read_sort ws'' (s\<lparr>so_limit := Some (v, v')\<rparr>))
          else None)"

definition no_sort_options :: sort_options where
  "no_sort_options =
     \<lparr>so_by = None, so_limit = None, so_get = [], so_desc = False, so_alpha = False, so_store = None\<rparr>"

lemma read_sort_gets:
  "read_sort (concat (map (\<lambda>p. if p = [] then [] else [''GET'', p]) ps) @ ws) s =
    read_sort ws (s\<lparr>so_get := so_get s @ filter (\<lambda>p. p \<noteq> []) ps\<rparr>)"
  by (induction ps arbitrary: s) simp_all

text \<open>What an overload of \<open>sort\<close> asks for, and what a server reads in its words.\<close>

definition sort_meaning ::
  "string \<Rightarrow> (nat \<times> nat) option \<Rightarrow> string list \<Rightarrow> bool \<Rightarrow> bool \<Rightarrow> string \<Rightarrow> sort_options"
where
  "sort_meaning by_pattern limit ps asc alpha dest =
     \<lparr>so_by = (if by_pattern = [] then None else Some by_pattern),
      so_limit = map_option (\<lambda>(offset, count). (to_string_nat offset, to_string_nat count)) limit,
      so_get = filter (\<lambda>p. p \<noteq> []) ps, so_desc = (\<not> asc), so_alpha = alpha,
      so_store = (if dest = [] then None else Some dest)\<rparr>"

definition read_sort_command :: "string list \<Rightarrow> (string \<times> sort_options) option" where
  "read_sort_command ws =
     (case ws of
        w # key # rest \<Rightarrow>
          if w = ''SORT'' then map_option (Pair key) (read_sort rest no_sort_options) else None
      | _ \<Rightarrow> None)"

definition sort_read :: "slow_sort_command \<Rightarrow> (string \<times> sort_options) option" where
  "sort_read c = read_sort_command (slow_sort_words c)"

lemma read_sort_impl:
  "read_sort_command (sort_impl key by_pattern limit offset count ps asc alpha dest) =
    Some (key, sort_meaning by_pattern (if limit then Some (offset, count) else None) ps asc alpha dest)"
  by (simp add: read_sort_command_def sort_meaning_def sort_impl_def read_sort_gets no_sort_options_def)

text \<open>How a server executes the words of a \<open>BITFIELD\<close> command: an \<open>OVERFLOW\<close> sets the
  mode of the operations after it. The result lists the mode each operation ran under.\<close>

fun bitfield_modes :: "string \<Rightarrow> string list \<Rightarrow> string list option" where
  "bitfield_modes mode [] = Some []"
| "bitfield_modes mode (w # ws) =
     (if w = ''OVERFLOW'' then
        (case ws of [] \<Rightarrow> None | m # ws' \<Rightarrow> bitfield_modes m ws')
      else if w = ''GET'' then
        (case ws of t # off # ws' \<Rightarrow> map_option ((#) mode) (bitfield_modes mode ws') | _ \<Rightarrow> None)
      else if w = ''SET'' \<or> w = ''INCRBY'' then
        (case ws of
           t # off # v # ws' \<Rightarrow> map_option ((#) mode) (bitfield_modes mode ws')
         | _ \<Rightarrow> None)
      else None)"

fun late_modes :: "string \<Rightarrow> bitfield_operation list \<Rightarrow> string list" where
  "late_modes mode [] = []"
| "late_modes mode (op # ops) =
     mode # late_modes (if bo_overflow op = Overflow_server_default then mode
                        else overflow_type_to_string (bo_overflow op)) ops"

lemma bitfield_modes_late:
  "bitfield_modes mode (concat (map bitfield_operation_words ops)) = Some (late_modes mode ops)"
proof (induction ops arbitrary: mode)
  case (Cons op ops)
  then show ?case
    by (cases "bo_operation_type op") (simp_all add: bitfield_operation_words_def)
qed simp

section \<open>Properties\<close>

text \<open>Every command starts with an upper-case literal that its arguments cannot reach:
  no call sends an empty command or lets data choose the command.\<close>

lemma command_name_fixed: "names_command (command_words c)"
  by (rule command_words_names)

text \<open>Whatever the patterns and counts are, the four \<open>SCAN\<close> commands are read back as
  they were meant, an empty pattern and a zero count being left out.\<close>

lemma scan_options_round_trip:
  "read_scan (drop 3 (hscan_impl key cursor pattern count)) =
     Some (if pattern = [] then None else Some pattern,
           if count = 0 then None else Some (to_string_nat count)) \<and>
   drop 3 (sscan_impl key cursor pattern count) = drop 3 (hscan_impl key cursor pattern count) \<and>
   drop 3 (zscan_impl key cursor pattern count) = drop 3 (hscan_impl key cursor pattern count) \<and>
   drop 2 (scan_impl cursor pattern count) = drop 3 (hscan_impl key cursor pattern count)"
  by (simp add: impl_defs)

text \<open>C38: the options of every overload of \<open>SORT\<close> are read back exactly: what the overload does
  not take is not sent (no \<open>LIMIT\<close> unless an offset and a count are given), patterns, limits
  and destinations cannot be taken for one another, even if they look like keywords; empty
  \<open>GET\<close> patterns, an empty \<open>BY\<close> pattern and an empty destination are left out.\<close>

theorem sort_options_round_trip:
  "sort_read (C_sort key) = Some (key, no_sort_options) \<and>
   sort_read (C_sort_get key ps asc alpha) = Some (key, sort_meaning [] None ps asc alpha []) \<and>
   sort_read (C_sort_limit key offset count ps asc alpha) =
     Some (key, sort_meaning [] (Some (offset, count)) ps asc alpha []) \<and>
   sort_read (C_sort_by key by_pattern ps asc alpha) =
     Some (key, sort_meaning by_pattern None ps asc alpha []) \<and>
   sort_read (C_sort_get_store key ps asc alpha dest) =
     Some (key, sort_meaning [] None ps asc alpha dest) \<and>
   sort_read (C_sort_limit_store key offset count ps asc alpha dest) =
     Some (key, sort_meaning [] (Some (offset, count)) ps asc alpha dest) \<and>
   sort_read (C_sort_by_store key by_pattern ps asc alpha dest) =
     Some (key, sort_meaning by_pattern None ps asc alpha dest) \<and>
   sort_read (C_sort_by_limit key by_pattern offset count ps asc alpha) =
     Some (key, sort_meaning by_pattern (Some (offset, count)) ps asc alpha []) \<and>
   sort_read (C_sort_by_limit_store key by_pattern offset count ps asc alpha dest) =
     Some (key, sort_meaning by_pattern (Some (offset, count)) ps asc alpha dest)"
  by (simp add: sort_read_def read_sort_impl) (simp add: read_sort_command_def)

text \<open>\<open>georadius\<close> with a key to store the result in never sends that key: with any two
  non-empty keys it sends the same words, and with no \<open>storedist_key\<close> they end in
  \<open>STOREDIST\<close> and an empty key.\<close>

lemma georadius_store_key_lost:
  assumes "k1 \<noteq> []" "k2 \<noteq> []"
  shows "georadius_impl key lon lat r u wc wd wh asc n k1 sd =
      georadius_impl key lon lat r u wc wd wh asc n k2 sd \<and>
    expire_geo_words (C_georadius_store key lon lat r u wc wd wh asc k1) =
      expire_geo_words (C_georadius key lon lat r u wc wd wh asc) @ [''STOREDIST'', []]"
  using assms by (simp add: impl_defs)

text \<open>A \<open>bitfield\<close> operation is sent before its own overflow mode, so that a server runs
  it in the mode of the operations before it: the first one always wraps.\<close>

lemma bitfield_overflow_late:
  "bitfield_modes ''WRAP'' (drop 2 (string_client_words (C_bitfield key (op # ops)))) =
    Some (''WRAP'' # late_modes (if bo_overflow op = Overflow_server_default then ''WRAP''
      else overflow_type_to_string (bo_overflow op)) ops)"
  using bitfield_modes_late [of "''WRAP''" "op # ops"] by simp

text \<open>\<open>command_info\<close> asks for the number of commands instead of their descriptions.\<close>

lemma command_info_counts:
  "config_eval_words (C_command_info names) = config_eval_words C_command_count @ names"
  by simp

text \<open>The six decimals printed for a finite \<open>double\<close> below \<open>1\<close> in the exponent are the
  nearest ones: twice the exact value in millionths is at most one unit away.\<close>

lemma double_printed_nearest:
  assumes "e < 0"
  shows "2 * (m * 10 ^ 6) \<le> 2 ^ nat (- e) * (2 * millionths m e + 1) \<and>
    2 ^ nat (- e) * (2 * millionths m e) \<le> 2 * (m * 10 ^ 6) + 2 ^ nat (- e)"
  using assms round_div_nearest [of "2 ^ nat (- e)" "m * 10 ^ 6"] by (simp add: millionths_def)

lemma double_printed_nearest_witness:
  "to_string_double (Finite True 5 (-2)) = ''-1.250000'' \<and>
   2 * (5 * 10 ^ 6) \<le> 2 ^ nat (- (-2)) * (2 * millionths 5 (-2) + 1)"
proof
  show "to_string_double (Finite True 5 (-2)) = ''-1.250000''"
    by (simp add: millionths_def round_div_def six_digits_def to_string_nat.simps digit_char_def)
      (simp add: char_of_def bit_0)
  show "2 * (5 * 10 ^ 6) \<le> (2::nat) ^ nat (- (-2)) * (2 * millionths 5 (-2) + 1)"
    using double_printed_nearest [of "-2" 5] by simp
qed

end
