(* ===== verification/Array_Builder.thy ===== *)
theory Array_Builder
  imports Resp
begin

text \<open>
  The array builder, the factory that picks a builder from the type byte, and
  \<open>operator<<\<close> of every builder as one function (sources/builders/array_builder.cpp,
  builders_factory.cpp). \<open>std::unique_ptr<builder_iface>\<close> is the datatype of the five
  builders, null being \<open>None\<close>; an array builder owns the builder of its current row,
  so the two types are mutually recursive.
\<close>

section \<open>Data\<close>

datatype builder =
    Simple_String_Builder simple_string_builder
  | Error_Builder error_builder
  | Integer_Builder integer_builder
  | Bulk_String_Builder bulk_string_builder
  | Array_Builder array_builder
and array_builder =
    Array_State (ab_int_builder: integer_builder) (ab_array_size: "nat option")
      (ab_current_builder: "builder option") (ab_ready: bool) (ab_reply: reply)

text \<open>\<open>m_array_size\<close> has no initialiser: \<open>None\<close> until the size is fetched.\<close>

definition array_init :: array_builder where
  "array_init = Array_State integer_init None None False (reply_array [])"

definition create_builder :: "char \<Rightarrow> builder result" where
  "create_builder c =
     (if c = CHR ''+'' then Inr (Simple_String_Builder simple_string_init)
      else if c = CHR ''-'' then Inr (Error_Builder error_init)
      else if c = CHR '':'' then Inr (Integer_Builder integer_init)
      else if c = CHR ''$'' then Inr (Bulk_String_Builder bulk_string_init)
      else if c = CHR ''*'' then Inr (Array_Builder array_init)
      else Inl (Redis_Error ''Invalid data''))"

fun builder_ready :: "builder \<Rightarrow> bool" where
  "builder_ready (Simple_String_Builder b) = ss_ready b"
| "builder_ready (Error_Builder b) = error_ready b"
| "builder_ready (Integer_Builder b) = ib_ready b"
| "builder_ready (Bulk_String_Builder b) = bs_ready b"
| "builder_ready (Array_Builder b) = ab_ready b"

fun builder_reply :: "builder \<Rightarrow> reply" where
  "builder_reply (Simple_String_Builder b) = ss_reply b"
| "builder_reply (Error_Builder b) = er_reply b"
| "builder_reply (Integer_Builder b) = ib_reply b"
| "builder_reply (Bulk_String_Builder b) = bs_reply b"
| "builder_reply (Array_Builder b) = ab_reply b"

section \<open>Steps of the array builder\<close>

fun fetch_array_size :: "array_builder \<Rightarrow> string \<Rightarrow> array_builder \<times> string \<times> bool result" where
  "fetch_array_size (Array_State ib sz cur rdy rep) buffer =
     (if ib_ready ib then (Array_State ib sz cur rdy rep, buffer, Inr True)
      else case integer_feed ib buffer of
        (ib', buffer', Inl e) \<Rightarrow> (Array_State ib' sz cur rdy rep, buffer', Inl e)
      | (ib', buffer', Inr u) \<Rightarrow>
          (if \<not> ib_ready ib' then (Array_State ib' sz cur rdy rep, buffer', Inr False)
           else let n = get_integer ib'
                in (Array_State ib' (Some (size_t_cast n)) cur (rdy \<or> n \<le> 0)
                      (if n < 0 then reply_set rep else rep),
                    buffer', Inr True)))"

text \<open>The builder to use next: the current one, or a new one for the byte at the front.
  \<open>front()\<close> of an empty string is undefined; both callers test for it first.\<close>

fun take_builder :: "builder option \<Rightarrow> string \<Rightarrow> (builder \<times> string) result" where
  "take_builder (Some b) buffer = Inr (b, buffer)"
| "take_builder None [] = Inl (Undefined_Behaviour Index_Out_Of_Range)"
| "take_builder None (c # cs) =
     (case create_builder c of Inl e \<Rightarrow> Inl e | Inr b \<Rightarrow> Inr (b, cs))"

fun set_current_builder :: "array_builder \<Rightarrow> builder option \<Rightarrow> array_builder" where
  "set_current_builder (Array_State ib sz cur rdy rep) cur' = Array_State ib sz cur' rdy rep"

text \<open>\<open>m_reply << ...; m_current_builder = nullptr; if (rows == m_array_size) ready\<close>.\<close>

fun push_row :: "array_builder \<Rightarrow> reply \<Rightarrow> array_builder \<times> bool result" where
  "push_row (Array_State ib sz cur rdy rep) row =
     (let rep' = reply_push rep row
      in case sz of
           None \<Rightarrow> (Array_State ib sz None rdy rep', Inl (Undefined_Behaviour Indeterminate_Value))
         | Some n \<Rightarrow> (Array_State ib sz None (rdy \<or> length (m_rows rep') = n) rep', Inr True))"

section \<open>\<open>operator<<\<close>\<close>

function (sequential)
  builder_feed :: "builder \<Rightarrow> string \<Rightarrow> builder \<times> string \<times> unit result" and
  array_rows :: "array_builder \<Rightarrow> string \<Rightarrow> array_builder \<times> string \<times> unit result" and
  build_row :: "array_builder \<Rightarrow> string \<Rightarrow> array_builder \<times> string \<times> bool result"
where
  "builder_feed (Simple_String_Builder b) buffer =
     (case simple_string_feed b buffer of
        (b', buffer', r) \<Rightarrow> (Simple_String_Builder b', buffer', r))"
| "builder_feed (Error_Builder b) buffer =
     (case error_feed b buffer of (b', buffer', r) \<Rightarrow> (Error_Builder b', buffer', r))"
| "builder_feed (Integer_Builder b) buffer =
     (case integer_feed b buffer of (b', buffer', r) \<Rightarrow> (Integer_Builder b', buffer', r))"
| "builder_feed (Bulk_String_Builder b) buffer =
     (case bulk_feed b buffer of (b', buffer', r) \<Rightarrow> (Bulk_String_Builder b', buffer', r))"
| "builder_feed (Array_Builder b) buffer =
     (if ab_ready b then (Array_Builder b, buffer, Inr ())
      else case fetch_array_size b buffer of
        (b', buffer', Inl e) \<Rightarrow> (Array_Builder b', buffer', Inl e)
      | (b', buffer', Inr found) \<Rightarrow>
          (if \<not> found then (Array_Builder b', buffer', Inr ())
           else case array_rows b' buffer' of
             (b'', buffer'', r) \<Rightarrow> (Array_Builder b'', buffer'', r)))"
| "array_rows b buffer =
     (if buffer = [] \<or> ab_ready b then (b, buffer, Inr ())
      else case build_row b buffer of
        (b', buffer', Inl e) \<Rightarrow> (b', buffer', Inl e)
      | (b', buffer', Inr built) \<Rightarrow>
          (if \<not> built then (b', buffer', Inr ()) else array_rows b' buffer'))"
| "build_row b buffer =
     (case take_builder (ab_current_builder b) buffer of
        Inl e \<Rightarrow> (b, buffer, Inl e)
      | Inr (cur, buffer') \<Rightarrow>
          (case builder_feed cur buffer' of
             (cur', buffer'', Inl e) \<Rightarrow> (set_current_builder b (Some cur'), buffer'', Inl e)
           | (cur', buffer'', Inr u) \<Rightarrow>
               (if \<not> builder_ready cur'
                then (set_current_builder b (Some cur'), buffer'', Inr False)
                else case push_row b (builder_reply cur') of
                  (b', r) \<Rightarrow> (b', buffer'', r))))"
  by pat_completeness auto

text \<open>Termination: every row takes its type byte off the buffer, except the row that was
  begun by an earlier call, which is nested one level less. The loop of an array calls
  itself on what the row left, so the bound on that is proved on the domain first.\<close>

primrec depth :: "builder \<Rightarrow> nat" and array_depth :: "array_builder \<Rightarrow> nat" where
  "depth (Simple_String_Builder b) = 0"
| "depth (Error_Builder b) = 0"
| "depth (Integer_Builder b) = 0"
| "depth (Bulk_String_Builder b) = 0"
| "depth (Array_Builder b) = Suc (array_depth b)"
| "array_depth (Array_State ib sz cur rdy rep) =
     (case map_option depth cur of None \<Rightarrow> 0 | Some d \<Rightarrow> Suc d)"

lemma array_depth_current:
  "ab_current_builder b = Some c \<Longrightarrow> array_depth b = Suc (depth c)"
  "ab_current_builder b = None \<Longrightarrow> array_depth b = 0"
  by (cases b; simp)+

lemma fetch_array_size_frame:
  "fetch_array_size b buf = (b', buf', r) \<Longrightarrow>
   suffix buf' buf \<and> ab_current_builder b' = ab_current_builder b \<and> array_depth b' = array_depth b"
  by (cases b) (auto simp: Let_def split: if_splits prod.splits sum.splits dest: integer.feed_suffix)

lemma take_builder_buffer:
  "take_builder cur buf = Inr (b, buf') \<Longrightarrow>
   (case cur of Some c \<Rightarrow> b = c \<and> buf' = buf | None \<Rightarrow> \<exists>c. buf = c # buf' \<and> create_builder c = Inr b)"
  by (cases "(cur, buf)" rule: take_builder.cases) (auto split: sum.splits)

lemma push_row_current: "push_row b row = (b', r) \<Longrightarrow> ab_current_builder b' = None"
  by (cases b) (auto simp: Let_def split: option.splits)

lemma suffix_tl_trans: "suffix xs ys \<Longrightarrow> suffix xs (y # ys)"
  by (simp add: suffix_ConsI)

lemma feed_suffix_dom:
  shows "builder_feed_array_rows_build_row_dom (Inl (b, buf)) \<Longrightarrow>
      suffix (fst (snd (builder_feed b buf))) buf"
    and "builder_feed_array_rows_build_row_dom (Inr (Inl (ab, buf))) \<Longrightarrow>
      suffix (fst (snd (array_rows ab buf))) buf"
    and "builder_feed_array_rows_build_row_dom (Inr (Inr (ab, buf))) \<Longrightarrow>
      suffix (fst (snd (build_row ab buf))) buf \<and>
      (snd (snd (build_row ab buf)) = Inr True \<longrightarrow>
         ab_current_builder (fst (build_row ab buf)) = None \<and>
         (ab_current_builder ab = None \<longrightarrow>
            length (fst (snd (build_row ab buf))) < length buf))"
proof (induction b buf and ab buf and ab buf rule: builder_feed_array_rows_build_row.pinduct)
  case (1 b buffer)
  then show ?case
    by (auto simp: builder_feed.psimps dest: simple_string.feed_suffix split: prod.splits)
next
  case (2 b buffer)
  then show ?case by (auto simp: builder_feed.psimps dest: error.feed_suffix split: prod.splits)
next
  case (3 b buffer)
  then show ?case by (auto simp: builder_feed.psimps dest: integer.feed_suffix split: prod.splits)
next
  case (4 b buffer)
  then show ?case by (auto simp: builder_feed.psimps dest: bulk_string.feed_suffix split: prod.splits)
next
  case (5 b buffer)
  show ?case
  proof (cases "ab_ready b")
    case True
    then show ?thesis using 5(1) by (simp add: builder_feed.psimps)
  next
    case False
    obtain b1 buf1 r1 where f: "fetch_array_size b buffer = (b1, buf1, r1)"
      by (cases "fetch_array_size b buffer") auto
    then have s: "suffix buf1 buffer" using fetch_array_size_frame by blast
    show ?thesis
    proof (cases "r1 = Inr True")
      case True
      then have "suffix (fst (snd (array_rows b1 buf1))) buf1"
        using 5(2) [OF False f [symmetric] refl, of True] by simp
      with s True show ?thesis
        using 5(1) False f
        by (auto simp: builder_feed.psimps split: prod.splits intro: suffix_order.trans)
    next
      case n: False
      then show ?thesis
        using 5(1) False f s
        by (auto simp: builder_feed.psimps split: sum.splits prod.splits)
    qed
  qed
next
  case (6 b buffer)
  show ?case
  proof (cases "buffer = [] \<or> ab_ready b")
    case True
    then show ?thesis using 6(1) by (simp add: array_rows.psimps)
  next
    case False
    obtain b1 buf1 r1 where f: "build_row b buffer = (b1, buf1, r1)"
      by (cases "build_row b buffer") auto
    then have "suffix buf1 buffer" using 6(2) [OF False] by simp
    then show ?thesis
      using 6(1) 6(3) [OF False f [symmetric] refl] False f
      by (auto simp: array_rows.psimps split: sum.splits prod.splits
          intro: suffix_order.trans)
  qed
next
  case (7 b buffer)
  show ?case
  proof (cases "take_builder (ab_current_builder b) buffer")
    case (Inl e)
    then show ?thesis using 7(1) by (simp add: build_row.psimps)
  next
    case (Inr p)
    obtain cur buf1 where p: "p = (cur, buf1)" by (cases p)
    obtain cur' buf2 r2 where f: "builder_feed cur buf1 = (cur', buf2, r2)"
      by (cases "builder_feed cur buf1") auto
    have s: "suffix buf2 buf1" using 7(2) [OF Inr p [symmetric]] f by simp
    have l: "length buf2 \<le> length buf1" using s by (rule suffix_length_le)
    note t = take_builder_buffer [OF Inr [unfolded p]]
    have "suffix buf1 buffer" using t by (auto split: option.splits simp: suffix_ConsI)
    with s have "suffix buf2 buffer" by (rule suffix_order.trans)
    then show ?thesis
      using 7(1) Inr p f t l
      by (auto simp: build_row.psimps split: sum.splits prod.splits option.splits
          dest: push_row_current)
  qed
qed

lemma feed_terminates: "All builder_feed_array_rows_build_row_dom"
proof (relation "measures
    [\<lambda>x. case x of Inl (b, buf) \<Rightarrow> length buf
       | Inr (Inl (ab, buf)) \<Rightarrow> length buf | Inr (Inr (ab, buf)) \<Rightarrow> length buf,
     \<lambda>x. case x of Inl (b, buf) \<Rightarrow> depth b
       | Inr (Inl (ab, buf)) \<Rightarrow> array_depth ab | Inr (Inr (ab, buf)) \<Rightarrow> array_depth ab,
     \<lambda>x. case x of Inl _ \<Rightarrow> 0 | Inr (Inl _) \<Rightarrow> 1 | Inr (Inr _) \<Rightarrow> 0]", goal_cases)
  case 1
  show ?case by simp
next
  case (2 b buffer b' y buffer' z found)
  then have f: "fetch_array_size b buffer = (b', buffer', Inr True)" by simp
  then show ?case using fetch_array_size_frame [OF f] by (auto dest: suffix_length_le)
next
  case (3 b buffer)
  then show ?case by simp
next
  case (4 b buffer b' y buffer' z built)
  then have out: "build_row b buffer = (b', buffer', Inr True)" by simp
  have "suffix buffer' buffer" "ab_current_builder b' = None"
    "ab_current_builder b = None \<Longrightarrow> length buffer' < length buffer"
    using feed_suffix_dom(3) [OF 4(6)] out by simp_all
  then show ?case
    by (cases "ab_current_builder b") (auto simp: array_depth_current dest: suffix_length_le)
next
  case (5 b buffer p cur buffer')
  then have t: "take_builder (ab_current_builder b) buffer = Inr (cur, buffer')" by simp
  show ?case
    using take_builder_buffer [OF t]
    by (cases "ab_current_builder b") (auto simp: array_depth_current)
qed

termination builder_feed
  by (rule feed_terminates)

declare builder_feed.simps [simp del] array_rows.simps [simp del] build_row.simps [simp del]

lemma array_builder_suffix:
  "builder_feed b buf = (b', buf', r) \<Longrightarrow> suffix buf' buf"
  "array_rows ab buf = (ab', buf', r) \<Longrightarrow> suffix buf' buf"
  "build_row ab buf = (ab', buf', r2) \<Longrightarrow> suffix buf' buf"
  using feed_suffix_dom(1) [of b buf] feed_suffix_dom(2) [of ab buf] feed_suffix_dom(3) [of ab buf]
    feed_terminates by auto

section \<open>Invariant\<close>

text \<open>A pending array has fewer rows than it declared, and the builder of its current
  row is itself pending; a ready array is null or has exactly the rows it declared.\<close>

fun builder_inv :: "builder \<Rightarrow> bool" and array_inv :: "array_builder \<Rightarrow> bool" where
  "builder_inv (Simple_String_Builder b) = simple_string_inv b"
| "builder_inv (Error_Builder b) = error_inv b"
| "builder_inv (Integer_Builder b) = integer_inv b"
| "builder_inv (Bulk_String_Builder b) = bulk_inv b"
| "builder_inv (Array_Builder b) = array_inv b"
| "array_inv (Array_State ib sz cur rdy rep) =
     (integer_inv ib \<and> reply_inv rep \<and> (ib_ready ib \<longleftrightarrow> sz \<noteq> None) \<and>
      (case cur of None \<Rightarrow> True | Some b \<Rightarrow> builder_inv b \<and> \<not> builder_ready b) \<and>
      (case sz of
         None \<Rightarrow> \<not> rdy \<and> cur = None \<and> is_array rep \<and> m_rows rep = []
       | Some n \<Rightarrow>
           if rdy then is_null rep \<or> (is_array rep \<and> length (m_rows rep) = n)
           else is_array rep \<and> length (m_rows rep) < n))"

lemma init_builders_inv:
  "simple_string_inv simple_string_init" "error_inv error_init" "integer_inv integer_init"
  "bulk_inv bulk_string_init" "array_inv array_init"
  by (simp_all add: simple_string_inv_def error_inv_def integer_inv_def bulk_inv_def
      simple_string_init_def error_init_def integer_init_def bulk_string_init_def array_init_def
      error_ready_def in_int64_def reply_array_def is_array_def)

lemma create_builder_inv:
  "create_builder c = Inr b \<Longrightarrow> builder_inv b \<and> \<not> builder_ready b"
  using init_builders_inv
  by (auto simp: create_builder_def simple_string_init_def error_init_def integer_init_def
      bulk_string_init_def array_init_def error_ready_def split: if_splits)

lemma take_builder_inv:
  assumes "take_builder (ab_current_builder b) buf = Inr (cur, buf')" "array_inv b"
  shows "builder_inv cur" "\<not> builder_ready cur"
  using assms take_builder_buffer [OF assms(1)] create_builder_inv
  by (cases b; cases "ab_current_builder b"; fastforce)+

lemma fetch_array_size_inv:
  assumes "array_inv b" "\<not> ab_ready b" "fetch_array_size b buf = (b', buf', r)"
  shows "array_inv b'" "r = Inr True \<Longrightarrow> ab_array_size b' \<noteq> None"
    "r \<noteq> Inr True \<Longrightarrow> \<not> ab_ready b'"
proof -
  obtain ib sz cur rdy rep where b: "b = Array_State ib sz cur rdy rep" by (cases b)
  obtain ib' buf1 r1 where f: "integer_feed ib buf = (ib', buf1, r1)"
    by (cases "integer_feed ib buf") auto
  have i: "integer_inv ib'" using integer.feed_invar [OF _ f] assms(1) b by simp
  then have g: "size_t_cast (get_integer ib') = nat (get_integer ib')" if "0 \<le> get_integer ib'"
    using get_integer_range [OF i] that by (simp add: size_t_cast_id in_int64_def)
  have "ib_ready ib' = (r1 = Inr () \<and> ib_ready ib')" if "\<not> ib_ready ib"
    using f that integer_loop_ready
    by (auto simp: integer_feed_def split: option.splits prod.splits sum.splits)
  then show "array_inv b'"
    using assms b f i g
    by (auto simp: Let_def reply_inv_mutators observer_defs split: if_splits sum.splits option.splits)
  show "r = Inr True \<Longrightarrow> ab_array_size b' \<noteq> None"
    using assms b f by (auto simp: Let_def split: if_splits sum.splits)
  show "r \<noteq> Inr True \<Longrightarrow> \<not> ab_ready b'"
    using assms b f by (auto simp: Let_def split: if_splits sum.splits)
qed

lemma push_row_inv:
  assumes "array_inv b" "\<not> ab_ready b" "ab_array_size b \<noteq> None" "reply_inv row"
    and "push_row b row = (b', r)"
  shows "array_inv b'" "r = Inr True" "ab_array_size b' = ab_array_size b"
    "ab_int_builder b' = ab_int_builder b"
  using assms
  by (cases b; auto simp: Let_def reply_inv_mutators observer_defs split: if_splits)+

lemma set_current_builder_inv:
  assumes "array_inv b" "ab_array_size b \<noteq> None" "builder_inv c" "\<not> builder_ready c"
  shows "array_inv (set_current_builder b (Some c))"
  using assms by (cases b) auto

lemma set_current_builder_sel [simp]:
  "ab_int_builder (set_current_builder b c) = ab_int_builder b"
  "ab_array_size (set_current_builder b c) = ab_array_size b"
  "ab_current_builder (set_current_builder b c) = c"
  "ab_ready (set_current_builder b c) = ab_ready b"
  "ab_reply (set_current_builder b c) = ab_reply b"
  "push_row (set_current_builder b c) row = push_row b row"
  "set_current_builder (set_current_builder b c) d = set_current_builder b d"
  by (cases b; simp)+

lemma builder_reply_inv: "builder_inv b \<Longrightarrow> reply_inv (builder_reply b)"
proof (cases b)
  case (Array_Builder a)
  then show "builder_inv b \<Longrightarrow> reply_inv (builder_reply b)" by (cases a) simp
qed (auto simp: simple_string_inv_def error_inv_def integer_inv_def bulk_inv_def)

lemma scalar_error_pending:
  "integer_feed i buf = (i', buf', Inl e) \<Longrightarrow> \<not> ib_ready i'"
  "bulk_feed b buf = (b', buf', Inl e) \<Longrightarrow> \<not> bs_ready b'"
  by (auto simp: integer_feed_def bulk_feed_def bulk_fetch_size_def bulk_fetch_str_def Let_def
      split: if_splits option.splits prod.splits sum.splits dest: integer_loop_ready)

lemma error_no_throw: "error_feed b buf = (b', buf', Inl e) \<Longrightarrow> False"
  by (auto simp: error_feed_def split: prod.splits sum.splits if_splits dest: simple_string_no_throw)

lemma feed_inv_induct:
  shows "builder_inv b \<Longrightarrow> builder_feed b buf = (b', buf', r) \<Longrightarrow>
      builder_inv b' \<and> (r \<noteq> Inr () \<longrightarrow> \<not> builder_ready b')"
    and "array_inv ab \<Longrightarrow> ab_array_size ab \<noteq> None \<Longrightarrow> array_rows ab buf = (ab', buf', r) \<Longrightarrow>
      array_inv ab' \<and> ab_array_size ab' = ab_array_size ab \<and>
      ab_int_builder ab' = ab_int_builder ab \<and> (r \<noteq> Inr () \<longrightarrow> \<not> ab_ready ab')"
    and "array_inv ab \<Longrightarrow> \<not> ab_ready ab \<Longrightarrow> ab_array_size ab \<noteq> None \<Longrightarrow>
      build_row ab buf = (ab', buf', q) \<Longrightarrow>
      array_inv ab' \<and> ab_array_size ab' = ab_array_size ab \<and>
      ab_int_builder ab' = ab_int_builder ab \<and> (q \<noteq> Inr True \<longrightarrow> \<not> ab_ready ab')"
proof (induction b buf and ab buf and ab buf arbitrary: b' buf' r and ab' buf' r and ab' buf' q
    rule: builder_feed_array_rows_build_row.induct)
  case (1 b buffer)
  then show ?case
    by (auto simp: builder_feed.simps split: prod.splits
        dest: simple_string.feed_invar simple_string_no_throw) (metis simple_string_no_throw sum.exhaust unit.exhaust)
next
  case (2 b buffer)
  then show ?case
    by (auto simp: builder_feed.simps split: prod.splits dest: error.feed_invar)
      (metis error_no_throw sum.exhaust unit.exhaust)
next
  case (3 b buffer)
  then show ?case
    by (cases r) (auto simp: builder_feed.simps split: prod.splits
        dest: integer.feed_invar scalar_error_pending)
next
  case (4 b buffer)
  then show ?case
    by (cases r) (auto simp: builder_feed.simps split: prod.splits
        dest: bulk_string.feed_invar scalar_error_pending)
next
  case (5 b buffer)
  show ?case
  proof (cases "ab_ready b")
    case True
    then show ?thesis using 5(2,3) by (auto simp: builder_feed.simps)
  next
    case False
    obtain b1 buf1 r1 where f: "fetch_array_size b buffer = (b1, buf1, r1)"
      by (cases "fetch_array_size b buffer") auto
    obtain b2 buf2 r2 where g: "array_rows b1 buf1 = (b2, buf2, r2)"
      by (cases "array_rows b1 buf1") auto
    have "array_inv b" using 5(2) by simp
    note i = fetch_array_size_inv [OF this False f]
    show ?thesis
    proof (cases "r1 = Inr True")
      case True
      then show ?thesis
        using 5(1) [OF False f [symmetric] refl, of True b2 buf2 r2] 5(3) i g f False
        by (auto simp: builder_feed.simps)
    next
      case n: False
      then show ?thesis
        using 5(3) i f False by (cases r1) (auto simp: builder_feed.simps)
    qed
  qed
next
  case (6 b buffer)
  show ?case
  proof (cases "buffer = [] \<or> ab_ready b")
    case True
    then show ?thesis using 6(3-5) by (auto simp: array_rows.simps)
  next
    case False
    obtain b1 buf1 r1 where f: "build_row b buffer = (b1, buf1, r1)"
      by (cases "build_row b buffer") auto
    have i: "array_inv b1 \<and> ab_array_size b1 = ab_array_size b \<and>
        ab_int_builder b1 = ab_int_builder b \<and> (r1 \<noteq> Inr True \<longrightarrow> \<not> ab_ready b1)"
      using 6(1) [OF False 6(3) _ 6(4) f] False by simp
    show ?thesis
    proof (cases "r1 = Inr True")
      case True
      then show ?thesis
        using 6(2) [OF False f [symmetric] refl, of True ab' buf' r] 6(4,5) i f False
        by (auto simp: array_rows.simps)
    next
      case n: False
      then show ?thesis
        using 6(4,5) i f False by (cases r1) (auto simp: array_rows.simps)
    qed
  qed
next
  case (7 b buffer)
  show ?case
  proof (cases "take_builder (ab_current_builder b) buffer")
    case (Inl e)
    then show ?thesis using 7(2-5) by (auto simp: build_row.simps)
  next
    case (Inr p)
    obtain cur buf1 where p: "p = (cur, buf1)" by (cases p)
    obtain cur' buf2 r2 where f: "builder_feed cur buf1 = (cur', buf2, r2)"
      by (cases "builder_feed cur buf1") auto
    have c: "builder_inv cur" using take_builder_inv(1) Inr p 7(2) by blast
    have c': "builder_inv cur' \<and> (r2 \<noteq> Inr () \<longrightarrow> \<not> builder_ready cur')"
      using 7(1) [OF Inr p [symmetric] c f] .
    have s: "\<not> builder_ready cur' \<Longrightarrow> array_inv (set_current_builder b (Some cur'))"
      using set_current_builder_inv [OF 7(2,4)] c' by simp
    have r: "reply_inv (builder_reply cur')" using c' builder_reply_inv by simp
    obtain b3 r3 where g: "push_row b (builder_reply cur') = (b3, r3)"
      by (cases "push_row b (builder_reply cur')") auto
    note u = push_row_inv [OF 7(2,3,4) r g]
    show ?thesis
      using 7(3-5) Inr p f s c' g u
      by (cases r2; cases "builder_ready cur'") (auto simp: build_row.simps)
  qed
qed

section \<open>Resuming with more bytes\<close>

lemma fetch_array_size_resume:
  assumes "array_inv b" "fetch_array_size b buf = (b', buf', r)"
  shows "r \<noteq> Inr False \<Longrightarrow> fetch_array_size b (buf @ extra) = (b', buf' @ extra, r)"
    and "r = Inr False \<Longrightarrow> fetch_array_size b (buf @ extra) = fetch_array_size b' (buf' @ extra)"
proof -
  obtain ib sz cur rdy rep where b: "b = Array_State ib sz cur rdy rep" by (cases b)
  obtain ib' buf1 r1 where f: "integer_feed ib buf = (ib', buf1, r1)"
    by (cases "integer_feed ib buf") auto
  have "integer_inv ib" using assms(1) b by simp
  note res = integer.feed_resume [OF this, of buf extra]
  show "r \<noteq> Inr False \<Longrightarrow> fetch_array_size b (buf @ extra) = (b', buf' @ extra, r)"
    using assms(2) b f res by (cases r1) (auto simp: Let_def split: if_splits)
  show "r = Inr False \<Longrightarrow> fetch_array_size b (buf @ extra) = fetch_array_size b' (buf' @ extra)"
    using assms(2) b f res
    by (cases r1) (auto simp: Let_def split: if_splits prod.splits sum.splits)
qed

lemma fetch_array_size_known:
  "array_inv b \<Longrightarrow> ab_array_size b \<noteq> None \<Longrightarrow> fetch_array_size b buf = (b, buf, Inr True)"
  by (cases b) auto

lemma take_builder_append:
  "buf \<noteq> [] \<Longrightarrow> take_builder cur (buf @ extra) =
    (case take_builder cur buf of Inl e \<Rightarrow> Inl e | Inr (b, buf') \<Rightarrow> Inr (b, buf' @ extra))"
  by (cases "(cur, buf)" rule: take_builder.cases) (auto split: sum.splits)

lemma feed_resume_induct:
  shows "builder_inv b \<Longrightarrow>
      builder_feed b (buf @ extra) = resumed builder_feed builder_ready (builder_feed b buf) extra"
    and "array_inv ab \<Longrightarrow> ab_array_size ab \<noteq> None \<Longrightarrow>
      array_rows ab (buf @ extra) =
        (case array_rows ab buf of
           (ab', buf', Inl e) \<Rightarrow> (ab', buf' @ extra, Inl e)
         | (ab', buf', Inr u) \<Rightarrow> array_rows ab' (buf' @ extra))"
    and "array_inv ab \<Longrightarrow> \<not> ab_ready ab \<Longrightarrow> ab_array_size ab \<noteq> None \<Longrightarrow> buf \<noteq> [] \<Longrightarrow>
      build_row ab (buf @ extra) =
        (case build_row ab buf of
           (ab', buf', Inl e) \<Rightarrow> (ab', buf' @ extra, Inl e)
         | (ab', buf', Inr built) \<Rightarrow>
             if built then (ab', buf' @ extra, Inr True) else build_row ab' (buf' @ extra))"
proof (induction b buf and ab buf and ab buf rule: builder_feed_array_rows_build_row.induct)
  case (1 b buffer)
  have "simple_string_inv b" using 1 by simp
  from simple_string.feed_resume [OF this, of buffer extra] show ?case
    by (cases "simple_string_feed b buffer"; cases "snd (snd (simple_string_feed b buffer))")
      (auto simp: builder_feed.simps)
next
  case (2 b buffer)
  have "error_inv b" using 2 by simp
  from error.feed_resume [OF this, of buffer extra] show ?case
    by (cases "error_feed b buffer"; cases "snd (snd (error_feed b buffer))")
      (auto simp: builder_feed.simps)
next
  case (3 b buffer)
  have "integer_inv b" using 3 by simp
  from integer.feed_resume [OF this, of buffer extra] show ?case
    by (cases "integer_feed b buffer"; cases "snd (snd (integer_feed b buffer))")
      (auto simp: builder_feed.simps)
next
  case (4 b buffer)
  have "bulk_inv b" using 4 by simp
  from bulk_string.feed_resume [OF this, of buffer extra] show ?case
    by (cases "bulk_feed b buffer"; cases "snd (snd (bulk_feed b buffer))")
      (auto simp: builder_feed.simps)
next
  case (5 b buffer)
  have inv: "array_inv b" using 5(2) by simp
  show ?case
  proof (cases "ab_ready b")
    case True
    then show ?thesis by (simp add: builder_feed.simps)
  next
    case False
    obtain b1 buf1 r1 where f: "fetch_array_size b buffer = (b1, buf1, r1)"
      by (cases "fetch_array_size b buffer") auto
    note i = fetch_array_size_inv [OF inv False f]
    note res = fetch_array_size_resume [OF inv f, of extra]
    consider (err) e where "r1 = Inl e" | (short) "r1 = Inr False" | (found) "r1 = Inr True"
      by (cases r1) auto
    then show ?thesis
    proof cases
      case err
      then show ?thesis using res f False by (simp add: builder_feed.simps)
    next
      case short
      then show ?thesis using res f False i by (simp add: builder_feed.simps)
    next
      case found
      obtain b2 buf2 r2 where g: "array_rows b1 buf1 = (b2, buf2, r2)"
        by (cases "array_rows b1 buf1") auto
      have s: "ab_array_size b1 \<noteq> None" using i(2) found by simp
      note j = feed_inv_induct(2) [OF i(1) s g]
      have rows: "array_rows b1 (buf1 @ extra) =
          (case r2 of Inl e \<Rightarrow> (b2, buf2 @ extra, Inl e) | Inr u \<Rightarrow> array_rows b2 (buf2 @ extra))"
        using 5(1) [OF False f [symmetric] refl found _ i(1) s] g by simp
      have k: "fetch_array_size b2 (buf2 @ extra) = (b2, buf2 @ extra, Inr True)"
        using fetch_array_size_known j s by auto
      show ?thesis
      proof (cases "r2 = Inr () \<and> ab_ready b2")
        case True
        then show ?thesis
          using f found res False g rows by (simp add: builder_feed.simps array_rows.simps)
      next
        case n: False
        then show ?thesis
          using f found res False g rows k
          by (cases r2) (auto simp: builder_feed.simps)
      qed
    qed
  qed
next
  case (6 b buffer)
  show ?case
  proof (cases "buffer = [] \<or> ab_ready b")
    case True
    then show ?thesis by (auto simp: array_rows.simps [of b])
  next
    case False
    obtain b1 buf1 r1 where f: "build_row b buffer = (b1, buf1, r1)"
      by (cases "build_row b buffer") auto
    have ne: "buffer \<noteq> []" "\<not> ab_ready b" "buffer @ extra \<noteq> []" using False by auto
    note j = feed_inv_induct(3) [OF 6(3) ne(2) 6(4) f]
    note row = 6(1) [OF False 6(3) ne(2) 6(4) ne(1)]
    consider (err) e where "r1 = Inl e" | (pending) "r1 = Inr False" | (built) "r1 = Inr True"
      by (cases r1) auto
    then show ?thesis
    proof cases
      case err
      then show ?thesis using f ne row by (simp add: array_rows.simps)
    next
      case built
      have "array_inv b1" "ab_array_size b1 \<noteq> None" using j 6(4) by auto
      from 6(2) [OF False f [symmetric] refl built _ this] show ?thesis
        using f ne row built by (simp add: array_rows.simps [of b])
    next
      case pending
      show ?thesis
      proof (cases "buf1 @ extra = []")
        case True
        then show ?thesis using f ne pending by (simp add: array_rows.simps)
      next
        case nonempty: False
        have "\<not> ab_ready b1" using j pending by simp
        then show ?thesis
          using f ne row pending nonempty
          by (auto simp: array_rows.simps [of b] array_rows.simps [of b1])
      qed
    qed
  qed
next
  case (7 b buffer)
  show ?case
  proof (cases "take_builder (ab_current_builder b) buffer")
    case (Inl e)
    then show ?thesis
      using take_builder_append [OF 7(5), of "ab_current_builder b" extra]
      by (simp add: build_row.simps)
  next
    case (Inr p)
    obtain cur buf1 where p: "p = (cur, buf1)" by (cases p)
    obtain cur' buf2 r2 where f: "builder_feed cur buf1 = (cur', buf2, r2)"
      by (cases "builder_feed cur buf1") auto
    have t: "take_builder (ab_current_builder b) (buffer @ extra) = Inr (cur, buf1 @ extra)"
      using take_builder_append [OF 7(5), of "ab_current_builder b" extra] Inr p by simp
    have c: "builder_inv cur" using take_builder_inv(1) Inr p 7(2) by blast
    have res: "builder_feed cur (buf1 @ extra) =
        resumed builder_feed builder_ready (cur', buf2, r2) extra"
      using 7(1) [OF Inr p [symmetric] c] f by simp
    obtain b3 r3 where g: "push_row b (builder_reply cur') = (b3, r3)"
      by (cases "push_row b (builder_reply cur')") auto
    have r3: "builder_ready cur' \<Longrightarrow> r3 = Inr True"
      using push_row_inv(2) [OF 7(2,3,4) _ g] feed_inv_induct(1) [OF c f] builder_reply_inv by blast
    show ?thesis
      using Inr p f t res g r3
      by (cases r2; cases "builder_ready cur'")
        (auto simp: build_row.simps split: prod.splits sum.splits)
  qed
qed

interpretation any_builder: builder_iface builder_feed builder_ready builder_reply builder_inv
proof unfold_locales
  fix b :: builder and buf extra
  show "builder_inv b \<Longrightarrow> builder_ready b \<Longrightarrow> builder_feed b buf = (b, buf, Inr ())"
    by (cases b) (auto simp: builder_feed.simps simple_string.feed_done error.feed_done
        integer.feed_done bulk_string.feed_done)
  show "builder_inv b \<Longrightarrow>
      builder_feed b (buf @ extra) = resumed builder_feed builder_ready (builder_feed b buf) extra"
    by (rule feed_resume_induct(1))
  show "\<And>b' buf' r. builder_feed b buf = (b', buf', r) \<Longrightarrow> suffix buf' buf"
    by (rule array_builder_suffix(1))
  show "\<And>b' buf' r. builder_inv b \<Longrightarrow> builder_feed b buf = (b', buf', r) \<Longrightarrow> builder_inv b'"
    using feed_inv_induct(1) by blast
  show "builder_inv b \<Longrightarrow> reply_inv (builder_reply b)"
    by (rule builder_reply_inv)
qed

section \<open>Decoding\<close>

definition decodes :: "resp \<Rightarrow> bool" where
  "decodes r \<longleftrightarrow> (\<forall>rest. \<exists>b b'. create_builder (resp_id r) = Inr b \<and>
     builder_feed b (tl (encode r) @ rest) = (b', rest, Inr ()) \<and>
     builder_ready b' \<and> builder_reply b' = reply_of r)"

lemma build_row_decode:
  assumes "decodes r"
  shows "build_row (Array_State ib (Some n) None False (reply_array rows)) (encode r @ rest) =
    (Array_State ib (Some n) None (Suc (length rows) = n) (reply_array (rows @ [reply_of r])),
     rest, Inr True)"
proof -
  obtain b b' where d: "create_builder (resp_id r) = Inr b"
    "builder_feed b (tl (encode r) @ rest) = (b', rest, Inr ())"
    "builder_ready b'" "builder_reply b' = reply_of r"
    using assms unfolding decodes_def by blast
  have "take_builder None (encode r @ rest) = Inr (b, tl (encode r) @ rest)"
    using d(1) encode_Cons [of r] by (metis append_Cons take_builder.simps(3) sum.case(2))
  then show ?thesis
    using d by (simp add: build_row.simps Let_def reply_push_def reply_array_def)
qed

lemma array_rows_decode:
  assumes "\<forall>r \<in> set rs. decodes r" "rs \<noteq> []" "length rows + length rs = n"
  shows "array_rows (Array_State ib (Some n) None False (reply_array rows))
      (concat (map encode rs) @ rest) =
    (Array_State ib (Some n) None True (reply_array (rows @ map reply_of rs)), rest, Inr ())"
  using assms
proof (induction rs arbitrary: rows)
  case Nil
  then show ?case by simp
next
  case (Cons r rs)
  have d: "decodes r" using Cons.prems by simp
  note row = build_row_decode [OF d, of ib n rows "concat (map encode rs) @ rest"]
  show ?case
  proof (cases "rs = []")
    case True
    then show ?thesis
      using row Cons.prems
      by (simp add: array_rows.simps [of "Array_State ib (Some n) None False _"]
          array_rows.simps [of "Array_State ib (Some n) None True _"])
  next
    case False
    have "array_rows (Array_State ib (Some n) None False (reply_array (rows @ [reply_of r])))
        (concat (map encode rs) @ rest) =
      (Array_State ib (Some n) None True (reply_array ((rows @ [reply_of r]) @ map reply_of rs)),
       rest, Inr ())"
      using Cons.prems False by (intro Cons.IH) auto
    moreover have "Suc (length rows) \<noteq> n" using Cons.prems(3) False by (cases rs) auto
    ultimately show ?thesis
      using row by (simp add: array_rows.simps [of _ "encode r @ _"])
  qed
qed

lemma array_decode:
  assumes "\<forall>r \<in> set rs. decodes r" "length rs < 2 ^ 63"
  shows "\<exists>b'. builder_feed (Array_Builder array_init)
      (line (to_string_nat (length rs)) @ concat (map encode rs) @ rest) = (b', rest, Inr ()) \<and>
    builder_ready b' \<and> builder_reply b' = reply_array (map reply_of rs)"
proof -
  let ?ib = "integer_done (int (length rs))"
  let ?b = "Array_State ?ib (Some (length rs)) None (rs = []) (reply_array [])"
  have "fetch_array_size array_init
      (line (to_string_nat (length rs)) @ concat (map encode rs) @ rest) =
    (?b, concat (map encode rs) @ rest, Inr True)"
    using integer_decode_nat [OF assms(2)] assms(2)
    by (simp add: array_init_def integer_init_def [THEN arg_cong, of ib_ready] Let_def size_t_cast_id)
  moreover have "array_rows ?b (concat (map encode rs) @ rest) =
      (Array_State ?ib (Some (length rs)) None True (reply_array (map reply_of rs)), rest, Inr ())"
  proof (cases "rs = []")
    case True
    then show ?thesis by (simp add: array_rows.simps)
  next
    case False
    then show ?thesis using array_rows_decode [OF assms(1) False, of "[]"] by simp
  qed
  ultimately show ?thesis
    by (simp add: builder_feed.simps array_init_def [THEN arg_cong, of ab_ready])
qed

lemma array_decode_null:
  "\<exists>b'. builder_feed (Array_Builder array_init) (line ''-1'' @ rest) = (b', rest, Inr ()) \<and>
    builder_ready b' \<and> builder_reply b' = reply_null"
  using integer_decode_m1 [of rest]
  by (simp add: builder_feed.simps array_init_def integer_init_def [THEN arg_cong, of ib_ready]
      Let_def array_rows.simps reply_defs)

lemma decodesI:
  assumes "create_builder (resp_id r) = Inr b"
    and "\<And>rest. \<exists>b'. builder_feed b (tl (encode r) @ rest) = (b', rest, Inr ()) \<and>
      builder_ready b' \<and> builder_reply b' = reply_of r"
  shows "decodes r"
  using assms unfolding decodes_def by blast

lemma scalar_decodes:
  "sendable (Simple s) \<Longrightarrow> decodes (Simple s)"
  "sendable (Error s) \<Longrightarrow> decodes (Error s)"
  "sendable (Integer i) \<Longrightarrow> decodes (Integer i)"
  "sendable (Bulk s) \<Longrightarrow> decodes (Bulk s)"
  "decodes Null_Bulk"
proof -
  show "sendable (Simple s) \<Longrightarrow> decodes (Simple s)"
    by (rule decodesI [of _ "Simple_String_Builder simple_string_init"])
      (simp_all add: create_builder_def builder_feed.simps simple_string_decode)
  show "decodes (Error s)" if "sendable (Error s)"
  proof (rule decodesI [of _ "Error_Builder error_init"])
    fix rest
    show "\<exists>b'. builder_feed (Error_Builder error_init) (tl (encode (Error s)) @ rest) =
        (b', rest, Inr ()) \<and> builder_ready b' \<and> builder_reply b' = reply_of (Error s)"
      using error_decode [of s rest] that by (auto simp: builder_feed.simps)
  qed (simp add: create_builder_def)
  show "sendable (Integer i) \<Longrightarrow> decodes (Integer i)"
    by (rule decodesI [of _ "Integer_Builder integer_init"])
      (simp_all add: create_builder_def builder_feed.simps integer_decode)
  show "decodes (Bulk s)" if "sendable (Bulk s)"
  proof (rule decodesI [of _ "Bulk_String_Builder bulk_string_init"])
    fix rest
    show "\<exists>b'. builder_feed (Bulk_String_Builder bulk_string_init) (tl (encode (Bulk s)) @ rest) =
        (b', rest, Inr ()) \<and> builder_ready b' \<and> builder_reply b' = reply_of (Bulk s)"
      using bulk_decode [of s rest] that by (auto simp: builder_feed.simps)
  qed (simp add: create_builder_def)
  show "decodes Null_Bulk"
  proof (rule decodesI [of _ "Bulk_String_Builder bulk_string_init"])
    fix rest
    show "\<exists>b'. builder_feed (Bulk_String_Builder bulk_string_init) (tl (encode Null_Bulk) @ rest) =
        (b', rest, Inr ()) \<and> builder_ready b' \<and> builder_reply b' = reply_of Null_Bulk"
      using bulk_decode_null [of rest] by (auto simp: builder_feed.simps)
  qed (simp add: create_builder_def)
qed

lemma sendable_decodes: "sendable r \<Longrightarrow> decodes r"
proof (induction r)
  case Null_Array
  show ?case
    by (rule decodesI [of _ "Array_Builder array_init"])
      (use array_decode_null in \<open>simp_all add: create_builder_def\<close>)
next
  case (Array rs)
  then have "\<forall>r \<in> set rs. decodes r" by (auto simp: list_all_iff)
  then show ?case
    using array_decode [of rs] Array.prems
    by (intro decodesI [of _ "Array_Builder array_init"]) (simp_all add: create_builder_def)
qed (use scalar_decodes in auto)

end
