(* ===== verification/Reply_Builder.thy ===== *)
theory Reply_Builder
  imports Array_Builder
begin

text \<open>
  \<open>reply_builder\<close> (sources/builders/reply_builder.cpp): the buffer of received bytes,
  the builder of the reply in progress and the queue of finished replies. The theory
  lifts the builders' contract to streams: what the queue holds depends on the bytes
  received, not on how they were cut, and it is exactly the replies that were sent.
\<close>

section \<open>State and operations\<close>

record reply_builder =
  rb_buffer :: string
  rb_builder :: "builder option"
  rb_available_replies :: "reply list"

definition reply_builder_init :: reply_builder where
  "reply_builder_init = \<lparr>rb_buffer = [], rb_builder = None, rb_available_replies = []\<rparr>"

text \<open>\<open>reset\<close> leaves the queue alone.\<close>

definition rb_reset :: "reply_builder \<Rightarrow> reply_builder" where
  "rb_reset rb = rb\<lparr>rb_builder := None, rb_buffer := []\<rparr>"

definition build_reply :: "reply_builder \<Rightarrow> reply_builder \<times> bool result" where
  "build_reply rb =
     (if rb_buffer rb = [] then (rb, Inr False)
      else case take_builder (rb_builder rb) (rb_buffer rb) of
        Inl e \<Rightarrow> (rb, Inl e)
      | Inr (b, buffer) \<Rightarrow>
          (case builder_feed b buffer of
             (b', buffer', Inl e) \<Rightarrow> (rb\<lparr>rb_builder := Some b', rb_buffer := buffer'\<rparr>, Inl e)
           | (b', buffer', Inr u) \<Rightarrow>
               (if builder_ready b'
                then (rb\<lparr>rb_builder := None, rb_buffer := buffer',
                         rb_available_replies := rb_available_replies rb @ [builder_reply b']\<rparr>,
                      Inr True)
                else (rb\<lparr>rb_builder := Some b', rb_buffer := buffer'\<rparr>, Inr False))))"

lemma build_reply_progress:
  assumes "build_reply rb = (rb', Inr True)"
  shows "rb_builder rb' = None"
    and "length (rb_buffer rb') \<le> length (rb_buffer rb)"
    and "rb_builder rb = None \<Longrightarrow> length (rb_buffer rb') < length (rb_buffer rb)"
proof -
  obtain b buf b' buf' where t: "take_builder (rb_builder rb) (rb_buffer rb) = Inr (b, buf)"
    and f: "builder_feed b buf = (b', buf', Inr ())"
    and rb': "rb_builder rb' = None" "rb_buffer rb' = buf'"
    using assms by (auto simp: build_reply_def split: if_splits sum.splits prod.splits)
  note l = any_builder.feed_length [OF f] take_builder_buffer [OF t]
  show "rb_builder rb' = None" by (rule rb'(1))
  show "length (rb_buffer rb') \<le> length (rb_buffer rb)"
    using l rb' by (auto split: option.splits)
  show "rb_builder rb = None \<Longrightarrow> length (rb_buffer rb') < length (rb_buffer rb)"
    using l rb' by auto
qed

text \<open>\<open>while (build_reply());\<close>\<close>

function build_replies :: "reply_builder \<Rightarrow> reply_builder \<times> unit result" where
  "build_replies rb =
     (case build_reply rb of
        (rb', Inl e) \<Rightarrow> (rb', Inl e)
      | (rb', Inr again) \<Rightarrow> if again then build_replies rb' else (rb', Inr ()))"
  by pat_completeness auto
termination
  by (relation "measures [\<lambda>rb. length (rb_buffer rb), \<lambda>rb. if rb_builder rb = None then 0 else 1]")
    (auto dest!: sym [of "(_, _)"] dest: build_reply_progress)

declare build_replies.simps [simp del]

definition rb_append :: "reply_builder \<Rightarrow> string \<Rightarrow> reply_builder \<times> unit result" where
  "rb_append rb data = build_replies (rb\<lparr>rb_buffer := rb_buffer rb @ data\<rparr>)"

definition reply_available :: "reply_builder \<Rightarrow> bool" where
  "reply_available rb \<longleftrightarrow> length (rb_available_replies rb) > 0"

definition get_front :: "reply_builder \<Rightarrow> reply result" where
  "get_front rb = (if \<not> reply_available rb then Inl (Redis_Error ''No available reply'')
                   else Inr (hd (rb_available_replies rb)))"

definition pop_front :: "reply_builder \<Rightarrow> reply_builder \<times> unit result" where
  "pop_front rb = (if \<not> reply_available rb then (rb, Inl (Redis_Error ''No available reply''))
                   else (rb\<lparr>rb_available_replies := tl (rb_available_replies rb)\<rparr>, Inr ()))"

text \<open>\<open>operator>>\<close>: the front reply is stored, not removed.\<close>

definition rb_extract :: "reply_builder \<Rightarrow> reply result" where
  "rb_extract rb = get_front rb"

section \<open>Invariant\<close>

definition rb_inv :: "reply_builder \<Rightarrow> bool" where
  "rb_inv rb \<longleftrightarrow>
     (\<forall>b. rb_builder rb = Some b \<longrightarrow> builder_inv b \<and> \<not> builder_ready b) \<and>
     list_all reply_inv (rb_available_replies rb)"

lemma rb_inv_init: "rb_inv reply_builder_init" and rb_inv_reset: "rb_inv rb \<Longrightarrow> rb_inv (rb_reset rb)"
  by (simp_all add: rb_inv_def reply_builder_init_def rb_reset_def)

lemma rb_take_inv:
  "rb_inv rb \<Longrightarrow> take_builder (rb_builder rb) buf = Inr (b, buf') \<Longrightarrow>
   builder_inv b \<and> \<not> builder_ready b"
  by (cases "rb_builder rb") (auto simp: rb_inv_def dest!: take_builder_buffer create_builder_inv)

lemma build_reply_inv: "rb_inv rb \<Longrightarrow> build_reply rb = (rb', r) \<Longrightarrow> rb_inv rb'"
proof -
  assume a: "rb_inv rb" "build_reply rb = (rb', r)"
  show "rb_inv rb'"
  proof (cases "rb_buffer rb = [] \<or> (\<exists>e. take_builder (rb_builder rb) (rb_buffer rb) = Inl e)")
    case True
    then show ?thesis using a by (auto simp: build_reply_def split: if_splits)
  next
    case False
    then obtain b buf where t: "take_builder (rb_builder rb) (rb_buffer rb) = Inr (b, buf)"
      by (cases "take_builder (rb_builder rb) (rb_buffer rb)") auto
    obtain b' buf' r' where f: "builder_feed b buf = (b', buf', r')"
      by (cases "builder_feed b buf") auto
    have "builder_inv b" using rb_take_inv [OF a(1) t] by simp
    note i = feed_inv_induct(1) [OF this f]
    show ?thesis
      using a False t f i builder_reply_inv [of b']
      by (cases r') (auto simp: build_reply_def rb_inv_def split: if_splits)
  qed
qed

lemma build_replies_inv: "rb_inv rb \<Longrightarrow> build_replies rb = (rb', r) \<Longrightarrow> rb_inv rb'"
proof (induction rb rule: build_replies.induct)
  case (1 rb)
  obtain rb1 r1 where b: "build_reply rb = (rb1, r1)" by (cases "build_reply rb")
  have i: "rb_inv rb1" using build_reply_inv [OF 1(2) b] .
  show ?case
    using 1(1) [OF b [symmetric]] 1(3) b i
    by (cases r1) (auto simp: build_replies.simps [of rb] split: if_splits)
qed

lemma rb_append_inv: "rb_inv rb \<Longrightarrow> rb_append rb d = (rb', r) \<Longrightarrow> rb_inv rb'"
  unfolding rb_append_def by (rule build_replies_inv) (auto simp: rb_inv_def)

section \<open>Streams\<close>

text \<open>\<open>rb_more rb x\<close>: \<open>rb\<close> with the bytes \<open>x\<close> behind its buffer.\<close>

abbreviation rb_more :: "reply_builder \<Rightarrow> string \<Rightarrow> reply_builder" where
  "rb_more rb x \<equiv> rb\<lparr>rb_buffer := rb_buffer rb @ x\<rparr>"

lemma build_reply_resume:
  assumes "rb_inv rb" "build_reply rb = (rb', r)" "rb_buffer rb \<noteq> []"
  shows "r \<noteq> Inr False \<Longrightarrow> build_reply (rb_more rb x) = (rb_more rb' x, r)"
    and "r = Inr False \<Longrightarrow> rb_buffer rb' @ x \<noteq> [] \<Longrightarrow>
      build_reply (rb_more rb x) = build_reply (rb_more rb' x)"
proof -
  have t: "take_builder (rb_builder rb) (rb_buffer rb @ x) =
      (case take_builder (rb_builder rb) (rb_buffer rb) of
         Inl e \<Rightarrow> Inl e | Inr (b, buf) \<Rightarrow> Inr (b, buf @ x))"
    using take_builder_append [OF assms(3)] .
  show "r \<noteq> Inr False \<Longrightarrow> build_reply (rb_more rb x) = (rb_more rb' x, r)"
  proof (cases "take_builder (rb_builder rb) (rb_buffer rb)")
    case (Inl e)
    then show "build_reply (rb_more rb x) = (rb_more rb' x, r)"
      using assms(2,3) t by (auto simp: build_reply_def)
  next
    case (Inr p)
    then obtain b buf where p: "take_builder (rb_builder rb) (rb_buffer rb) = Inr (b, buf)"
      by (cases p) auto
    assume "r \<noteq> Inr False"
    obtain b' buf' q where f: "builder_feed b buf = (b', buf', q)"
      by (cases "builder_feed b buf") auto
    have "builder_inv b" using rb_take_inv [OF assms(1) p] by simp
    note res = any_builder.feed_resume [OF this, of buf x]
    then show "build_reply (rb_more rb x) = (rb_more rb' x, r)"
      using assms(2,3) t p f \<open>r \<noteq> Inr False\<close>
      by (cases q) (auto simp: build_reply_def split: if_splits)
  qed
  show "build_reply (rb_more rb x) = build_reply (rb_more rb' x)"
    if rF: "r = Inr False" and ne: "rb_buffer rb' @ x \<noteq> []"
  proof -
    obtain b buf b' buf' where p: "take_builder (rb_builder rb) (rb_buffer rb) = Inr (b, buf)"
      and f: "builder_feed b buf = (b', buf', Inr ())" and nr: "\<not> builder_ready b'"
      and rb': "rb' = rb\<lparr>rb_builder := Some b', rb_buffer := buf'\<rparr>"
      using assms(2) [unfolded rF] assms(3)
      by (auto simp: build_reply_def split: if_splits sum.splits prod.splits)
    have "builder_inv b" using rb_take_inv [OF assms(1) p] by simp
    from any_builder.feed_pending_append [OF this f nr, of x]
    moreover have "take_builder (rb_builder rb') (rb_buffer rb' @ x) = Inr (b', buf' @ x)"
      using rb' by simp
    ultimately show ?thesis
      unfolding build_reply_def using ne assms(3) t p rb'
      by (cases "builder_feed b' (buf' @ x)"; cases "snd (snd (builder_feed b' (buf' @ x)))") auto
  qed
qed

lemma build_replies_resume:
  "rb_inv rb \<Longrightarrow> build_replies (rb_more rb x) =
     (case build_replies rb of
        (rb', Inl e) \<Rightarrow> (rb_more rb' x, Inl e)
      | (rb', Inr u) \<Rightarrow> build_replies (rb_more rb' x))"
proof (induction rb rule: build_replies.induct)
  case (1 rb)
  obtain rb1 r1 where b: "build_reply rb = (rb1, r1)" by (cases "build_reply rb")
  have i: "rb_inv rb1" using build_reply_inv [OF 1(2) b] .
  show ?case
  proof (cases "rb_buffer rb = []")
    case True
    then have "build_replies rb = (rb, Inr ())" by (simp add: build_replies.simps build_reply_def)
    then show ?thesis by simp
  next
    case False
    note res = build_reply_resume [OF 1(2) b False, of x]
    consider (err) e where "r1 = Inl e" | (stop) "r1 = Inr False" | (again) "r1 = Inr True"
      by (cases r1) auto
    then show ?thesis
    proof cases
      case err
      then show ?thesis using b res by (simp add: build_replies.simps)
    next
      case again
      then show ?thesis
        using b res 1(1) [OF b [symmetric] again _ i]
        by (simp add: build_replies.simps [of rb] build_replies.simps [of "rb_more rb x"])
    next
      case stop
      have "build_replies rb = (rb1, Inr ())" using b stop by (simp add: build_replies.simps)
      moreover have "build_replies (rb_more rb x) = build_replies (rb_more rb1 x)"
      proof (cases "rb_buffer rb1 @ x = []")
        case True
        then have "rb_more rb x = rb" "rb_more rb1 x = rb1"
          using True by (cases rb; cases rb1; simp)+
        moreover have "build_replies rb1 = (rb1, Inr ())"
          using True by (simp add: build_replies.simps [of rb1] build_reply_def)
        ultimately show ?thesis
          using \<open>build_replies rb = (rb1, Inr ())\<close> by metis
      next
        case ne: False
        show ?thesis
          using res(2) [OF stop ne]
          by (simp add: build_replies.simps [of "rb_more rb x"] build_replies.simps [of "rb_more rb1 x"])
      qed
      ultimately show ?thesis by simp
    qed
  qed
qed

lemma rb_append_append:
  "rb_inv rb \<Longrightarrow> rb_append rb (c @ d) =
     (case rb_append rb c of
        (rb', Inl e) \<Rightarrow> (rb_more rb' d, Inl e)
      | (rb', Inr u) \<Rightarrow> rb_append rb' d)"
  using build_replies_resume [of "rb_more rb c" d] unfolding rb_append_def
  by (auto simp: rb_inv_def)

text \<open>The packets of a connection, one \<open>operator<<\<close> each, until one throws.\<close>

fun rb_append_all :: "reply_builder \<Rightarrow> string list \<Rightarrow> reply_builder \<times> unit result" where
  "rb_append_all rb [] = (rb, Inr ())"
| "rb_append_all rb (c # cs) =
     (case rb_append rb c of
        (rb', Inl e) \<Rightarrow> (rb_more rb' (concat cs), Inl e)
      | (rb', Inr u) \<Rightarrow> rb_append_all rb' cs)"

lemma rb_append_all_concat:
  "rb_inv rb \<Longrightarrow> cs \<noteq> [] \<Longrightarrow> rb_append_all rb cs = rb_append rb (concat cs)"
proof (induction cs arbitrary: rb)
  case Nil
  then show ?case by simp
next
  case (Cons c cs)
  obtain rb1 r1 where a: "rb_append rb c = (rb1, r1)" by (cases "rb_append rb c")
  have i: "rb_inv rb1" using rb_append_inv [OF Cons.prems(1) a] .
  show ?case
  proof (cases "cs = []")
    case True
    then show ?thesis using a by (cases r1) auto
  next
    case False
    then show ?thesis
      using a Cons.IH [OF i] rb_append_append [OF Cons.prems(1), of c "concat cs"]
      by (cases r1) auto
  qed
qed

lemma build_reply_decode:
  assumes "sendable r"
  shows "build_reply \<lparr>rb_buffer = encode r @ rest, rb_builder = None, rb_available_replies = q\<rparr> =
    (\<lparr>rb_buffer = rest, rb_builder = None, rb_available_replies = q @ [reply_of r]\<rparr>, Inr True)"
proof -
  obtain b b' where d: "create_builder (resp_id r) = Inr b"
    "builder_feed b (tl (encode r) @ rest) = (b', rest, Inr ())"
    "builder_ready b'" "builder_reply b' = reply_of r"
    using sendable_decodes [OF assms] unfolding decodes_def by blast
  have "take_builder None (encode r @ rest) = Inr (b, tl (encode r) @ rest)"
    using d(1) encode_Cons [of r] by (metis append_Cons take_builder.simps(3) sum.case(2))
  then show ?thesis using d by (simp add: build_reply_def)
qed

lemma build_replies_decode:
  "list_all sendable rs \<Longrightarrow>
   build_replies \<lparr>rb_buffer = concat (map encode rs), rb_builder = None, rb_available_replies = q\<rparr> =
     (\<lparr>rb_buffer = [], rb_builder = None, rb_available_replies = q @ map reply_of rs\<rparr>, Inr ())"
proof (induction rs arbitrary: q)
  case Nil
  then show ?case by (simp add: build_replies.simps build_reply_def)
next
  case (Cons r rs)
  then show ?case
    using build_reply_decode [of r "concat (map encode rs)" q]
    by (simp add: build_replies.simps [of "\<lparr>rb_buffer = encode r @ _, rb_builder = _,
          rb_available_replies = _\<rparr>"])
qed

text \<open>Everything the server sent is decoded, whatever the packets.\<close>

lemma rb_append_all_decode:
  assumes "list_all sendable rs" "concat cs = concat (map encode rs)"
  shows "rb_append_all reply_builder_init cs =
    (reply_builder_init\<lparr>rb_available_replies := map reply_of rs\<rparr>, Inr ())"
proof (cases "cs = []")
  case True
  then have "rs = []" using assms(2) by (cases rs) auto
  then show ?thesis using True by (simp add: reply_builder_init_def)
next
  case False
  then show ?thesis
    using rb_append_all_concat [OF rb_inv_init False] build_replies_decode [OF assms(1), of "[]"]
    by (simp add: rb_append_def reply_builder_init_def assms(2))
qed

text \<open>While the bytes come in, the queue only grows.\<close>

lemma build_reply_queue:
  "build_reply rb = (rb', r) \<Longrightarrow> prefix (rb_available_replies rb) (rb_available_replies rb')"
  by (auto simp: build_reply_def split: if_splits sum.splits prod.splits)

lemma build_replies_queue:
  "build_replies rb = (rb', r) \<Longrightarrow> prefix (rb_available_replies rb) (rb_available_replies rb')"
proof (induction rb rule: build_replies.induct)
  case (1 rb)
  obtain rb1 r1 where b: "build_reply rb = (rb1, r1)" by (cases "build_reply rb")
  note q = build_reply_queue [OF b]
  show ?case
    using 1(1) [OF b [symmetric]] 1(2) b q
    by (cases r1) (auto simp: build_replies.simps [of rb] split: if_splits intro: prefix_order.trans)
qed

lemma rb_append_queue:
  "rb_append rb d = (rb', r) \<Longrightarrow> prefix (rb_available_replies rb) (rb_available_replies rb')"
  using build_replies_queue by (fastforce simp: rb_append_def)

lemma rb_append_all_inv: "rb_inv rb \<Longrightarrow> rb_append_all rb cs = (rb', r) \<Longrightarrow> rb_inv rb'"
proof (induction cs arbitrary: rb)
  case (Cons c cs)
  obtain rb1 r1 where a: "rb_append rb c = (rb1, r1)" by (cases "rb_append rb c")
  have "rb_inv rb1" using rb_append_inv [OF Cons.prems(1) a] .
  then show ?case
    using Cons.IH [of rb1] Cons.prems(2) a by (cases r1) (auto simp: rb_inv_def)
qed simp

section \<open>Properties\<close>

text \<open>C2: streaming round trip. Whatever replies a server encodes and however the network
  cuts their bytes into packets, the reply builder throws nothing, keeps no bytes and
  queues exactly those replies in their order.\<close>

theorem streaming_round_trip:
  assumes "list_all sendable rs" "concat packets = concat (map encode rs)"
  shows "rb_append_all reply_builder_init packets =
    (reply_builder_init\<lparr>rb_available_replies := map reply_of rs\<rparr>, Inr ())"
  using assms by (rule rb_append_all_decode)

theorem streaming_round_trip_witness:
  "rb_append_all reply_builder_init [[CHR ''+'', CHR ''O''], [CHR ''K'', CR], [LF, CHR ''*'', CHR ''-''],
      [CHR ''1'', CR, LF]] =
    (reply_builder_init\<lparr>rb_available_replies := map reply_of [Simple ''OK'', Null_Array]\<rparr>, Inr ())"
  by (rule streaming_round_trip) (simp_all add: line_def crlf_def CR_def LF_def)

text \<open>C19: no reply is early, torn or out of order: after any prefix of the server's bytes
  the queue holds a prefix of the server's replies, and nothing has thrown.\<close>

theorem partial_stream_prefix:
  assumes "list_all sendable rs" "prefix (concat packets) (concat (map encode rs))"
  shows "\<exists>rb. rb_append_all reply_builder_init packets = (rb, Inr ()) \<and>
    prefix (rb_available_replies rb) (map reply_of rs)"
proof (cases "packets = []")
  case True
  then show ?thesis by (simp add: reply_builder_init_def)
next
  case False
  obtain d where d: "concat (map encode rs) = concat packets @ d" using assms(2) by (auto elim: prefixE)
  obtain rb r where a: "rb_append reply_builder_init (concat packets) = (rb, r)"
    by (cases "rb_append reply_builder_init (concat packets)")
  have "rb_append reply_builder_init (concat packets @ d) =
      (reply_builder_init\<lparr>rb_available_replies := map reply_of rs\<rparr>, Inr ())"
    using build_replies_decode [OF assms(1), of "[]"]
    by (simp add: rb_append_def reply_builder_init_def d [symmetric])
  then have "r = Inr ()" and "rb_append rb d =
      (reply_builder_init\<lparr>rb_available_replies := map reply_of rs\<rparr>, Inr ())"
    using rb_append_append [OF rb_inv_init, of "concat packets" d] a
    by (cases r; simp)+
  then show ?thesis
    using a rb_append_queue [of rb d] rb_append_all_concat [OF rb_inv_init False] by auto
qed

theorem partial_stream_prefix_witness:
  "\<exists>rb. rb_append_all reply_builder_init [[CHR ''+'', CHR ''O''], [CHR ''K'', CR]] = (rb, Inr ()) \<and>
    prefix (rb_available_replies rb) (map reply_of [Simple ''OK''])"
  by (rule partial_stream_prefix) (simp_all add: line_def crlf_def CR_def LF_def)

text \<open>C18: on any bytes, valid or not, and from any reachable state, the outcome, an
  exception included, depends on the bytes and not on the packets.\<close>

theorem packets_do_not_matter:
  assumes "rb_inv rb" "cs \<noteq> []" "ds \<noteq> []" "concat cs = concat ds"
  shows "rb_append_all rb cs = rb_append_all rb ds"
  using assms by (simp add: rb_append_all_concat)

theorem packets_do_not_matter_witness:
  "rb_append_all reply_builder_init [''+'', ''?x''] = rb_append_all reply_builder_init [''+?x'']"
  by (rule packets_do_not_matter) (simp_all add: rb_inv_init)

text \<open>C22: whatever bytes arrive, errors included, the builder in progress stays
  well-formed (an array never holds more rows than it declared) and every queued reply
  is well-formed.\<close>

theorem reply_builder_invariant:
  assumes "rb_inv rb"
  shows "rb_inv (fst (rb_append_all rb packets)) \<and> rb_inv (rb_reset rb) \<and>
    rb_inv (fst (pop_front rb))"
proof (intro conjI)
  show "rb_inv (fst (rb_append_all rb packets))"
    using rb_append_all_inv [OF assms] by (cases "rb_append_all rb packets") auto
  show "rb_inv (rb_reset rb)" using assms by (rule rb_inv_reset)
  show "rb_inv (fst (pop_front rb))"
    using assms by (cases "rb_available_replies rb") (auto simp: rb_inv_def pop_front_def reply_available_def)
qed

theorem reply_builder_invariant_witness:
  "rb_inv (fst (rb_append_all reply_builder_init [''*2'', [CR, LF, CHR ''x'']]))"
  using reply_builder_invariant [OF rb_inv_init] by blast

text \<open>\<open>reset\<close>, called when a connection ends, forgets the reply in progress and its
  bytes but not the replies already queued: they are still delivered to the next
  connection's reader.\<close>

lemma reset_keeps_queue:
  "reply_available (rb_reset rb) = reply_available rb \<and> get_front (rb_reset rb) = get_front rb \<and>
   rb_append (rb_reset rb) [] = (rb_reset rb, Inr ())"
  by (simp_all add: reply_available_def get_front_def rb_reset_def rb_append_def
      build_replies.simps build_reply_def)

end
