(* ===== verification/Connection.thy ===== *)
theory Connection
  imports Reply_Builder
begin

text \<open>
  \<open>network::redis_connection\<close> (sources/network/redis_connection.cpp) over the interface
  \<open>tcp_client_iface\<close> (includes/cpp_redis/network/tcp_client_iface.hpp). The TCP client
  itself is not part of the repository: its virtual methods are the record \<open>tcp_ops\<close>,
  an argument of every definition that calls them, over an unspecified state \<open>'t\<close>.

  A connection calls back into its owner (client, sentinel or subscriber). The handlers
  are the owner's methods, so the receive handler is a function of the owner's state,
  with the owner's access to its connection as arguments.
\<close>

section \<open>The TCP client interface\<close>

record 't tcp_ops =
  tcp_connect :: "string \<Rightarrow> nat \<Rightarrow> nat \<Rightarrow> 't \<Rightarrow> 't \<times> unit result"
  tcp_disconnect :: "bool \<Rightarrow> 't \<Rightarrow> 't"
  tcp_is_connected :: "'t \<Rightarrow> bool"
  tcp_async_read :: "nat \<Rightarrow> 't \<Rightarrow> 't \<times> unit result"
  tcp_async_write :: "string \<Rightarrow> 't \<Rightarrow> 't \<times> unit result"
  tcp_set_on_disconnection_handler :: "'t \<Rightarrow> 't"

record read_result =
  rr_success :: bool
  rr_buffer :: string

section \<open>State\<close>

text \<open>The two handlers are \<open>std::function\<close> objects; what matters here is whether they are
  set.\<close>

record 't connection =
  cn_client :: 't
  cn_reply_callback :: bool
  cn_disconnection_handler :: bool
  cn_builder :: reply_builder
  cn_buffer :: string

definition connection_init :: "'t \<Rightarrow> 't connection" where
  "connection_init t =
     \<lparr>cn_client = t, cn_reply_callback = False, cn_disconnection_handler = False,
      cn_builder = reply_builder_init, cn_buffer = []\<rparr>"

definition read_size :: nat where "read_size = 4096"

text \<open>\<open>catch (const std::exception& e) { throw redis_error(e.what()); }\<close>\<close>

fun rethrow_redis :: "error \<Rightarrow> error" where
  "rethrow_redis (Redis_Error w) = Redis_Error w"
| "rethrow_redis (Std_Exception w) = Redis_Error w"
| "rethrow_redis (Undefined_Behaviour u) = Undefined_Behaviour u"

section \<open>Operations\<close>

definition conn_connect ::
  "'t tcp_ops \<Rightarrow> string \<Rightarrow> nat \<Rightarrow> bool \<Rightarrow> bool \<Rightarrow> nat \<Rightarrow> 't connection \<Rightarrow> 't connection \<times> unit result"
where
  "conn_connect ops host port disconnection_handler reply_callback timeout_msecs c =
     (case tcp_connect ops host (port mod 2 ^ 32) timeout_msecs (cn_client c) of
        (t, Inl e) \<Rightarrow> (c\<lparr>cn_client := t\<rparr>, Inl (rethrow_redis e))
      | (t, Inr u) \<Rightarrow>
          (case tcp_async_read ops read_size (tcp_set_on_disconnection_handler ops t) of
             (t', Inl e) \<Rightarrow> (c\<lparr>cn_client := t'\<rparr>, Inl (rethrow_redis e))
           | (t', Inr u) \<Rightarrow>
               (c\<lparr>cn_client := t', cn_reply_callback := reply_callback,
                  cn_disconnection_handler := disconnection_handler\<rparr>, Inr ())))"

definition conn_disconnect :: "'t tcp_ops \<Rightarrow> bool \<Rightarrow> 't connection \<Rightarrow> 't connection" where
  "conn_disconnect ops wait_for_removal c =
     c\<lparr>cn_client := tcp_disconnect ops wait_for_removal (cn_client c),
       cn_buffer := [], cn_builder := rb_reset (cn_builder c)\<rparr>"

definition conn_is_connected :: "'t tcp_ops \<Rightarrow> 't connection \<Rightarrow> bool" where
  "conn_is_connected ops c = tcp_is_connected ops (cn_client c)"

definition build_command :: "string list \<Rightarrow> string" where
  "build_command redis_cmd =
     foldl (\<lambda>cmd part. cmd @ ''$'' @ to_string_nat (length part) @ crlf @ part @ crlf)
       (''*'' @ to_string_nat (length redis_cmd) @ crlf) redis_cmd"

definition conn_send :: "string list \<Rightarrow> 't connection \<Rightarrow> 't connection" where
  "conn_send redis_cmd c = c\<lparr>cn_buffer := cn_buffer c @ build_command redis_cmd\<rparr>"

text \<open>\<open>std::string buffer = std::move(m_buffer)\<close> leaves the member empty.\<close>

definition conn_commit :: "'t tcp_ops \<Rightarrow> 't connection \<Rightarrow> 't connection \<times> unit result" where
  "conn_commit ops c =
     (case tcp_async_write ops (cn_buffer c) (cn_client c) of
        (t, Inl e) \<Rightarrow> (c\<lparr>cn_client := t, cn_buffer := []\<rparr>, Inl (rethrow_redis e))
      | (t, Inr u) \<Rightarrow> (c\<lparr>cn_client := t, cn_buffer := []\<rparr>, Inr ()))"

section \<open>Handlers\<close>

text \<open>\<open>get_conn\<close> and \<open>put_conn\<close> are the owner's access to its connection; \<open>on_reply\<close> and
  \<open>on_disconnection\<close> the methods it registered. The latter may reconnect for ever, hence
  its option.\<close>

definition call_disconnection_handler ::
  "('s \<Rightarrow> 't connection) \<Rightarrow> ('s \<Rightarrow> ('s \<times> unit result) option) \<Rightarrow> 's \<Rightarrow> ('s \<times> unit result) option"
where
  "call_disconnection_handler get_conn on_disconnection s =
     (if cn_disconnection_handler (get_conn s) then on_disconnection s else Some (s, Inr ()))"

text \<open>The loop \<open>while (m_builder.reply_available())\<close> runs the owner's callback, which may
  do anything to the owner, so it is a partial function: \<open>None\<close> if it never ends.\<close>

partial_function (option) deliver_replies ::
  "('s \<Rightarrow> 't connection) \<Rightarrow> ('t connection \<Rightarrow> 's \<Rightarrow> 's) \<Rightarrow> (reply \<Rightarrow> 's \<Rightarrow> 's \<times> unit result) \<Rightarrow>
   's \<Rightarrow> ('s \<times> unit result) option"
where
  "deliver_replies get_conn put_conn on_reply s =
     (let c = get_conn s
      in if \<not> reply_available (cn_builder c) then Some (s, Inr ())
         else case get_front (cn_builder c) of
           Inl e \<Rightarrow> Some (s, Inl e)
         | Inr r \<Rightarrow>
             let s' = put_conn (c\<lparr>cn_builder := fst (pop_front (cn_builder c))\<rparr>) s
             in if cn_reply_callback c
                then (case on_reply r s' of
                        (s'', Inl e) \<Rightarrow> Some (s'', Inl e)
                      | (s'', Inr u) \<Rightarrow> deliver_replies get_conn put_conn on_reply s'')
                else deliver_replies get_conn put_conn on_reply s')"

definition tcp_client_receive_handler ::
  "'t tcp_ops \<Rightarrow> ('s \<Rightarrow> 't connection) \<Rightarrow> ('t connection \<Rightarrow> 's \<Rightarrow> 's) \<Rightarrow>
   (reply \<Rightarrow> 's \<Rightarrow> 's \<times> unit result) \<Rightarrow> ('s \<Rightarrow> ('s \<times> unit result) option) \<Rightarrow>
   read_result \<Rightarrow> 's \<Rightarrow> ('s \<times> unit result) option"
where
  "tcp_client_receive_handler ops get_conn put_conn on_reply on_disconnection res s =
     (if \<not> rr_success res then Some (s, Inr ())
      else let c = get_conn s
        in case rb_append (cn_builder c) (rr_buffer res) of
          (rb, Inl e) \<Rightarrow>
            (let s' = put_conn (c\<lparr>cn_builder := rb\<rparr>) s
             in if is_redis_error e
                then call_disconnection_handler get_conn on_disconnection s'
                else Some (s', Inl e))
        | (rb, Inr u) \<Rightarrow>
            (case deliver_replies get_conn put_conn on_reply (put_conn (c\<lparr>cn_builder := rb\<rparr>) s) of
               None \<Rightarrow> None
             | Some (s', Inl e) \<Rightarrow> Some (s', Inl e)
             | Some (s', Inr u) \<Rightarrow>
                 (let c' = get_conn s'; (t, r) = tcp_async_read ops read_size (cn_client c')
                  in Some (put_conn (c'\<lparr>cn_client := t\<rparr>) s',
                       case r of
                         Inl e \<Rightarrow> if is_exception e then Inr () else Inl e
                       | Inr u \<Rightarrow> Inr ()))))"

definition tcp_client_disconnection_handler ::
  "('s \<Rightarrow> 't connection) \<Rightarrow> ('t connection \<Rightarrow> 's \<Rightarrow> 's) \<Rightarrow> ('s \<Rightarrow> ('s \<times> unit result) option) \<Rightarrow>
   's \<Rightarrow> ('s \<times> unit result) option"
where
  "tcp_client_disconnection_handler get_conn put_conn on_disconnection s =
     (let c = get_conn s
      in call_disconnection_handler get_conn on_disconnection
           (put_conn (c\<lparr>cn_buffer := [], cn_builder := rb_reset (cn_builder c)\<rparr>) s))"

section \<open>Commands on the wire\<close>

text \<open>The bytes of a command are those of an array of bulk strings, so a server reads it
  with the grammar the replies have.\<close>

lemma build_command_foldl:
  "foldl (\<lambda>cmd part. cmd @ ''$'' @ to_string_nat (length part) @ crlf @ part @ crlf) acc ws =
    acc @ concat (map (\<lambda>w. encode (Bulk w)) ws)"
  by (induction ws arbitrary: acc) (simp_all add: line_def)

lemma build_command_encode: "build_command ws = encode (Array (map Bulk ws))"
  by (simp add: build_command_def build_command_foldl [simplified] line_def comp_def)

definition command_fits :: "string list \<Rightarrow> bool" where
  "command_fits ws \<longleftrightarrow> length ws < 2 ^ 63 \<and> (\<forall>w \<in> set ws. length w + 2 < 2 ^ 31)"

lemma command_fits_sendable: "command_fits ws \<Longrightarrow> sendable (Array (map Bulk ws))"
  by (simp add: command_fits_def list_all_iff)

lemma reply_of_command: "reply_of (Array (map Bulk ws)) =
    reply_array (map (\<lambda>w. reply_string w String_bulk_string) ws)"
  by (simp add: comp_def)

lemma reply_of_command_inj:
  "reply_of (Array (map Bulk ws)) = reply_of (Array (map Bulk vs)) \<Longrightarrow> ws = vs"
  by (auto simp: reply_array_def reply_string_def comp_def intro: map_injective injI)

text \<open>A pipeline: the commands of several \<open>send\<close> calls, in order.\<close>

lemma conn_send_all:
  "fold conn_send cmds c = c\<lparr>cn_buffer := cn_buffer c @ concat (map build_command cmds)\<rparr>"
  by (induction cmds arbitrary: c) (simp_all add: conn_send_def)

lemma conn_send_all_buffer:
  "cn_buffer (fold conn_send cmds c) = cn_buffer c @ concat (map build_command cmds)"
  by (simp add: conn_send_all)

lemma pipeline_decode:
  assumes "list_all command_fits cmds" "concat cs = concat (map build_command cmds)"
  shows "rb_append_all reply_builder_init cs =
    (reply_builder_init\<lparr>rb_available_replies :=
       map (\<lambda>ws. reply_of (Array (map Bulk ws))) cmds\<rparr>, Inr ())"
proof -
  have "concat (map build_command cmds) = concat (map encode (map (\<lambda>ws. Array (map Bulk ws)) cmds))"
    by (induction cmds) (simp_all add: build_command_encode del: encode.simps)
  moreover have "list_all sendable (map (\<lambda>ws. Array (map Bulk ws)) cmds)"
    using assms(1) command_fits_sendable by (auto simp: list_all_iff simp del: sendable.simps)
  ultimately show ?thesis
    using rb_append_all_decode [of "map (\<lambda>ws. Array (map Bulk ws)) cmds" cs] assms(2)
    by (simp add: comp_def del: reply_of.simps)
qed

text \<open>Two pipelines with the same bytes are the same commands: no words can inject a command
  or change the boundaries of another.\<close>

lemma build_commands_inj:
  assumes "list_all command_fits cmds" "list_all command_fits cmds'"
  shows "concat (map build_command cmds) = concat (map build_command cmds') \<longleftrightarrow> cmds = cmds'"
proof
  assume eq: "concat (map build_command cmds) = concat (map build_command cmds')"
  have "map (\<lambda>ws. reply_of (Array (map Bulk ws))) cmds = map (\<lambda>ws. reply_of (Array (map Bulk ws))) cmds'"
    using pipeline_decode [OF assms(1), of "[concat (map build_command cmds)]"]
      pipeline_decode [OF assms(2), of "[concat (map build_command cmds)]"] eq
    by (simp add: reply_builder_init_def del: reply_of.simps)
  then show "cmds = cmds'"
    by (rule map_injective) (simp add: inj_def reply_of_command_inj del: reply_of.simps)
qed simp

section \<open>Owners of a connection\<close>

text \<open>Delivering one reply after the other, the queue shrinking before each call.\<close>

fun deliver_list ::
  "('s \<Rightarrow> 't connection) \<Rightarrow> ('t connection \<Rightarrow> 's \<Rightarrow> 's) \<Rightarrow> (reply \<Rightarrow> 's \<Rightarrow> 's \<times> unit result) \<Rightarrow>
   reply list \<Rightarrow> 's \<Rightarrow> 's \<times> unit result"
where
  "deliver_list get_conn put_conn on_reply [] s = (s, Inr ())"
| "deliver_list get_conn put_conn on_reply (r # rs) s =
     (let c = get_conn s;
          s' = put_conn (c\<lparr>cn_builder := (cn_builder c)\<lparr>rb_available_replies := rs\<rparr>\<rparr>) s
      in if cn_reply_callback c
         then (case on_reply r s' of
                 (s'', Inl e) \<Rightarrow> (s'', Inl e)
               | (s'', Inr u) \<Rightarrow> deliver_list get_conn put_conn on_reply rs s'')
         else deliver_list get_conn put_conn on_reply rs s')"

text \<open>What a class that owns a connection promises: its access functions are a getter
  and a setter, and its reply handler adds no replies to the connection's queue and
  takes none. Then the delivery loop ends and hands over the queue in order.\<close>

locale connection_owner =
  fixes get_conn :: "'s \<Rightarrow> 't connection"
    and put_conn :: "'t connection \<Rightarrow> 's \<Rightarrow> 's"
    and on_reply :: "reply \<Rightarrow> 's \<Rightarrow> 's \<times> unit result"
  assumes get_put: "get_conn (put_conn c s) = c"
    and on_reply_queue: "on_reply r s = (s', res) \<Longrightarrow>
      rb_available_replies (cn_builder (get_conn s')) =
      rb_available_replies (cn_builder (get_conn s))"
begin

lemma deliver_replies_list:
  "rb_available_replies (cn_builder (get_conn s)) = rs \<Longrightarrow>
   deliver_replies get_conn put_conn on_reply s = Some (deliver_list get_conn put_conn on_reply rs s)"
proof (induction rs arbitrary: s)
  case Nil
  then show ?case
    by (subst deliver_replies.simps) (simp add: Let_def reply_available_def)
next
  case (Cons r rs)
  let ?c = "get_conn s"
  let ?s' = "put_conn (?c\<lparr>cn_builder := (cn_builder ?c)\<lparr>rb_available_replies := rs\<rparr>\<rparr>) s"
  have front: "reply_available (cn_builder ?c)" "get_front (cn_builder ?c) = Inr r"
    "fst (pop_front (cn_builder ?c)) = (cn_builder ?c)\<lparr>rb_available_replies := rs\<rparr>"
    using Cons.prems by (simp_all add: reply_available_def get_front_def pop_front_def)
  have q: "rb_available_replies (cn_builder (get_conn ?s')) = rs" by (simp add: get_put)
  show ?case
  proof (cases "cn_reply_callback ?c")
    case False
    then show ?thesis
      using front Cons.IH [OF q] by (subst deliver_replies.simps) (simp add: Let_def)
  next
    case True
    obtain s'' res where h: "on_reply r ?s' = (s'', res)" by (cases "on_reply r ?s'")
    have "rb_available_replies (cn_builder (get_conn s'')) = rs"
      using on_reply_queue [OF h] q by simp
    then show ?thesis
      using front True h Cons.IH [of s'']
      by (subst deliver_replies.simps) (cases res; simp add: Let_def)
  qed
qed

text \<open>So the receive handler returns if the disconnection handler does.\<close>

lemma receive_handler_returns:
  assumes "\<And>s. on_disconnection s \<noteq> None"
  shows "tcp_client_receive_handler ops get_conn put_conn on_reply on_disconnection res s \<noteq> None"
  using assms
  by (auto simp: tcp_client_receive_handler_def call_disconnection_handler_def Let_def
      deliver_replies_list get_put split: prod.splits sum.splits)

text \<open>What every step keeps, the handler keeps.\<close>

lemma deliver_list_invariant:
  assumes "\<And>c s. P s \<Longrightarrow> P (put_conn c s)"
    and "\<And>r s s' res. P s \<Longrightarrow> on_reply r s = (s', res) \<Longrightarrow> P s'"
  shows "P s \<Longrightarrow> deliver_list get_conn put_conn on_reply rs s = (s', res) \<Longrightarrow> P s'"
proof (induction rs arbitrary: s)
  case (Cons r rs)
  let ?s1 = "put_conn ((get_conn s)\<lparr>cn_builder := (cn_builder (get_conn s))
    \<lparr>rb_available_replies := rs\<rparr>\<rparr>) s"
  have p1: "P ?s1" using assms(1) Cons.prems(1) by blast
  obtain s2 r2 where h: "on_reply r ?s1 = (s2, r2)" by (cases "on_reply r ?s1")
  have p2: "P s2" using assms(2) [OF p1 h] .
  show ?case
    using Cons.prems(2) Cons.IH [OF p1] Cons.IH [OF p2] h p2
    by (cases r2) (auto simp: Let_def split: if_splits)
qed simp

lemma receive_handler_invariant:
  assumes "P s" "\<And>c s. P s \<Longrightarrow> P (put_conn c s)"
    and "\<And>r s s' res. P s \<Longrightarrow> on_reply r s = (s', res) \<Longrightarrow> P s'"
    and "\<And>s s' res. P s \<Longrightarrow> on_disconnection s = Some (s', res) \<Longrightarrow> P s'"
    and "tcp_client_receive_handler ops get_conn put_conn on_reply on_disconnection res s = Some (s', q)"
  shows "P s'"
proof -
  obtain rb a where a: "rb_append (cn_builder (get_conn s)) (rr_buffer res) = (rb, a)"
    by (cases "rb_append (cn_builder (get_conn s)) (rr_buffer res)")
  let ?s1 = "put_conn ((get_conn s)\<lparr>cn_builder := rb\<rparr>) s"
  have p1: "P ?s1" using assms(1,2) by blast
  obtain s2 r2 where d: "deliver_list get_conn put_conn on_reply (rb_available_replies rb) ?s1 = (s2, r2)"
    by (cases "deliver_list get_conn put_conn on_reply (rb_available_replies rb) ?s1")
  have p2: "P s2"
    using assms(2,3) by (rule deliver_list_invariant [of P, OF _ _ p1 d])
  have dl: "deliver_replies get_conn put_conn on_reply ?s1 = Some (s2, r2)"
    using deliver_replies_list [OF refl, of ?s1] d by (simp add: get_put)
  show ?thesis
  proof (cases "rr_success res")
    case False
    then show ?thesis using assms(1,5) by (simp add: tcp_client_receive_handler_def)
  next
    case True
    then show ?thesis
      using assms(5) a p1 p2 dl assms(2) assms(4) [OF p1]
      by (cases a; cases r2)
        (auto simp: tcp_client_receive_handler_def call_disconnection_handler_def Let_def
          split: if_splits prod.splits)
  qed
qed

lemma disconnection_handler_invariant:
  assumes "P s" "\<And>c s. P s \<Longrightarrow> P (put_conn c s)"
    and "\<And>s s' res. P s \<Longrightarrow> on_disconnection s = Some (s', res) \<Longrightarrow> P s'"
    and "tcp_client_disconnection_handler get_conn put_conn on_disconnection s = Some (s', q)"
  shows "P s'"
proof -
  let ?s1 = "put_conn ((get_conn s)\<lparr>cn_buffer := [], cn_builder := rb_reset (cn_builder (get_conn s))\<rparr>) s"
  have p: "P ?s1" using assms(1,2) by blast
  show ?thesis
    using assms(3) [OF p] assms(4) p
    by (simp add: tcp_client_disconnection_handler_def call_disconnection_handler_def Let_def
        split: if_splits)
qed

lemma receive_handler_ok:
  assumes "rr_success res" "rb_append (cn_builder (get_conn s)) (rr_buffer res) = (rb, Inr u)"
  shows "tcp_client_receive_handler ops get_conn put_conn on_reply on_disconnection res s =
    (case deliver_list get_conn put_conn on_reply (rb_available_replies rb)
        (put_conn ((get_conn s)\<lparr>cn_builder := rb\<rparr>) s) of
       (s', Inl e) \<Rightarrow> Some (s', Inl e)
     | (s', Inr u) \<Rightarrow>
         Some (put_conn ((get_conn s')\<lparr>cn_client :=
              fst (tcp_async_read ops read_size (cn_client (get_conn s')))\<rparr>) s',
           case snd (tcp_async_read ops read_size (cn_client (get_conn s'))) of
             Inl e \<Rightarrow> if is_exception e then Inr () else Inl e
           | Inr u \<Rightarrow> Inr ()))"
  using assms deliver_replies_list [OF refl, of "put_conn ((get_conn s)\<lparr>cn_builder := rb\<rparr>) s"]
  by (auto simp: tcp_client_receive_handler_def Let_def get_put split: prod.splits sum.splits)

end

section \<open>Properties\<close>

text \<open>A pipeline is unambiguous. The bytes of any sequence of \<open>send\<close> calls, cut in any
  way, are read back (by the library's own reader) as those commands, one by one.\<close>

lemma pipeline_round_trip:
  assumes "list_all command_fits cmds" "cn_buffer c = []"
    and "concat packets = cn_buffer (fold conn_send cmds c)"
  shows "rb_append_all reply_builder_init packets =
    (reply_builder_init\<lparr>rb_available_replies :=
       map (\<lambda>ws. reply_array (map (\<lambda>w. reply_string w String_bulk_string) ws)) cmds\<rparr>, Inr ())"
  using pipeline_decode [OF assms(1), of packets] assms(2,3)
  by (simp add: conn_send_all_buffer reply_of_command comp_def)

text \<open>A TCP client whose state says whether it is connected: an instance for witnesses.\<close>

definition flag_ops :: "bool tcp_ops" where
  "flag_ops =
     \<lparr>tcp_connect = (\<lambda>_ _ _ _. (True, Inr ())), tcp_disconnect = (\<lambda>_ _. False),
      tcp_is_connected = (\<lambda>t. t),
      tcp_async_read = (\<lambda>_ t. (t, if t then Inr () else Inl (Std_Exception ''not connected''))),
      tcp_async_write = (\<lambda>_ t. (t, if t then Inr () else Inl (Std_Exception ''not connected''))),
      tcp_set_on_disconnection_handler = (\<lambda>t. t)\<rparr>"

text \<open>A TCP client that is always reachable and keeps what is written to it: an instance
  for witnesses.\<close>

definition tape_ops :: "string tcp_ops" where
  "tape_ops =
     \<lparr>tcp_connect = (\<lambda>_ _ _ t. (t, Inr ())), tcp_disconnect = (\<lambda>_ t. t),
      tcp_is_connected = (\<lambda>_. True), tcp_async_read = (\<lambda>_ t. (t, Inr ())),
      tcp_async_write = (\<lambda>bytes t. (t @ bytes, Inr ())), tcp_set_on_disconnection_handler = (\<lambda>t. t)\<rparr>"

text \<open>\<open>commit\<close> hands the whole buffer to the socket in one write and empties it, even
  when the write throws; what it throws is then a redis error.\<close>

lemma commit_flushes:
  assumes "tcp_async_write ops (cn_buffer c) (cn_client c) = (t, r)"
    and "\<And>e. r = Inl e \<Longrightarrow> is_exception e"
  shows "conn_commit ops c = (c\<lparr>cn_client := t, cn_buffer := []\<rparr>,
      case r of Inr u \<Rightarrow> Inr () | Inl e \<Rightarrow> Inl (rethrow_redis e)) \<and>
    (snd (conn_commit ops c) = Inl e \<longrightarrow> is_redis_error e)"
proof (intro conjI)
  show "conn_commit ops c = (c\<lparr>cn_client := t, cn_buffer := []\<rparr>,
      case r of Inr u \<Rightarrow> Inr () | Inl e \<Rightarrow> Inl (rethrow_redis e))"
    using assms(1) by (cases r; simp add: conn_commit_def)
  show "snd (conn_commit ops c) = Inl e \<longrightarrow> is_redis_error e"
  proof (cases r)
    case (Inl e')
    then show ?thesis using assms by (cases e') (auto simp: conn_commit_def)
  qed (use assms(1) in \<open>simp add: conn_commit_def\<close>)
qed

end
