(* ===== verification/Pipeline.thy ===== *)
theory Pipeline
  imports Connection
begin

text \<open>
  What the client and the sentinel have in common: requests go into a queue of callbacks
  as their bytes go into the send buffer, and each reply is handed to the callback at the
  front. And what the client and the subscriber have in common: the reconnection loop
  of their disconnection handlers. Each is a contract (a locale) with its consequences,
  interpreted by the classes in their own theories.
\<close>

section \<open>Request queues\<close>

text \<open>\<open>take_all take n s\<close>: the callbacks of the next \<open>n\<close> replies.\<close>

fun take_all :: "('s \<Rightarrow> 'c option \<times> 's) \<Rightarrow> nat \<Rightarrow> 's \<Rightarrow> 'c option list \<times> 's" where
  "take_all next_request 0 s = ([], s)"
| "take_all next_request (Suc n) s =
     (let (c, s') = next_request s; (cs, s'') = take_all next_request n s' in (c # cs, s''))"

locale request_pipeline =
  fixes pending :: "'s \<Rightarrow> 'c list"
    and unsent :: "'s \<Rightarrow> string"
    and submit :: "string list \<Rightarrow> 'c \<Rightarrow> 's \<Rightarrow> 's"
    and next_request :: "'s \<Rightarrow> 'c option \<times> 's"
  assumes pending_submit: "pending (submit ws c s) = pending s @ [c]"
    and unsent_submit: "unsent (submit ws c s) = unsent s @ build_command ws"
    and next_empty: "pending s = [] \<Longrightarrow> fst (next_request s) = None \<and> pending (snd (next_request s)) = []"
    and next_Cons: "pending s = c # cs \<Longrightarrow>
      fst (next_request s) = Some c \<and> pending (snd (next_request s)) = cs"
    and unsent_next: "unsent (snd (next_request s)) = unsent s"
begin

lemma submit_all:
  "pending (fold (\<lambda>(ws, c). submit ws c) rs s) = pending s @ map snd rs"
  "unsent (fold (\<lambda>(ws, c). submit ws c) rs s) = unsent s @ concat (map (build_command \<circ> fst) rs)"
  by (induction rs arbitrary: s) (auto simp: pending_submit unsent_submit)

lemma take_all_pending:
  "n \<le> length (pending s) \<Longrightarrow>
   fst (take_all next_request n s) = map Some (take n (pending s)) \<and>
   pending (snd (take_all next_request n s)) = drop n (pending s)"
proof (induction n arbitrary: s)
  case 0
  then show ?case by simp
next
  case (Suc n)
  then obtain c cs where p: "pending s = c # cs" by (cases "pending s") auto
  obtain s' where n: "next_request s = (Some c, s')" "pending s' = cs"
    using next_Cons [OF p] by (cases "next_request s") auto
  show ?case
    using Suc.IH [of s'] Suc.prems p n by (auto simp: Let_def split: prod.splits)
qed

text \<open>The pipelining guarantee: the bytes that go out are those of the requests in
  order, and the \<open>k\<close>-th reply is handed to the callback of the \<open>k\<close>-th request.\<close>

lemma pipelined:
  assumes "pending s = []"
  shows "fst (take_all next_request (length rs) (fold (\<lambda>(ws, c). submit ws c) rs s))
      = map (Some \<circ> snd) rs"
    and "unsent (fold (\<lambda>(ws, c). submit ws c) rs s) = unsent s @ concat (map (build_command \<circ> fst) rs)"
  using take_all_pending [of "length rs" "fold (\<lambda>(ws, c). submit ws c) rs s"] submit_all [of rs s] assms
  by (simp_all add: comp_def)

end

section \<open>Waiting for replies\<close>

text \<open>What the TCP client reports, in the order of its calls.\<close>

datatype net_event =
    Net_Read read_result
  | Net_Disconnected

text \<open>\<open>m_sync_condvar.wait(lock, predicate)\<close> against the events still to come: the predicate
  is looked at before each of them. \<open>None\<close>: the wait does not return. An exception that
  leaves a handler reaches the TCP client's thread, whose code is not in the repository;
  it ends the run.\<close>

fun wait_until ::
  "('s \<Rightarrow> bool) \<Rightarrow> ('e \<Rightarrow> 's \<Rightarrow> ('s \<times> unit result) option) \<Rightarrow> 'e list \<Rightarrow> 's \<Rightarrow>
   ('s \<times> unit result) option"
where
  "wait_until ready handle [] s = (if ready s then Some (s, Inr ()) else None)"
| "wait_until ready handle (ev # evs) s =
     (if ready s then Some (s, Inr ())
      else case handle ev s of
        None \<Rightarrow> None
      | Some (s', Inl e) \<Rightarrow> Some (s', Inl e)
      | Some (s', Inr u) \<Rightarrow> wait_until ready handle evs s')"

text \<open>\<open>wait_for(lock, timeout, predicate)\<close>: the events are those before the deadline, and the
  value is the predicate's at the end. \<open>wait_log\<close> is the line \<open>sync_commit\<close> logs then.\<close>

fun wait_for ::
  "('s \<Rightarrow> bool) \<Rightarrow> ('e \<Rightarrow> 's \<Rightarrow> ('s \<times> unit result) option) \<Rightarrow> 'e list \<Rightarrow> 's \<Rightarrow>
   ('s \<times> bool result) option"
where
  "wait_for ready handle [] s = Some (s, Inr (ready s))"
| "wait_for ready handle (ev # evs) s =
     (if ready s then Some (s, Inr True)
      else case handle ev s of
        None \<Rightarrow> None
      | Some (s', Inl e) \<Rightarrow> Some (s', Inl e)
      | Some (s', Inr u) \<Rightarrow> wait_for ready handle evs s')"

definition wait_log :: "bool \<Rightarrow> string" where
  "wait_log ready =
     (if \<not> ready then ''finished waiting for callback'' else ''timed out waiting for callback'')"

lemma wait_for_value:
  "wait_for ready handle evs s = Some (s', Inr b) \<Longrightarrow> b = ready s'"
  by (induction ready handle evs s rule: wait_for.induct)
    (auto split: if_splits option.splits sum.splits prod.splits)

text \<open>The log has the two outcomes the wrong way round.\<close>

lemma wait_log_swapped:
  "wait_for ready handle evs s = Some (s', Inr b) \<Longrightarrow>
    (wait_log b = ''timed out waiting for callback'') = ready s'"
  using wait_for_value [of ready handle evs s s' b] by (simp add: wait_log_def)

text \<open>Waiting without a deadline is waiting with one, if the predicate holds in time.\<close>

lemma wait_until_for:
  "wait_until ready handle evs s = Some (s', Inr ()) \<longleftrightarrow> wait_for ready handle evs s = Some (s', Inr True)"
  by (induction ready handle evs s rule: wait_for.induct) (auto split: option.splits sum.splits)

lemma wait_until_ready:
  "wait_until ready handle evs s = Some (s', Inr u) \<Longrightarrow> ready s'"
  by (induction ready handle evs s rule: wait_until.induct)
    (auto split: if_splits option.splits sum.splits prod.splits)

lemma wait_until_blocks:
  assumes "\<And>ev s s' u. P s \<Longrightarrow> handle ev s = Some (s', Inr u) \<Longrightarrow> P s'"
    and "\<And>s. P s \<Longrightarrow> \<not> ready s"
  shows "P s \<Longrightarrow> wait_until ready handle evs s \<noteq> Some (s', Inr u)"
  using assms(1) assms(2)
  by (induction ready handle evs s rule: wait_until.induct)
    (fastforce split: if_splits option.splits sum.splits prod.splits)+

section \<open>Reconnection loops\<close>

text \<open>The states both classes report to the connect callback.\<close>

datatype connect_state =
    CS_dropped
  | CS_start
  | CS_sleeping
  | CS_ok
  | CS_failed
  | CS_lookup_failed
  | CS_stopped

text \<open>\<open>while (should_reconnect()) { ...; reconnect(); }\<close>: without a bound on the attempts it
  may run for ever (\<open>None\<close>); an exception leaves it.\<close>

partial_function (option) reconnect_loop ::
  "('s \<Rightarrow> bool) \<Rightarrow> ('s \<Rightarrow> ('s \<times> unit result) option) \<Rightarrow> 's \<Rightarrow> ('s \<times> unit result) option"
where
  "reconnect_loop should body s =
     (if \<not> should s then Some (s, Inr ())
      else case body s of
        None \<Rightarrow> None
      | Some (s', r) \<Rightarrow>
          (case r of Inl e \<Rightarrow> Some (s', Inl e) | Inr u \<Rightarrow> reconnect_loop should body s'))"

lemma reconnect_loop_invariant:
  "reconnect_loop sh bd s = Some (s', r) \<Longrightarrow> P s \<Longrightarrow>
   (\<And>s s' r. P s \<Longrightarrow> sh s \<Longrightarrow> bd s = Some (s', r) \<Longrightarrow> P s') \<Longrightarrow> P s'"
proof (induction "(s', r)" rule: reconnect_loop.raw_induct [rotated, consumes 1, case_names step])
  case (step loop sh bd s)
  show ?case
  proof (cases "sh s")
    case False
    then show ?thesis using step(2,3) by simp
  next
    case True
    then obtain s1 r1 where b: "bd s = Some (s1, r1)"
      using step(2) by (auto split: option.splits)
    have p: "P s1" using step(4) [OF step(3) True b] .
    show ?thesis
    proof (cases r1)
      case (Inl e)
      then show ?thesis using step(2) True b p by simp
    next
      case (Inr u)
      then have "loop sh bd s1 = Some (s', r)" using step(2) True b by simp
      from step(1) [OF this p step(4)] show ?thesis .
    qed
  qed
qed

text \<open>The same for a loop that ends normally, whose rounds then all did.\<close>

lemma reconnect_loop_ok_invariant_aux:
  "reconnect_loop sh bd s = Some out \<Longrightarrow> out = (s', Inr u) \<Longrightarrow> P s \<Longrightarrow>
   (\<And>s s' u. P s \<Longrightarrow> sh s \<Longrightarrow> bd s = Some (s', Inr u) \<Longrightarrow> P s') \<Longrightarrow> P s'"
proof (induction arbitrary: u rule: reconnect_loop.raw_induct [rotated, consumes 1, case_names step])
  case (step loop sh bd s out)
  show ?case
  proof (cases "sh s")
    case False
    then show ?thesis using step(2,3,4) by simp
  next
    case True
    then obtain s1 u1 where b: "bd s = Some (s1, Inr u1)" and l: "loop sh bd s1 = Some out"
      using step(2,3) by (auto split: option.splits sum.splits prod.splits)
    show ?thesis by (rule step(1) [OF l step(3) step(5) [OF step(4) True b] step(5)])
  qed
qed

lemmas reconnect_loop_ok_invariant = reconnect_loop_ok_invariant_aux [OF _ refl]

locale reconnecting =
  fixes should :: "'s \<Rightarrow> bool"
    and body :: "'s \<Rightarrow> ('s \<times> unit result) option"
    and attempts :: "'s \<Rightarrow> int"
    and max_attempts :: "'s \<Rightarrow> int"
  assumes should_bound: "should s \<Longrightarrow> max_attempts s = -1 \<or> attempts s < max_attempts s"
    and body_attempts: "body s = Some (s', Inr u) \<Longrightarrow>
      attempts s' = attempts s + 1 \<and> max_attempts s' = max_attempts s"
begin

text \<open>If every attempt returns and the number of attempts is bounded, the loop ends.\<close>

lemma bounded_loop_returns:
  assumes body: "\<And>s. P s \<Longrightarrow> body s \<noteq> None" and inv: "\<And>s s' u. P s \<Longrightarrow> body s = Some (s', Inr u) \<Longrightarrow> P s'"
    and start: "P s" "max_attempts s \<noteq> -1"
  shows "reconnect_loop should body s \<noteq> None"
  using start
proof (induction "nat (max_attempts s - attempts s)" arbitrary: s rule: less_induct)
  case less
  show ?case
  proof (cases "should s")
    case False
    then show ?thesis by (simp add: reconnect_loop.simps)
  next
    case True
    obtain s' r where b: "body s = Some (s', r)" using body [OF less.prems(1)] by auto
    show ?thesis
    proof (cases r)
      case (Inl e)
      then show ?thesis using True b by (simp add: reconnect_loop.simps)
    next
      case (Inr u)
      have a: "attempts s' = attempts s + 1" "max_attempts s' = max_attempts s"
        using body_attempts b Inr by auto
      have "P s'" using inv [OF less.prems(1)] b Inr by blast
      moreover have "attempts s < max_attempts s" using should_bound [OF True] less.prems by simp
      ultimately have "reconnect_loop should body s' \<noteq> None"
        using less.hyps [of s'] less.prems a by simp
      then show ?thesis using True b Inr by (simp add: reconnect_loop.simps)
    qed
  qed
qed

text \<open>When it ends without an exception, there is nothing left to try, and the attempts
  counted are those made: none past the bound.\<close>

lemma loop_result_aux:
  "reconnect_loop sh bd s = Some out \<Longrightarrow> sh = should \<and> bd = body \<Longrightarrow> out = (s', Inr u) \<Longrightarrow>
    \<not> should s' \<and> attempts s \<le> attempts s' \<and> max_attempts s' = max_attempts s \<and>
    (max_attempts s \<noteq> -1 \<and> attempts s \<le> max_attempts s \<longrightarrow> attempts s' \<le> max_attempts s)"
proof (induction arbitrary: s' u rule: reconnect_loop.raw_induct [rotated, consumes 1, case_names step])
  case (step loop sh bd s out)
  show ?case
  proof (cases "should s")
    case False
    then show ?thesis using step(2-) by auto
  next
    case True
    then obtain s1 u1 where b: "body s = Some (s1, Inr u1)" and l: "loop sh bd s1 = Some out"
      using step(2,3,4) by (auto split: option.splits sum.splits prod.splits)
    have a: "attempts s1 = attempts s + 1" "max_attempts s1 = max_attempts s"
      using body_attempts [OF b] by auto
    show ?thesis
      using step(1) [OF l step(3,4)] a should_bound [OF True] by auto
  qed
qed

lemma loop_result:
  assumes "reconnect_loop should body s = Some (s', Inr u)"
  shows "\<not> should s'" "attempts s \<le> attempts s'" "max_attempts s' = max_attempts s"
    "max_attempts s \<noteq> -1 \<Longrightarrow> attempts s \<le> max_attempts s \<Longrightarrow> attempts s' \<le> max_attempts s"
  using loop_result_aux [OF assms] by auto

end

end
