(* ===== verification/Delivery.thy ===== *)
theory Delivery
  imports Pipeline
begin

text \<open>
  From the packets on a socket to the calls of an owner's reply handler. An owner whose
  handler leaves the connection alone sees, whatever the packets, exactly the replies in
  the bytes, each once and in order; and a thread that waits for a predicate on the owner is
  served by the same events.
\<close>

section \<open>The queue of the builder\<close>

text \<open>\<open>rb_queued q rb\<close>: \<open>rb\<close> with the replies \<open>q\<close> before those of its queue. Building does
  not look at the queue.\<close>

abbreviation rb_queued :: "reply list \<Rightarrow> reply_builder \<Rightarrow> reply_builder" where
  "rb_queued q rb \<equiv> rb\<lparr>rb_available_replies := q @ rb_available_replies rb\<rparr>"

lemma build_reply_queued:
  "build_reply (rb_queued q rb) = (case build_reply rb of (rb', r) \<Rightarrow> (rb_queued q rb', r))"
  by (auto simp: build_reply_def split: sum.splits prod.splits)

lemma build_replies_queued:
  "build_replies (rb_queued q rb) = (case build_replies rb of (rb', r) \<Rightarrow> (rb_queued q rb', r))"
proof (induction rb rule: build_replies.induct)
  case (1 rb)
  obtain rb1 r1 where b: "build_reply rb = (rb1, r1)" by (cases "build_reply rb")
  show ?case
    using 1 [OF b [symmetric]] b
    by (cases r1) (auto simp: build_replies.simps [of rb] build_replies.simps [of "rb_queued q rb"]
        build_reply_queued)
qed

lemma rb_append_queued:
  "rb_append (rb_queued q rb) d = (case rb_append rb d of (rb', r) \<Rightarrow> (rb_queued q rb', r))"
  using build_replies_queued [of q "rb\<lparr>rb_buffer := rb_buffer rb @ d\<rparr>"]
  by (cases rb) (simp add: rb_append_def)

lemma rb_append_all_queued:
  "rb_append_all (rb_queued q rb) cs = (case rb_append_all rb cs of (rb', r) \<Rightarrow> (rb_queued q rb', r))"
proof (induction cs arbitrary: rb)
  case (Cons c cs)
  obtain rb1 r1 where "rb_append rb c = (rb1, r1)" by (cases "rb_append rb c")
  then show ?case using Cons.IH [of rb1] by (cases r1) (simp_all add: rb_append_queued)
qed simp

text \<open>Taking the queue away after the first packet leaves the other replies.\<close>

lemma rb_append_all_drained:
  assumes "rb_append rb c = (rb1, Inr u)" "rb_append_all rb (c # cs) = (rb', Inr v)"
  obtains rs rb2 where "rb_available_replies rb' = rb_available_replies rb1 @ rs"
    "rb_append_all (rb1\<lparr>rb_available_replies := []\<rparr>) cs = (rb2, Inr v)"
    "rb_available_replies rb2 = rs" "rb2\<lparr>rb_available_replies := []\<rparr> = rb'\<lparr>rb_available_replies := []\<rparr>"
proof -
  let ?d = "rb1\<lparr>rb_available_replies := []\<rparr>"
  obtain rb2 r2 where d: "rb_append_all ?d cs = (rb2, r2)" by (cases "rb_append_all ?d cs")
  have "rb1 = rb_queued (rb_available_replies rb1) ?d" by simp
  then have "rb_append_all rb1 cs = (rb_queued (rb_available_replies rb1) rb2, r2)"
    using rb_append_all_queued [of "rb_available_replies rb1" ?d cs] d by simp
  then have "rb' = rb_queued (rb_available_replies rb1) rb2" "r2 = Inr v" using assms by auto
  then show thesis using that [of "rb_available_replies rb2" rb2] d by simp
qed

lemma rb_append_all_append:
  "rb_append_all rb (cs @ ds) =
    (case rb_append_all rb cs of
       (rb', Inl e) \<Rightarrow> (rb_more rb' (concat ds), Inl e)
     | (rb', Inr u) \<Rightarrow> rb_append_all rb' ds)"
proof (induction cs arbitrary: rb)
  case (Cons c cs)
  obtain rb1 r1 where "rb_append rb c = (rb1, r1)" by (cases "rb_append rb c")
  then show ?case
    using Cons.IH [of rb1] by (cases r1) (auto split: prod.splits sum.splits)
qed simp

lemma rb_append_all_queue:
  "rb_append_all rb cs = (rb', r) \<Longrightarrow> prefix (rb_available_replies rb) (rb_available_replies rb')"
proof (induction cs arbitrary: rb)
  case (Cons c cs)
  obtain rb1 r1 where a: "rb_append rb c = (rb1, r1)" by (cases "rb_append rb c")
  show ?case
    using Cons.IH [of rb1] Cons.prems a rb_append_queue [OF a]
    by (cases r1) (auto intro: prefix_order.trans)
qed simp

text \<open>After a part of a stream the queue holds a part of its replies.\<close>

lemma partial_stream:
  assumes "list_all sendable rs" "prefix (concat packets) (concat (map encode rs))"
  obtains rb where "rb_append_all reply_builder_init packets = (rb, Inr ())"
    "prefix (rb_available_replies rb) (map reply_of rs)"
proof -
  obtain d where d: "concat (map encode rs) = concat packets @ d" using assms(2) by (auto elim: prefixE)
  obtain rb r where a: "rb_append_all reply_builder_init packets = (rb, r)"
    by (cases "rb_append_all reply_builder_init packets")
  have "rb_append_all reply_builder_init (packets @ [d]) =
      (reply_builder_init\<lparr>rb_available_replies := map reply_of rs\<rparr>, Inr ())"
    by (rule rb_append_all_decode [OF assms(1)]) (simp add: d)
  then have "r = Inr ()" "rb_append_all rb [d] =
      (reply_builder_init\<lparr>rb_available_replies := map reply_of rs\<rparr>, Inr ())"
    unfolding rb_append_all_append a by (cases r; simp)+
  then show thesis using that [of rb] a rb_append_all_queue [of rb "[d]"] by simp
qed

section \<open>Sequences of events\<close>

fun run_events ::
  "('e \<Rightarrow> 's \<Rightarrow> ('s \<times> unit result) option) \<Rightarrow> 'e list \<Rightarrow> 's \<Rightarrow> ('s \<times> unit result) option"
where
  "run_events handle [] s = Some (s, Inr ())"
| "run_events handle (ev # evs) s =
     (case handle ev s of
        None \<Rightarrow> None
      | Some (s', Inl e) \<Rightarrow> Some (s', Inl e)
      | Some (s', Inr u) \<Rightarrow> run_events handle evs s')"

text \<open>Waiting goes through the same states as the events, up to the first where the
  predicate holds.\<close>

lemma wait_until_run_events:
  assumes "run_events handle evs s = Some (s', Inr u)" "ready s'"
  obtains k s'' where "k \<le> length evs" "run_events handle (take k evs) s = Some (s'', Inr ())"
    "ready s''" "wait_until ready handle evs s = Some (s'', Inr ())"
  using assms
proof (induction evs arbitrary: s thesis)
  case Nil
  then show ?case by force
next
  case (Cons ev evs)
  show ?case
  proof (cases "ready s")
    case True
    then show ?thesis using Cons.prems(1) [of 0 s] by simp
  next
    case False
    obtain s1 u1 where h: "handle ev s = Some (s1, Inr u1)" "run_events handle evs s1 = Some (s', Inr u)"
      using Cons.prems(2) by (auto split: option.splits sum.splits prod.splits)
    from Cons.IH [OF _ h(2) Cons.prems(3)] obtain k s'' where
      "k \<le> length evs" "run_events handle (take k evs) s1 = Some (s'', Inr ())" "ready s''"
      "wait_until ready handle evs s1 = Some (s'', Inr ())" by blast
    then show ?thesis using Cons.prems(1) [of "Suc k" s''] h(1) False by simp
  qed
qed

section \<open>Owners whose handler leaves the connection alone\<close>

text \<open>The reply handler on the replies one by one.\<close>

fun run_replies :: "(reply \<Rightarrow> 's \<Rightarrow> 's \<times> unit result) \<Rightarrow> reply list \<Rightarrow> 's \<Rightarrow> 's \<times> unit result" where
  "run_replies on_reply [] s = (s, Inr ())"
| "run_replies on_reply (r # rs) s =
     (case on_reply r s of
        (s', Inl e) \<Rightarrow> (s', Inl e)
      | (s', Inr u) \<Rightarrow> run_replies on_reply rs s')"

lemma run_replies_append:
  "run_replies on_reply (rs @ qs) s =
    (case run_replies on_reply rs s of
       (s', Inl e) \<Rightarrow> (s', Inl e)
     | (s', Inr u) \<Rightarrow> run_replies on_reply qs s')"
  by (induction rs arbitrary: s) (auto split: prod.splits sum.splits)

text \<open>Waiting does not look past its end.\<close>

lemma wait_until_append:
  "wait_until ready handle evs s = Some (s', r) \<Longrightarrow> wait_until ready handle (evs @ evs') s = Some (s', r)"
  by (induction ready handle evs s rule: wait_until.induct)
    (cases evs'; auto split: if_splits option.splits sum.splits prod.splits)+

text \<open>A failed read throws: it is not undefined.\<close>

definition reads_throw :: "'t tcp_ops \<Rightarrow> bool" where
  "reads_throw ops \<longleftrightarrow> (\<forall>n t e. snd (tcp_async_read ops n t) = Inl e \<longrightarrow> is_exception e)"

abbreviation packet :: "string \<Rightarrow> read_result" where
  "packet bytes \<equiv> \<lparr>rr_success = True, rr_buffer = bytes\<rparr>"

abbreviation read_packets :: "string list \<Rightarrow> net_event list" where
  "read_packets packets \<equiv> map (\<lambda>p. Net_Read (packet p)) packets"

locale quiet_owner = connection_owner get_conn put_conn on_reply
  for get_conn :: "'s \<Rightarrow> 't connection"
    and put_conn :: "'t connection \<Rightarrow> 's \<Rightarrow> 's"
    and on_reply :: "reply \<Rightarrow> 's \<Rightarrow> 's \<times> unit result" +
  assumes put_put: "put_conn c (put_conn c' s) = put_conn c s"
    and put_get: "put_conn (get_conn s) s = s"
    and on_reply_put: "on_reply r (put_conn c s) = (put_conn c (fst (on_reply r s)), snd (on_reply r s))"
begin

lemma on_reply_get: "get_conn (fst (on_reply r s)) = get_conn s"
  using on_reply_put [of r "get_conn s" s] by (simp add: put_get get_put) (metis get_put fst_conv)

lemma run_replies_put:
  "run_replies on_reply rs s = (s', r) \<Longrightarrow> run_replies on_reply rs (put_conn c s) = (put_conn c s', r)"
  by (induction rs arbitrary: s) (auto simp: on_reply_put split: prod.splits sum.splits)

lemma deliver_list_run:
  "cn_reply_callback (get_conn s) \<Longrightarrow> run_replies on_reply rs s = (s', Inr u) \<Longrightarrow>
   rb_available_replies (cn_builder (get_conn s)) = rs \<Longrightarrow>
   deliver_list get_conn put_conn on_reply rs s =
    (put_conn ((get_conn s)\<lparr>cn_builder := (cn_builder (get_conn s))\<lparr>rb_available_replies := []\<rparr>\<rparr>) s', Inr ())"
proof (induction rs arbitrary: s s')
  case Nil
  have "(cn_builder (get_conn s))\<lparr>rb_available_replies := []\<rparr> = cn_builder (get_conn s)"
    using Nil.prems(3) by (cases "cn_builder (get_conn s)") simp
  then have "(get_conn s)\<lparr>cn_builder := (cn_builder (get_conn s))\<lparr>rb_available_replies := []\<rparr>\<rparr> = get_conn s"
    by (cases "get_conn s") simp
  then show ?case using Nil.prems(2) by (simp add: put_get)
next
  case (Cons r rs)
  let ?c = "(get_conn s)\<lparr>cn_builder := (cn_builder (get_conn s))\<lparr>rb_available_replies := rs\<rparr>\<rparr>"
  obtain s1 where h: "on_reply r s = (s1, Inr ())" "run_replies on_reply rs s1 = (s', Inr u)"
    using Cons.prems(2) by (auto split: prod.splits sum.splits)
  have g: "get_conn (put_conn ?c s1) = ?c" by (rule get_put)
  have "deliver_list get_conn put_conn on_reply rs (put_conn ?c s1) =
      (put_conn (?c\<lparr>cn_builder := (cn_builder ?c)\<lparr>rb_available_replies := []\<rparr>\<rparr>) (put_conn ?c s'), Inr ())"
    using Cons.IH [of "put_conn ?c s1" "put_conn ?c s'"] Cons.prems(1) run_replies_put [OF h(2)] unfolding g by simp
  then show ?case
    using Cons.prems(1) h(1) on_reply_put [of r ?c s] by (simp add: Let_def put_put)
qed

text \<open>Events that bring bytes. The connection ends as it was but for the builder, the replies
  are those of the bytes, and the packets do not show.\<close>

lemma receive_packets_keeping:
  assumes keep: "\<And>n t. f (fst (tcp_async_read ops n t)) = f t"
    and reads: "reads_throw ops"
    and "cn_reply_callback (get_conn s)" "rb_available_replies (cn_builder (get_conn s)) = []"
    and "rb_append_all (cn_builder (get_conn s)) packets = (rb, Inr u)"
    and "run_replies on_reply (rb_available_replies rb) s = (s', Inr v)"
  shows "\<exists>t. f t = f (cn_client (get_conn s)) \<and> run_events (\<lambda>res. tcp_client_receive_handler ops get_conn put_conn on_reply on_disconnection res)
      (map packet packets) s =
    Some (put_conn ((get_conn s)\<lparr>cn_client := t, cn_builder := rb\<lparr>rb_available_replies := []\<rparr>\<rparr>) s', Inr ())"
  using assms(3-)
proof (induction packets arbitrary: s s' rb)
  case Nil
  have "(get_conn s)\<lparr>cn_client := cn_client (get_conn s), cn_builder := rb\<lparr>rb_available_replies := []\<rparr>\<rparr> = get_conn s"
    using Nil.prems by (cases "get_conn s"; cases rb) simp
  then have "put_conn ((get_conn s)\<lparr>cn_client := cn_client (get_conn s),
      cn_builder := rb\<lparr>rb_available_replies := []\<rparr>\<rparr>) s = s"
    by (simp only: put_get)
  moreover have "s' = s" using Nil.prems by auto
  ultimately show ?case by (simp only: list.map run_events.simps) metis
next
  case (Cons p packets)
  let ?c = "get_conn s"
  obtain rb1 where a: "rb_append (cn_builder ?c) p = (rb1, Inr ())"
    using Cons.prems(3) by (auto split: prod.splits sum.splits)
  obtain rs rb2 where d: "rb_available_replies rb = rb_available_replies rb1 @ rs"
    "rb_append_all (rb1\<lparr>rb_available_replies := []\<rparr>) packets = (rb2, Inr u)"
    "rb_available_replies rb2 = rs" "rb2\<lparr>rb_available_replies := []\<rparr> = rb\<lparr>rb_available_replies := []\<rparr>"
    by (rule rb_append_all_drained [OF a Cons.prems(3)])
  obtain s1 where r: "run_replies on_reply (rb_available_replies rb1) s = (s1, Inr ())"
    "run_replies on_reply rs s1 = (s', Inr v)"
    using Cons.prems(4) d(1) by (auto simp: run_replies_append split: prod.splits sum.splits)
  let ?c1 = "?c\<lparr>cn_builder := rb1\<lparr>rb_available_replies := []\<rparr>\<rparr>"
  let ?t = "fst (tcp_async_read ops read_size (cn_client ?c))"
  let ?s2 = "put_conn (?c1\<lparr>cn_client := ?t\<rparr>) s1"
  have l: "deliver_list get_conn put_conn on_reply (rb_available_replies rb1) (put_conn (?c\<lparr>cn_builder := rb1\<rparr>) s) =
      (put_conn ?c1 s1, Inr ())"
    using deliver_list_run [of "put_conn (?c\<lparr>cn_builder := rb1\<rparr>) s" "rb_available_replies rb1"]
      run_replies_put [OF r(1), of "?c\<lparr>cn_builder := rb1\<rparr>"] Cons.prems(1)
    by (simp add: get_put put_put)
  have "tcp_client_receive_handler ops get_conn put_conn on_reply on_disconnection (packet p) s = Some (?s2, Inr ())"
    using receive_handler_ok [of "packet p" s rb1 "()"] a l reads
    by (auto simp: get_put put_put reads_throw_def split: sum.splits)
  moreover have "\<exists>t. f t = f (cn_client (get_conn ?s2)) \<and> run_events (\<lambda>res. tcp_client_receive_handler ops get_conn put_conn on_reply on_disconnection res)
      (map packet packets) ?s2 =
    Some (put_conn ((get_conn ?s2)\<lparr>cn_client := t, cn_builder := rb2\<lparr>rb_available_replies := []\<rparr>\<rparr>)
      (put_conn (?c1\<lparr>cn_client := ?t\<rparr>) s'), Inr ())"
    using Cons.IH [of ?s2 rb2 "put_conn (?c1\<lparr>cn_client := ?t\<rparr>) s'"] Cons.prems(1) d(2,3)
      run_replies_put [OF r(2)]
    by (simp add: get_put)
  moreover have "f (cn_client (get_conn ?s2)) = f (cn_client ?c)" by (simp add: get_put keep)
  ultimately show ?case using d(4) by (auto simp: get_put put_put)
qed

lemmas receive_packets = receive_packets_keeping [where f = "\<lambda>_. ()", simplified]

text \<open>A thread that waits until the last of the expected replies has been handled: its wait
  ends in the packet that completes it.\<close>

lemma wait_for_replies:
  assumes "reads_throw ops" "cn_reply_callback (get_conn s)" "cn_builder (get_conn s) = reply_builder_init"
    and "list_all sendable rs" "concat packets = concat (map encode rs)"
    and step: "\<And>p s. step (ev p) s =
      tcp_client_receive_handler ops get_conn put_conn on_reply on_disconnection (packet p) s"
    and all: "run_replies on_reply (map reply_of rs) s = (s', Inr ())" "\<And>c. ready (put_conn c s')"
    and before: "\<And>k s'' c. k < length rs \<Longrightarrow> run_replies on_reply (map reply_of (take k rs)) s = (s'', Inr ()) \<Longrightarrow>
      \<not> ready (put_conn c s'')"
  shows "\<exists>c. wait_until ready step (map ev packets) s = Some (put_conn c s', Inr ())"
proof -
  let ?b = "cn_builder (get_conn s)"
  have init: "rb_available_replies ?b = []" using assms(3) by (simp add: reply_builder_init_def)
  have b: "rb_append_all ?b packets = (reply_builder_init\<lparr>rb_available_replies := map reply_of rs\<rparr>, Inr ())"
    using rb_append_all_decode [OF assms(4,5)] assms(3) by simp
  have packets: "\<exists>c. run_events step (map ev ps) s = Some (put_conn c s1, Inr ())"
    if "rb_append_all ?b ps = (rb, Inr ())" "run_replies on_reply (rb_available_replies rb) s = (s1, Inr ())"
    for ps rb s1
  proof -
    have "run_events step (map ev ps) s' = run_events (\<lambda>res. tcp_client_receive_handler ops get_conn put_conn
        on_reply on_disconnection res) (map packet ps) s'" for s'
      by (induction ps arbitrary: s') (auto simp: step split: option.splits sum.splits prod.splits)
    then show ?thesis
      using receive_packets [OF assms(1,2) init that, of on_disconnection] by auto
  qed
  obtain c where "run_events step (map ev packets) s = Some (put_conn c s', Inr ())"
    using packets [OF b] all(1) by auto
  then obtain k s1 where w: "run_events step (take k (map ev packets)) s = Some (s1, Inr ())" "ready s1"
    "wait_until ready step (map ev packets) s = Some (s1, Inr ())"
    using wait_until_run_events all(2) by metis
  obtain rb r where a: "rb_append_all ?b (take k packets) = (rb, r)"
    by (cases "rb_append_all ?b (take k packets)")
  have "rb_append_all ?b (take k packets @ drop k packets) =
      (reply_builder_init\<lparr>rb_available_replies := map reply_of rs\<rparr>, Inr ())"
    using b by simp
  then have d: "r = Inr ()" "rb_append_all rb (drop k packets) =
      (reply_builder_init\<lparr>rb_available_replies := map reply_of rs\<rparr>, Inr ())"
    unfolding rb_append_all_append a by (cases r; simp)+
  then obtain zs where z: "map reply_of rs = rb_available_replies rb @ zs"
    using rb_append_all_queue [OF d(2)] by (auto elim: prefixE)
  then have t: "rb_available_replies rb = map reply_of (take (length (rb_available_replies rb)) rs)"
    by (simp add: take_map [symmetric])
  obtain s2 where s2: "run_replies on_reply (rb_available_replies rb) s = (s2, Inr ())"
    using all(1) unfolding z run_replies_append by (auto split: prod.splits sum.splits)
  obtain c2 where "s1 = put_conn c2 s2"
    using packets [OF a [unfolded d(1)] s2] w(1) by (auto simp: take_map)
  then have "\<not> length (rb_available_replies rb) < length rs"
    using before [of "length (rb_available_replies rb)" s2 c2] s2 t w(2) by auto
  moreover have "length rs = length (rb_available_replies rb) + length zs"
    using arg_cong [OF z, of length] by simp
  ultimately have "rb_available_replies rb = map reply_of rs" using z by simp
  then show ?thesis using s2 all(1) w(3) \<open>s1 = put_conn c2 s2\<close> by auto
qed

end

end
