(* ===== verification/Sentinel.thy ===== *)
theory Sentinel
  imports Delivery
begin

text \<open>
  \<open>cpp_redis::sentinel\<close> (sources/core/sentinel.cpp, includes/cpp_redis/core/sentinel.hpp):
  a connection with a queue of callbacks, the list of known sentinels, and the lookup of
  a master's address. User callbacks are opaque names; calling one is an event. The
  lambda of \<open>get_master_addr_by_name\<close> is a callback of its own, because it writes the
  caller's \<open>host\<close> and \<open>port\<close> (here \<open>se_host\<close> and \<open>se_port\<close>).
\<close>

section \<open>State\<close>

record sentinel_def =
  sd_host :: string
  sd_port :: nat
  sd_timeout_msecs :: nat

datatype 'cb sentinel_callback =
    SC_Null
  | SC_User 'cb
  | SC_Get_Master

datatype 'cb sentinel_event =
    SE_Callback 'cb reply
  | SE_Disconnect_Handler

record ('t, 'cb) sentinel =
  se_sentinels :: "sentinel_def list"
  se_client :: "'t connection"
  se_callbacks :: "'cb sentinel_callback list"
  se_disconnect_handler :: bool
  se_callbacks_running :: nat
  se_host :: string
  se_port :: nat
  se_events :: "'cb sentinel_event list"

definition sentinel_init :: "'t \<Rightarrow> ('t, 'cb) sentinel" where
  "sentinel_init t =
     \<lparr>se_sentinels = [], se_client = connection_init t, se_callbacks = [],
      se_disconnect_handler = False, se_callbacks_running = 0, se_host = [], se_port = 0,
      se_events = []\<rparr>"

abbreviation put_se_client ::
  "'t connection \<Rightarrow> ('t, 'cb) sentinel \<Rightarrow> ('t, 'cb) sentinel"
where
  "put_se_client c s \<equiv> s\<lparr>se_client := c\<rparr>"

definition add_sentinel ::
  "string \<Rightarrow> nat \<Rightarrow> nat \<Rightarrow> ('t, 'cb) sentinel \<Rightarrow> ('t, 'cb) sentinel"
where
  "add_sentinel host port timeout_msecs s =
     s\<lparr>se_sentinels := se_sentinels s @
        [\<lparr>sd_host = host, sd_port = port, sd_timeout_msecs = timeout_msecs\<rparr>]\<rparr>"

definition clear_sentinels :: "('t, 'cb) sentinel \<Rightarrow> ('t, 'cb) sentinel" where
  "clear_sentinels s = s\<lparr>se_sentinels := []\<rparr>"

text \<open>\<open>get_sentinels\<close> gives the list to write to: the timeout of its entry \<open>i\<close>.\<close>

definition set_timeout_msecs ::
  "nat \<Rightarrow> nat \<Rightarrow> ('t, 'cb) sentinel \<Rightarrow> ('t, 'cb) sentinel \<times> unit result"
where
  "set_timeout_msecs i timeout_msecs s =
     (if i < length (se_sentinels s)
      then (s\<lparr>se_sentinels := (se_sentinels s)[i := (se_sentinels s ! i)\<lparr>sd_timeout_msecs := timeout_msecs\<rparr>]\<rparr>,
            Inr ())
      else (s, Inl (Undefined_Behaviour Index_Out_Of_Range)))"

section \<open>Sending\<close>

definition sentinel_send ::
  "string list \<Rightarrow> 'cb sentinel_callback \<Rightarrow> ('t, 'cb) sentinel \<Rightarrow> ('t, 'cb) sentinel"
where
  "sentinel_send redis_cmd callback s =
     s\<lparr>se_client := conn_send redis_cmd (se_client s), se_callbacks := se_callbacks s @ [callback]\<rparr>"

definition sentinel_clear_callbacks :: "('t, 'cb) sentinel \<Rightarrow> ('t, 'cb) sentinel" where
  "sentinel_clear_callbacks s = s\<lparr>se_callbacks := []\<rparr>"

definition sentinel_try_commit ::
  "'t tcp_ops \<Rightarrow> ('t, 'cb) sentinel \<Rightarrow> ('t, 'cb) sentinel \<times> unit result"
where
  "sentinel_try_commit ops s =
     (case conn_commit ops (se_client s) of
        (c, Inl e) \<Rightarrow>
          (if is_redis_error e then sentinel_clear_callbacks (put_se_client c s) else put_se_client c s,
           Inl e)
      | (c, Inr u) \<Rightarrow> (put_se_client c s, Inr ()))"

definition sentinel_commit ::
  "'t tcp_ops \<Rightarrow> ('t, 'cb) sentinel \<Rightarrow> ('t, 'cb) sentinel \<times> unit result"
where
  "sentinel_commit ops s = sentinel_try_commit ops s"

section \<open>Handlers\<close>

definition call_disconnect_handler :: "('t, 'cb) sentinel \<Rightarrow> ('t, 'cb) sentinel" where
  "call_disconnect_handler s =
     (if se_disconnect_handler s then s\<lparr>se_events := se_events s @ [SE_Disconnect_Handler]\<rparr> else s)"

definition sentinel_disconnect_handler ::
  "('t, 'cb) sentinel \<Rightarrow> (('t, 'cb) sentinel \<times> unit result) option"
where
  "sentinel_disconnect_handler s =
     Some (call_disconnect_handler (sentinel_clear_callbacks s), Inr ())"

text \<open>The lambda of \<open>get_master_addr_by_name\<close>. \<open>arr[0]\<close> and \<open>arr[1]\<close> are unchecked;
  \<open>stoi\<close>'s \<open>int\<close> is converted to the \<open>std::size_t\<close> of \<open>port\<close>.\<close>

definition get_master_callback ::
  "reply \<Rightarrow> ('t, 'cb) sentinel \<Rightarrow> ('t, 'cb) sentinel \<times> unit result"
where
  "get_master_callback r s =
     (if \<not> is_array r then (s, Inr ())
      else case as_array r of
        Inl e \<Rightarrow> (s, Inl e)
      | Inr arr \<Rightarrow>
          (if length arr < 1 then (s, Inl (Undefined_Behaviour Index_Out_Of_Range))
           else case as_string (arr ! 0) of
             Inl e \<Rightarrow> (s, Inl e)
           | Inr host \<Rightarrow>
               let s' = s\<lparr>se_host := host\<rparr>
               in if length arr < 2 then (s', Inl (Undefined_Behaviour Index_Out_Of_Range))
                  else case as_string (arr ! 1) of
                    Inl e \<Rightarrow> (s', Inl e)
                  | Inr p \<Rightarrow>
                      (case stoi p of
                         Inl e \<Rightarrow> (s', Inl e)
                       | Inr port \<Rightarrow> (s'\<lparr>se_port := size_t_cast port\<rparr>, Inr ()))))"

text \<open>The first critical section of the receive handler; \<open>None\<close>: no callback was waiting.\<close>

definition sentinel_next_request ::
  "('t, 'cb) sentinel \<Rightarrow> 'cb sentinel_callback option \<times> ('t, 'cb) sentinel"
where
  "sentinel_next_request s =
     (let s' = s\<lparr>se_callbacks_running := se_callbacks_running s + 1\<rparr>
      in case se_callbacks s of
           [] \<Rightarrow> (None, s')
         | callback # rest \<Rightarrow> (Some callback, s'\<lparr>se_callbacks := rest\<rparr>))"

definition sentinel_run_callback ::
  "'cb sentinel_callback option \<Rightarrow> reply \<Rightarrow> ('t, 'cb) sentinel \<Rightarrow> ('t, 'cb) sentinel \<times> unit result"
where
  "sentinel_run_callback callback r s =
     (case callback of
        None \<Rightarrow> (s, Inr ())
      | Some SC_Null \<Rightarrow> (s, Inr ())
      | Some (SC_User cb) \<Rightarrow> (s\<lparr>se_events := se_events s @ [SE_Callback cb r]\<rparr>, Inr ())
      | Some SC_Get_Master \<Rightarrow> get_master_callback r s)"

definition sentinel_receive_handler ::
  "reply \<Rightarrow> ('t, 'cb) sentinel \<Rightarrow> ('t, 'cb) sentinel \<times> unit result"
where
  "sentinel_receive_handler r s =
     (let (callback, s1) = sentinel_next_request s
      in case sentinel_run_callback callback r s1 of
           (s2, Inl e) \<Rightarrow> (s2, Inl e)
         | (s2, Inr u) \<Rightarrow> (s2\<lparr>se_callbacks_running := se_callbacks_running s2 - 1\<rparr>, Inr ()))"

text \<open>One event of the TCP client.\<close>

fun sentinel_net_event ::
  "'t tcp_ops \<Rightarrow> net_event \<Rightarrow> ('t, 'cb) sentinel \<Rightarrow> (('t, 'cb) sentinel \<times> unit result) option"
where
  "sentinel_net_event ops (Net_Read res) s =
     tcp_client_receive_handler ops se_client put_se_client sentinel_receive_handler
       sentinel_disconnect_handler res s"
| "sentinel_net_event ops Net_Disconnected s =
     tcp_client_disconnection_handler se_client put_se_client sentinel_disconnect_handler s"

definition sentinel_sync_commit ::
  "'t tcp_ops \<Rightarrow> net_event list \<Rightarrow> ('t, 'cb) sentinel \<Rightarrow> (('t, 'cb) sentinel \<times> unit result) option"
where
  "sentinel_sync_commit ops evs s =
     (case sentinel_try_commit ops s of
        (s', Inl e) \<Rightarrow> Some (s', Inl e)
      | (s', Inr u) \<Rightarrow>
          wait_until (\<lambda>s. se_callbacks_running s = 0 \<and> se_callbacks s = [])
            (sentinel_net_event ops) evs s')"

text \<open>With a timeout: \<open>evs\<close> is what happens before it expires; the value is the log line.\<close>

definition sentinel_sync_commit_for ::
  "'t tcp_ops \<Rightarrow> net_event list \<Rightarrow> ('t, 'cb) sentinel \<Rightarrow> (('t, 'cb) sentinel \<times> string result) option"
where
  "sentinel_sync_commit_for ops evs s =
     (case sentinel_try_commit ops s of
        (s', Inl e) \<Rightarrow> Some (s', Inl e)
      | (s', Inr u) \<Rightarrow>
          (case wait_for (\<lambda>s. se_callbacks_running s = 0 \<and> se_callbacks s = [])
                  (sentinel_net_event ops) evs s' of
             None \<Rightarrow> None
           | Some (s'', Inl e) \<Rightarrow> Some (s'', Inl e)
           | Some (s'', Inr b) \<Rightarrow> Some (s'', Inr (''cpp_redis::sentinel '' @ wait_log b))))"

section \<open>Connecting\<close>

definition sentinel_disconnect ::
  "'t tcp_ops \<Rightarrow> bool \<Rightarrow> ('t, 'cb) sentinel \<Rightarrow> ('t, 'cb) sentinel"
where
  "sentinel_disconnect ops wait_for_removal s =
     put_se_client (conn_disconnect ops wait_for_removal (se_client s)) s"

definition sentinel_is_connected :: "'t tcp_ops \<Rightarrow> ('t, 'cb) sentinel \<Rightarrow> bool" where
  "sentinel_is_connected ops s = conn_is_connected ops (se_client s)"

text \<open>The loop of \<open>connect_sentinel\<close> over the known sentinels; the flag is \<open>not_connected\<close>.\<close>

fun try_sentinels ::
  "'t tcp_ops \<Rightarrow> sentinel_def list \<Rightarrow> ('t, 'cb) sentinel \<Rightarrow> ('t, 'cb) sentinel \<times> bool result"
where
  "try_sentinels ops [] s = (s, Inr True)"
| "try_sentinels ops (d # ds) s =
     (let (c, r) = conn_connect ops (sd_host d) (sd_port d) True True (sd_timeout_msecs d) (se_client s);
          s' = put_se_client c s
      in case r of
           Inl e \<Rightarrow>
             (if \<not> is_redis_error e then (s', Inl e)
              else if sentinel_is_connected ops s' then (s', Inr False)
              else try_sentinels ops ds (sentinel_disconnect ops True s'))
         | Inr u \<Rightarrow>
             (if sentinel_is_connected ops s' then (s', Inr False)
              else try_sentinels ops ds (sentinel_disconnect ops True s')))"

definition connect_sentinel ::
  "'t tcp_ops \<Rightarrow> bool \<Rightarrow> ('t, 'cb) sentinel \<Rightarrow> ('t, 'cb) sentinel \<times> unit result"
where
  "connect_sentinel ops disconnect_handler s =
     (if length (se_sentinels s) = 0
      then (s, Inl (Redis_Error ''No sentinels available. Call add_sentinel() before connect_sentinel()''))
      else case try_sentinels ops (se_sentinels s) s of
        (s', Inl e) \<Rightarrow> (s', Inl e)
      | (s', Inr not_connected) \<Rightarrow>
          (if not_connected then (s', Inl (Redis_Error ''Unable to connect to any sentinels''))
           else (s'\<lparr>se_disconnect_handler := disconnect_handler\<rparr>, Inr ())))"

definition sentinel_connect ::
  "'t tcp_ops \<Rightarrow> string \<Rightarrow> nat \<Rightarrow> bool \<Rightarrow> nat \<Rightarrow> ('t, 'cb) sentinel \<Rightarrow> ('t, 'cb) sentinel \<times> unit result"
where
  "sentinel_connect ops host port disconnect_handler timeout_msecs s =
     (case conn_connect ops host port True True timeout_msecs (se_client s) of
        (c, Inl e) \<Rightarrow> (put_se_client c s, Inl e)
      | (c, Inr u) \<Rightarrow> ((put_se_client c s)\<lparr>se_disconnect_handler := disconnect_handler\<rparr>, Inr ()))"

text \<open>\<open>evs\<close>: what the TCP client reports while \<open>sync_commit\<close> waits.\<close>

definition ask_master ::
  "'t tcp_ops \<Rightarrow> net_event list \<Rightarrow> string \<Rightarrow> bool \<Rightarrow> ('t, 'cb) sentinel \<Rightarrow>
   (('t, 'cb) sentinel \<times> bool result) option"
where
  "ask_master ops evs name autoconnect s =
     (case sentinel_sync_commit ops evs
             (sentinel_send [''SENTINEL'', ''get-master-addr-by-name'', name] SC_Get_Master s) of
        None \<Rightarrow> None
      | Some (s', Inl e) \<Rightarrow> Some (s', Inl e)
      | Some (s', Inr u) \<Rightarrow>
          let s'' = (if autoconnect then sentinel_disconnect ops True s' else s')
          in Some (s'', Inr (se_port s'' \<noteq> 0)))"

definition get_master_addr_by_name ::
  "'t tcp_ops \<Rightarrow> net_event list \<Rightarrow> string \<Rightarrow> bool \<Rightarrow> ('t, 'cb) sentinel \<Rightarrow>
   (('t, 'cb) sentinel \<times> bool result) option"
where
  "get_master_addr_by_name ops evs name autoconnect s0 =
     (let s = s0\<lparr>se_host := [], se_port := 0\<rparr>
      in if autoconnect \<and> length (se_sentinels s) = 0
         then Some (s, Inl (Redis_Error ''No sentinels available. Call add_sentinel() before get_master_addr_by_name()''))
         else if \<not> autoconnect \<and> \<not> sentinel_is_connected ops s
         then Some (s, Inl (Redis_Error ''No sentinel connected. Call connect() first or enable autoconnect.''))
         else if autoconnect
         then case connect_sentinel ops False s of
           (s', r) \<Rightarrow>
             (if (case r of Inl e \<Rightarrow> \<not> is_redis_error e | Inr u \<Rightarrow> False)
              then Some (s', case r of Inl e \<Rightarrow> Inl e | Inr u \<Rightarrow> Inr False)
              else if \<not> sentinel_is_connected ops s' then Some (s', Inr False)
              else ask_master ops evs name autoconnect s')
         else ask_master ops evs name autoconnect s)"

section \<open>Commands\<close>

datatype sentinel_command =
    S_ping
  | S_masters
  | S_master string
  | S_slaves string
  | S_sentinels string
  | S_ckquorum string
  | S_failover string
  | S_reset string
  | S_flushconfig
  | S_monitor string string nat nat
  | S_remove string
  | S_set string string string

primrec sentinel_words :: "sentinel_command \<Rightarrow> string list" where
  "sentinel_words S_ping = [''PING'']"
| "sentinel_words S_masters = [''SENTINEL'', ''MASTERS'']"
| "sentinel_words (S_master name) = [''SENTINEL'', ''MASTER'', name]"
| "sentinel_words (S_slaves name) = [''SENTINEL'', ''SLAVES'', name]"
| "sentinel_words (S_sentinels name) = [''SENTINEL'', ''SENTINELS'', name]"
| "sentinel_words (S_ckquorum name) = [''SENTINEL'', ''CKQUORUM'', name]"
| "sentinel_words (S_failover name) = [''SENTINEL'', ''FAILOVER'', name]"
| "sentinel_words (S_reset pattern) = [''SENTINEL'', ''RESET'', pattern]"
| "sentinel_words S_flushconfig = [''SENTINEL'', ''FLUSHCONFIG'']"
| "sentinel_words (S_monitor name ip port quorum) =
     [''SENTINEL'', ''MONITOR'', name, ip, to_string_nat port, to_string_nat quorum]"
| "sentinel_words (S_remove name) = [''SENTINEL'', ''REMOVE'', name]"
| "sentinel_words (S_set name option' value') = [''SENTINEL'', ''SET'', name, option', value']"

definition sentinel_call ::
  "sentinel_command \<Rightarrow> 'cb sentinel_callback \<Rightarrow> ('t, 'cb) sentinel \<Rightarrow> ('t, 'cb) sentinel"
where
  "sentinel_call c callback s = sentinel_send (sentinel_words c) callback s"

section \<open>The contracts\<close>

lemma get_master_callback_frame [handler_simps]:
  "get_master_callback r s = (s', res) \<Longrightarrow>
   se_client s' = se_client s \<and> se_callbacks s' = se_callbacks s \<and>
   se_callbacks_running s' = se_callbacks_running s"
  by (auto simp: get_master_callback_def Let_def split: if_splits sum.splits)

lemma sentinel_run_callback_frame:
  "sentinel_run_callback cb r s = (s', res) \<Longrightarrow>
   se_client s' = se_client s \<and> se_callbacks s' = se_callbacks s \<and>
   se_callbacks_running s' = se_callbacks_running s"
  by (auto simp: sentinel_run_callback_def split: option.splits sentinel_callback.splits
      dest!: get_master_callback_frame)

lemma sentinel_next_request_frame:
  "sentinel_next_request s = (cb, s') \<Longrightarrow>
   se_client s' = se_client s \<and> se_callbacks s' = tl (se_callbacks s) \<and>
   se_callbacks_running s' = se_callbacks_running s + 1"
  by (auto simp: sentinel_next_request_def Let_def split: list.splits)

lemma sentinel_receive_handler_frame:
  "sentinel_receive_handler r s = (s', res) \<Longrightarrow>
   se_client s' = se_client s \<and> se_callbacks s' = tl (se_callbacks s) \<and>
   se_callbacks_running s' = se_callbacks_running s + (if is_ok res then 0 else 1)"
  by (auto simp: sentinel_receive_handler_def split: prod.splits sum.splits
      dest!: sentinel_next_request_frame sentinel_run_callback_frame)

interpretation sentinel_owner:
  connection_owner se_client put_se_client sentinel_receive_handler
  by unfold_locales (auto dest!: sentinel_receive_handler_frame)

lemma get_master_callback_put:
  "get_master_callback r (put_se_client c s) =
    (put_se_client c (fst (get_master_callback r s)), snd (get_master_callback r s))"
  by (auto simp: get_master_callback_def Let_def split: sum.splits)

lemma sentinel_receive_handler_put:
  "sentinel_receive_handler r (put_se_client c s) =
    (put_se_client c (fst (sentinel_receive_handler r s)), snd (sentinel_receive_handler r s))"
proof -
  have n: "sentinel_next_request (put_se_client c s) =
      (case sentinel_next_request s of (q, s') \<Rightarrow> (q, put_se_client c s'))"
    by (cases s) (simp add: sentinel_next_request_def Let_def split: list.splits)
  have "sentinel_run_callback q r (put_se_client c s') =
      (put_se_client c (fst (sentinel_run_callback q r s')), snd (sentinel_run_callback q r s'))"
    for q and s' :: "('a, 'b) sentinel"
    using get_master_callback_put [of r c s']
    by (auto simp: sentinel_run_callback_def split: option.splits sentinel_callback.splits)
  then show ?thesis
    by (simp add: sentinel_receive_handler_def n split: prod.splits sum.splits)
qed

interpretation sentinel_quiet: quiet_owner se_client put_se_client sentinel_receive_handler
  by unfold_locales (simp_all add: sentinel_receive_handler_put)

interpretation sentinel_pipeline:
  request_pipeline se_callbacks "\<lambda>s. cn_buffer (se_client s)" sentinel_send sentinel_next_request
  by unfold_locales
    (auto simp: sentinel_send_def conn_send_def sentinel_next_request_def Let_def split: list.splits)

section \<open>Looking up a master\<close>

text \<open>What the lambda makes of a proper answer.\<close>

definition master_reply :: "string \<Rightarrow> nat \<Rightarrow> resp" where
  "master_reply host port = Array [Bulk host, Bulk (to_string_nat port)]"

lemma get_master_callback_ok:
  assumes "port < 2 ^ 31"
  shows "get_master_callback (reply_of (master_reply host port)) s =
    (s\<lparr>se_host := host, se_port := port\<rparr>, Inr ())"
  using assms
  by (simp add: get_master_callback_def master_reply_def reply_array_def reply_string_def
      observer_defs stoi_to_string size_t_cast_id Let_def)

lemma receive_master_reply:
  assumes "port < 2 ^ 31" "se_callbacks s = [SC_Get_Master]"
  shows "sentinel_receive_handler (reply_of (master_reply host port)) s =
    (s\<lparr>se_callbacks := [], se_host := host, se_port := port\<rparr>, Inr ())"
  using assms(2)
  by (simp add: get_master_callback_ok [OF assms(1)] Let_def sentinel_receive_handler_def sentinel_next_request_def
      sentinel_run_callback_def del: reply_of.simps)

lemma to_string_nat_length: "length (to_string_nat n) \<le> Suc n"
proof (induction n rule: less_induct)
  case (less n)
  show ?case
  proof (cases "n < 10")
    case True
    then show ?thesis by (simp add: to_string_nat.simps)
  next
    case False
    then have "length (to_string_nat n) \<le> Suc (Suc (n div 10))"
      using less.IH [of "n div 10"] by (simp add: to_string_nat.simps [of n])
    also have "\<dots> \<le> Suc n" using False by auto
    finally show ?thesis .
  qed
qed

lemma master_reply_sendable:
  assumes "length host + 2 < 2 ^ 31" "port < 2 ^ 16"
  shows "sendable (master_reply host port)"
  using to_string_nat_length [of port] assms by (simp add: master_reply_def)

lemma ask_master_answered:
  assumes "length host + 2 < 2 ^ 31" "port < 2 ^ 16"
    and "se_callbacks s = []" "se_callbacks_running s = 0"
    and "cn_reply_callback (se_client s)" "cn_builder (se_client s) = reply_builder_init"
    and "tcp_async_write ops (cn_buffer (conn_send
        [''SENTINEL'', ''get-master-addr-by-name'', name] (se_client s))) (cn_client (se_client s)) = (t, Inr ())"
    and "reads_throw ops" "concat packets = encode (master_reply host port)"
  shows "\<exists>c. ask_master ops (read_packets packets @ evs) name False s =
    Some (s\<lparr>se_client := c, se_host := host, se_port := port\<rparr>, Inr (port \<noteq> 0))"
proof -
  let ?s1 = "s\<lparr>se_client := (se_client s)\<lparr>cn_client := t, cn_buffer := []\<rparr>, se_callbacks := [SC_Get_Master]\<rparr>"
  let ?s2 = "?s1\<lparr>se_callbacks := [], se_host := host, se_port := port\<rparr>"
  let ?ready = "\<lambda>s. se_callbacks_running s = 0 \<and> se_callbacks s = []"
  have c: "sentinel_try_commit ops
      (sentinel_send [''SENTINEL'', ''get-master-addr-by-name'', name] SC_Get_Master s) = (?s1, Inr ())"
    using assms(3,7) by (simp add: sentinel_try_commit_def sentinel_send_def conn_commit_def conn_send_def)
  have p: "port < 2 ^ 31" using assms(2) by simp
  have all: "run_replies sentinel_receive_handler (map reply_of [master_reply host port]) ?s1 = (?s2, Inr ())"
    using receive_master_reply [OF p, of ?s1 host] by (simp del: reply_of.simps)
  have "\<exists>c'. wait_until ?ready (sentinel_net_event ops) (read_packets packets) ?s1 =
      Some (put_se_client c' ?s2, Inr ())"
  proof (rule sentinel_quiet.wait_for_replies [where ready = ?ready and rs = "[master_reply host port]" and
        ev = "\<lambda>p. Net_Read (packet p)" and step = "sentinel_net_event ops" and
        on_disconnection = sentinel_disconnect_handler, OF assms(8) _ _ _ _ _ all])
    fix k s'' c
    assume "k < length [master_reply host port]"
      "run_replies sentinel_receive_handler (map reply_of (take k [master_reply host port])) ?s1 = (s'', Inr ())"
    then have "s'' = ?s1" by simp
    then show "\<not> ?ready (put_se_client c s'')" by simp
  qed (use master_reply_sendable [OF assms(1,2)] assms(4-6,9) in \<open>simp_all del: encode.simps\<close>)
  then obtain c' where "wait_until ?ready (sentinel_net_event ops) (read_packets packets) ?s1 =
      Some (put_se_client c' ?s2, Inr ())" ..
  then have "wait_until ?ready (sentinel_net_event ops) (read_packets packets @ evs) ?s1 =
      Some (put_se_client c' ?s2, Inr ())"
    by (rule wait_until_append)
  moreover have "put_se_client c' ?s2 = s\<lparr>se_client := c', se_host := host, se_port := port\<rparr>"
    using assms(3) by (cases s) simp
  ultimately show ?thesis
    by (auto simp: ask_master_def sentinel_sync_commit_def c Let_def)
qed

section \<open>Callbacks in progress\<close>

text \<open>The number of running callbacks never goes down over an event: a handler that ends
  restores it, a handler that throws leaves it raised.\<close>

lemma sentinel_disconnect_running:
  "sentinel_disconnect_handler s = Some (s', res) \<Longrightarrow> se_callbacks_running s' = se_callbacks_running s"
  by (auto simp: sentinel_disconnect_handler_def call_disconnect_handler_def sentinel_clear_callbacks_def)

lemma sentinel_net_event_running:
  assumes "sentinel_net_event ops ev s = Some (s', res)"
  shows "se_callbacks_running s \<le> se_callbacks_running s'"
proof (cases ev)
  case Net_Disconnected
  show ?thesis
  proof (rule sentinel_owner.disconnection_handler_invariant
      [where P = "\<lambda>s'. se_callbacks_running s \<le> se_callbacks_running s'"])
    show "tcp_client_disconnection_handler se_client put_se_client sentinel_disconnect_handler s =
        Some (s', res)"
      using assms Net_Disconnected by simp
  qed (auto dest!: sentinel_disconnect_running)
next
  case (Net_Read r)
  show ?thesis
  proof (rule sentinel_owner.receive_handler_invariant
      [where P = "\<lambda>s'. se_callbacks_running s \<le> se_callbacks_running s'"])
    show "tcp_client_receive_handler ops se_client put_se_client sentinel_receive_handler
        sentinel_disconnect_handler r s = Some (s', res)"
      using assms Net_Read by simp
  qed (auto dest!: sentinel_receive_handler_frame sentinel_disconnect_running)
qed

section \<open>Trying the sentinels\<close>

definition unreachable :: "'t tcp_ops \<Rightarrow> sentinel_def \<Rightarrow> 't \<Rightarrow> bool" where
  "unreachable ops d t \<longleftrightarrow>
     (case tcp_connect ops (sd_host d) (sd_port d mod 2 ^ 32) (sd_timeout_msecs d) t of
        (t', Inl e) \<Rightarrow> is_exception e \<and> \<not> tcp_is_connected ops t'
      | (t', Inr u) \<Rightarrow> False)"

lemma rethrow_is_redis: "is_exception e \<Longrightarrow> is_redis_error (rethrow_redis e)"
  by (cases e) simp_all

lemma try_sentinels_skip:
  assumes "\<And>d t. d \<in> set down \<Longrightarrow> unreachable ops d t"
  shows "\<exists>s'. try_sentinels ops (down @ ds) s = try_sentinels ops ds s' \<and> se_sentinels s' = se_sentinels s"
  using assms
proof (induction down arbitrary: s)
  case Nil
  then show ?case by auto
next
  case (Cons d down)
  obtain t e where t: "tcp_connect ops (sd_host d) (sd_port d mod 2 ^ 32) (sd_timeout_msecs d)
      (cn_client (se_client s)) = (t, Inl e)" "is_exception e" "\<not> tcp_is_connected ops t"
    using Cons.prems [of d "cn_client (se_client s)"]
    by (auto simp: unreachable_def split: prod.splits sum.splits)
  let ?s1 = "sentinel_disconnect ops True (put_se_client ((se_client s)\<lparr>cn_client := t\<rparr>) s)"
  have "try_sentinels ops ((d # down) @ ds) s = try_sentinels ops (down @ ds) ?s1"
    using t by (simp add: conn_connect_def rethrow_is_redis sentinel_is_connected_def conn_is_connected_def)
  moreover have "se_sentinels ?s1 = se_sentinels s" by (simp add: sentinel_disconnect_def)
  ultimately show ?case using Cons.IH [of ?s1] Cons.prems by force
qed

section \<open>Properties\<close>

text \<open>A TCP client that can reach the hosts in a list, its state the host it is connected
  to: an instance for witnesses.\<close>

definition directory_ops :: "string list \<Rightarrow> string option tcp_ops" where
  "directory_ops up =
     \<lparr>tcp_connect = (\<lambda>host _ _ _. if host \<in> set up then (Some host, Inr ())
        else (None, Inl (Std_Exception ''unreachable''))),
      tcp_disconnect = (\<lambda>_ _. None), tcp_is_connected = (\<lambda>t. t \<noteq> None),
      tcp_async_read = (\<lambda>_ t. (t, if t \<noteq> None then Inr () else Inl (Std_Exception ''not connected''))),
      tcp_async_write = (\<lambda>_ t. (t, if t \<noteq> None then Inr () else Inl (Std_Exception ''not connected''))),
      tcp_set_on_disconnection_handler = (\<lambda>t. t)\<rparr>"

text \<open>C26: a lookup returns the address the sentinel answered. Asked for a master over an
  idle connection, and given in any packets the bytes of the two-element array a sentinel
  sends, \<open>get_master_addr_by_name\<close> returns true with that host and port, no callback is left
  pending and none is counted as running.\<close>

theorem sentinel_lookup_answered:
  assumes "length host + 2 < 2 ^ 31" "0 < port" "port < 2 ^ 16"
    and "se_callbacks s = []" "se_callbacks_running s = 0" "sentinel_is_connected ops s"
    and "cn_reply_callback (se_client s)" "cn_builder (se_client s) = reply_builder_init"
    and "tcp_async_write ops (cn_buffer (conn_send
        [''SENTINEL'', ''get-master-addr-by-name'', name] (se_client s))) (cn_client (se_client s)) = (t, Inr ())"
    and "reads_throw ops" "concat packets = encode (master_reply host port)"
  shows "\<exists>s'. get_master_addr_by_name ops (read_packets packets @ evs) name False s = Some (s', Inr True) \<and>
      se_host s' = host \<and> se_port s' = port \<and> se_callbacks s' = [] \<and> se_callbacks_running s' = 0"
  using ask_master_answered [of host port "s\<lparr>se_host := [], se_port := 0\<rparr>" ops name t packets evs] assms
  by (auto simp: get_master_addr_by_name_def sentinel_is_connected_def Let_def simp del: encode.simps)

theorem sentinel_lookup_answered_witness:
  "\<exists>s'. get_master_addr_by_name flag_ops (read_packets (map (\<lambda>b. [b]) (encode (master_reply ''db'' 6379))) @ [])
      ''mymaster'' False
      (fst (sentinel_connect flag_ops ''localhost'' 26379 False 0 (sentinel_init False))) =
        Some (s', Inr True) \<and>
      se_host s' = ''db'' \<and> se_port s' = 6379 \<and> se_callbacks s' = [] \<and> se_callbacks_running s' = 0"
  by (rule sentinel_lookup_answered [where t = True])
    (simp_all add: flag_ops_def sentinel_connect_def sentinel_init_def conn_connect_def
      connection_init_def sentinel_is_connected_def conn_is_connected_def reads_throw_def)

text \<open>C27: \<open>connect_sentinel\<close> settles on the first sentinel that answers. The ones before it,
  whose connection attempts throw, are tried and closed in order; the ones after it are not
  touched; the disconnect handler is installed.\<close>

theorem sentinel_first_reachable:
  assumes "se_sentinels s = down @ d # rest"
    and "\<And>d' t. d' \<in> set down \<Longrightarrow> unreachable ops d' t"
    and "\<And>t. \<exists>t1. tcp_connect ops (sd_host d) (sd_port d mod 2 ^ 32) (sd_timeout_msecs d) t = (t1, Inr ()) \<and>
      tcp_async_read ops read_size (tcp_set_on_disconnection_handler ops t1) = (t2, Inr ())"
    and "tcp_is_connected ops t2"
  shows "\<exists>s'. connect_sentinel ops handler s = (s', Inr ()) \<and> cn_client (se_client s') = t2 \<and>
    sentinel_is_connected ops s' \<and> se_disconnect_handler s' = handler \<and> se_sentinels s' = se_sentinels s"
proof -
  obtain s1 where s1: "try_sentinels ops (down @ d # rest) s = try_sentinels ops (d # rest) s1"
    "se_sentinels s1 = se_sentinels s"
    using try_sentinels_skip [of down ops "d # rest" s] assms(2) by blast
  obtain t1 where "tcp_connect ops (sd_host d) (sd_port d mod 2 ^ 32) (sd_timeout_msecs d)
      (cn_client (se_client s1)) = (t1, Inr ())"
    "tcp_async_read ops read_size (tcp_set_on_disconnection_handler ops t1) = (t2, Inr ())"
    using assms(3) by blast
  then show ?thesis
    using assms(1,4) s1
    by (simp add: connect_sentinel_def conn_connect_def sentinel_is_connected_def conn_is_connected_def)
qed

theorem sentinel_first_reachable_witness:
  "\<exists>s'. connect_sentinel (directory_ops [''b'', ''c'']) True
      (add_sentinel ''c'' 26379 0 (add_sentinel ''b'' 26379 0 (add_sentinel ''a'' 26379 0 (sentinel_init None))))
      = (s', Inr ()) \<and> cn_client (se_client s') = Some ''b''"
proof -
  let ?s = "add_sentinel ''c'' 26379 0 (add_sentinel ''b'' 26379 0 (add_sentinel ''a'' 26379 0 (sentinel_init None)))"
  have "se_sentinels ?s = [\<lparr>sd_host = ''a'', sd_port = 26379, sd_timeout_msecs = 0\<rparr>] @
      \<lparr>sd_host = ''b'', sd_port = 26379, sd_timeout_msecs = 0\<rparr> #
      [\<lparr>sd_host = ''c'', sd_port = 26379, sd_timeout_msecs = 0\<rparr>]"
    by (simp add: add_sentinel_def sentinel_init_def)
  from sentinel_first_reachable [OF this, of "directory_ops [''b'', ''c'']" "Some ''b''" True]
  show ?thesis by (auto simp: directory_ops_def unreachable_def)
qed

text \<open>An array answer with fewer than two elements is indexed out of bounds.\<close>

lemma sentinel_short_answer_undefined:
  "snd (get_master_callback (reply_array []) s) = Inl (Undefined_Behaviour Index_Out_Of_Range) \<and>
   snd (get_master_callback (reply_array [reply_string host String_bulk_string]) s) =
     Inl (Undefined_Behaviour Index_Out_Of_Range)"
  by (simp add: get_master_callback_def reply_array_def reply_string_def observer_defs Let_def)

text \<open>C34: a callback that throws (an address that is not a string, a port that is not a
  number) keeps its count: from then on no \<open>sync_commit\<close> returns normally, whatever
  happens on the connection.\<close>

theorem sentinel_throw_blocks_sync:
  assumes "sentinel_receive_handler r s0 = (s, Inl e)"
  shows "sentinel_sync_commit ops evs s \<noteq> Some (s', Inr ())"
proof -
  have "0 < se_callbacks_running s" using sentinel_receive_handler_frame [OF assms] by simp
  moreover have "se_callbacks_running s1 = se_callbacks_running s"
    if "sentinel_try_commit ops s = (s1, Inr u)" for s1 u
    using that by (auto simp: sentinel_try_commit_def split: prod.splits sum.splits)
  moreover have "wait_until (\<lambda>s. se_callbacks_running s = 0 \<and> se_callbacks s = [])
      (sentinel_net_event ops) evs s1 \<noteq> Some (s', Inr ())"
    if "0 < se_callbacks_running s1" for s1 :: "('a, 'b) sentinel"
  proof (rule wait_until_blocks [where P = "\<lambda>s. 0 < se_callbacks_running s"])
    show "\<And>ev s s' u. 0 < se_callbacks_running s \<Longrightarrow> sentinel_net_event ops ev s = Some (s', Inr u) \<Longrightarrow>
        0 < se_callbacks_running s'"
      using sentinel_net_event_running by (metis less_le_trans)
  qed (use that in simp_all)
  ultimately show ?thesis
    by (cases "sentinel_try_commit ops s"; cases "snd (sentinel_try_commit ops s)")
      (simp_all add: sentinel_sync_commit_def)
qed

theorem sentinel_throw_blocks_sync_witness:
  "sentinel_sync_commit flag_ops []
    (fst (sentinel_receive_handler (reply_array [reply_null])
      (sentinel_send [''PING''] SC_Get_Master (sentinel_init True)))) \<noteq>
      Some (sentinel_init True, Inr ())"
  by (rule sentinel_throw_blocks_sync [where r = "reply_array [reply_null]"
        and ?s0.0 = "sentinel_send [''PING''] SC_Get_Master (sentinel_init True)"
        and e = "Redis_Error ''Reply is not a string''"])
    (simp add: sentinel_receive_handler_def sentinel_next_request_def sentinel_send_def
      sentinel_init_def sentinel_run_callback_def get_master_callback_def reply_array_def
      reply_null_def observer_defs Let_def)

end
