(* ===== verification/Client.thy ===== *)
theory Client
  imports Sentinel
begin

text \<open>
  \<open>cpp_redis::client\<close> (sources/core/client.cpp 31-426, 495-510, 699-714 and
  includes/cpp_redis/core/client.hpp): the queue of requests behind a connection, the
  threads that answer requests a failure left behind, and the reconnection procedure.

  User callbacks are opaque names; calling one, or the connect callback, appends to
  \<open>cl_events\<close>. The lambdas of \<open>re_auth\<close> and \<open>re_select\<close> only write to the log (the macro
  expands to nothing unless logging is compiled in). A detached thread of
  \<open>clear_callbacks\<close> is the list of requests it has still to answer, in \<open>cl_workers\<close>; the
  parts of the code that other threads can come between are separate definitions.
\<close>

section \<open>State\<close>

datatype 'cb client_callback =
    CC_Null
  | CC_User 'cb
  | CC_Reauth
  | CC_Reselect

record 'cb command_request =
  cr_command :: "string list"
  cr_callback :: "'cb client_callback"

datatype 'cb client_event =
    CE_Callback 'cb reply
  | CE_Connect string nat connect_state

record ('t, 'cb) client =
  cl_redis_server :: string
  cl_redis_port :: nat
  cl_master_name :: string
  cl_password :: string
  cl_database_index :: int
  cl_client :: "'t connection"
  cl_sentinel :: "('t, 'cb) sentinel"
  cl_connect_timeout_msecs :: nat
  cl_max_reconnects :: int
  cl_current_reconnect_attempts :: int
  cl_reconnect_interval_msecs :: nat
  cl_reconnecting :: bool
  cl_cancel :: bool
  cl_commands :: "'cb command_request list"
  cl_connect_callback :: bool
  cl_callbacks_running :: nat
  cl_workers :: "'cb command_request list list"
  cl_events :: "'cb client_event list"

text \<open>The default constructor: the connection and the sentinel have a TCP client each.\<close>

definition client_init :: "'t \<Rightarrow> 't \<Rightarrow> ('t, 'cb) client" where
  "client_init t t' =
     \<lparr>cl_redis_server = [], cl_redis_port = 0, cl_master_name = [], cl_password = [],
      cl_database_index = 0, cl_client = connection_init t, cl_sentinel = sentinel_init t',
      cl_connect_timeout_msecs = 0, cl_max_reconnects = 0, cl_current_reconnect_attempts = 0,
      cl_reconnect_interval_msecs = 0, cl_reconnecting = False, cl_cancel = False,
      cl_commands = [], cl_connect_callback = False, cl_callbacks_running = 0, cl_workers = [],
      cl_events = []\<rparr>"

abbreviation put_cl_client ::
  "'t connection \<Rightarrow> ('t, 'cb) client \<Rightarrow> ('t, 'cb) client"
where
  "put_cl_client c s \<equiv> s\<lparr>cl_client := c\<rparr>"

definition notify_connect ::
  "string \<Rightarrow> nat \<Rightarrow> connect_state \<Rightarrow> ('t, 'cb) client \<Rightarrow> ('t, 'cb) client"
where
  "notify_connect host port status s =
     (if cl_connect_callback s then s\<lparr>cl_events := cl_events s @ [CE_Connect host port status]\<rparr> else s)"

definition client_is_connected :: "'t tcp_ops \<Rightarrow> ('t, 'cb) client \<Rightarrow> bool" where
  "client_is_connected ops s = conn_is_connected ops (cl_client s)"

definition client_cancel_reconnect :: "('t, 'cb) client \<Rightarrow> ('t, 'cb) client" where
  "client_cancel_reconnect s = s\<lparr>cl_cancel := True\<rparr>"

definition client_add_sentinel ::
  "string \<Rightarrow> nat \<Rightarrow> nat \<Rightarrow> ('t, 'cb) client \<Rightarrow> ('t, 'cb) client"
where
  "client_add_sentinel host port timeout_msecs s =
     s\<lparr>cl_sentinel := add_sentinel host port timeout_msecs (cl_sentinel s)\<rparr>"

definition client_clear_sentinels :: "('t, 'cb) client \<Rightarrow> ('t, 'cb) client" where
  "client_clear_sentinels s = s\<lparr>cl_sentinel := clear_sentinels (cl_sentinel s)\<rparr>"

section \<open>Requests\<close>

definition unprotected_send ::
  "string list \<Rightarrow> 'cb client_callback \<Rightarrow> ('t, 'cb) client \<Rightarrow> ('t, 'cb) client"
where
  "unprotected_send redis_cmd callback s =
     s\<lparr>cl_client := conn_send redis_cmd (cl_client s),
       cl_commands := cl_commands s @ [\<lparr>cr_command = redis_cmd, cr_callback = callback\<rparr>]\<rparr>"

definition client_send ::
  "string list \<Rightarrow> 'cb client_callback \<Rightarrow> ('t, 'cb) client \<Rightarrow> ('t, 'cb) client"
where
  "client_send redis_cmd callback s = unprotected_send redis_cmd callback s"

definition unprotected_auth ::
  "string \<Rightarrow> 'cb client_callback \<Rightarrow> ('t, 'cb) client \<Rightarrow> ('t, 'cb) client"
where
  "unprotected_auth password callback s =
     unprotected_send [''AUTH'', password] callback (s\<lparr>cl_password := password\<rparr>)"

definition client_auth ::
  "string \<Rightarrow> 'cb client_callback \<Rightarrow> ('t, 'cb) client \<Rightarrow> ('t, 'cb) client"
where
  "client_auth password callback s = unprotected_auth password callback s"

definition unprotected_select ::
  "int \<Rightarrow> 'cb client_callback \<Rightarrow> ('t, 'cb) client \<Rightarrow> ('t, 'cb) client"
where
  "unprotected_select index callback s =
     unprotected_send [''SELECT'', to_string_int index] callback (s\<lparr>cl_database_index := index\<rparr>)"

definition client_select ::
  "int \<Rightarrow> 'cb client_callback \<Rightarrow> ('t, 'cb) client \<Rightarrow> ('t, 'cb) client"
where
  "client_select index callback s = unprotected_select index callback s"

section \<open>Failures\<close>

text \<open>\<open>clear_callbacks\<close> hands the pending requests to a detached thread.\<close>

definition client_clear_callbacks :: "('t, 'cb) client \<Rightarrow> ('t, 'cb) client" where
  "client_clear_callbacks s =
     (if cl_commands s = [] then s
      else s\<lparr>cl_commands := [],
             cl_callbacks_running := cl_callbacks_running s + length (cl_commands s),
             cl_workers := cl_workers s @ [cl_commands s]\<rparr>)"

definition network_failure :: reply where
  "network_failure = reply_string ''network failure'' String_error"

definition run_callback ::
  "'cb client_callback \<Rightarrow> reply \<Rightarrow> ('t, 'cb) client \<Rightarrow> ('t, 'cb) client"
where
  "run_callback callback r s =
     (case callback of
        CC_Null \<Rightarrow> s
      | CC_User cb \<Rightarrow> s\<lparr>cl_events := cl_events s @ [CE_Callback cb r]\<rparr>
      | CC_Reauth \<Rightarrow> s
      | CC_Reselect \<Rightarrow> s)"

text \<open>One round of the loop of the detached thread \<open>i\<close>.\<close>

definition worker_step :: "nat \<Rightarrow> ('t, 'cb) client \<Rightarrow> ('t, 'cb) client" where
  "worker_step i s =
     (case (if i < length (cl_workers s) then cl_workers s ! i else []) of
        [] \<Rightarrow> s
      | request # rest \<Rightarrow>
          let s' = run_callback (cr_callback request) network_failure s
          in s'\<lparr>cl_callbacks_running := cl_callbacks_running s' - 1,
                cl_workers := (cl_workers s')[i := rest]\<rparr>)"

definition client_try_commit ::
  "'t tcp_ops \<Rightarrow> ('t, 'cb) client \<Rightarrow> ('t, 'cb) client \<times> unit result"
where
  "client_try_commit ops s =
     (case conn_commit ops (cl_client s) of
        (c, Inl e) \<Rightarrow>
          (if is_redis_error e then client_clear_callbacks (put_cl_client c s) else put_cl_client c s,
           Inl e)
      | (c, Inr u) \<Rightarrow> (put_cl_client c s, Inr ()))"

definition client_commit ::
  "'t tcp_ops \<Rightarrow> ('t, 'cb) client \<Rightarrow> ('t, 'cb) client \<times> unit result"
where
  "client_commit ops s =
     (if \<not> cl_reconnecting s then client_try_commit ops s else (s, Inr ()))"

definition client_disconnect ::
  "'t tcp_ops \<Rightarrow> bool \<Rightarrow> ('t, 'cb) client \<Rightarrow> ('t, 'cb) client"
where
  "client_disconnect ops wait_for_removal s =
     client_clear_callbacks (put_cl_client (conn_disconnect ops wait_for_removal (cl_client s)) s)"

section \<open>Replies\<close>

text \<open>The first critical section of \<open>connection_receive_handler\<close>; \<open>None\<close>: no request.\<close>

definition client_next_request ::
  "('t, 'cb) client \<Rightarrow> 'cb command_request option \<times> ('t, 'cb) client"
where
  "client_next_request s =
     (let s' = s\<lparr>cl_callbacks_running := cl_callbacks_running s + 1\<rparr>
      in case cl_commands s of
           [] \<Rightarrow> (None, s')
         | request # rest \<Rightarrow> (Some request, s'\<lparr>cl_commands := rest\<rparr>))"

text \<open>The call of the callback, and the second critical section.\<close>

definition client_finish_request ::
  "'cb command_request option \<Rightarrow> reply \<Rightarrow> ('t, 'cb) client \<Rightarrow> ('t, 'cb) client"
where
  "client_finish_request request r s =
     (let s' = (case request of None \<Rightarrow> s | Some q \<Rightarrow> run_callback (cr_callback q) r s)
      in s'\<lparr>cl_callbacks_running := cl_callbacks_running s' - 1\<rparr>)"

definition client_receive_handler ::
  "reply \<Rightarrow> ('t, 'cb) client \<Rightarrow> ('t, 'cb) client \<times> unit result"
where
  "client_receive_handler r s =
     (let (request, s') = client_next_request s in (client_finish_request request r s', Inr ()))"

section \<open>Connecting\<close>

definition client_connect ::
  "'t tcp_ops \<Rightarrow> string \<Rightarrow> nat \<Rightarrow> bool \<Rightarrow> nat \<Rightarrow> int \<Rightarrow> nat \<Rightarrow> ('t, 'cb) client \<Rightarrow>
   ('t, 'cb) client \<times> unit result"
where
  "client_connect ops host port connect_callback timeout_msecs max_reconnects reconnect_interval_msecs s =
     (let s1 = s\<lparr>cl_redis_server := host, cl_redis_port := port,
                 cl_connect_callback := connect_callback, cl_max_reconnects := max_reconnects,
                 cl_reconnect_interval_msecs := reconnect_interval_msecs\<rparr>;
          s2 = notify_connect host port CS_start s1
      in case conn_connect ops host port True True timeout_msecs (cl_client s2) of
           (c, Inl e) \<Rightarrow> (put_cl_client c s2, Inl e)
         | (c, Inr u) \<Rightarrow>
             (notify_connect (cl_redis_server s2) (cl_redis_port s2) CS_ok (put_cl_client c s2), Inr ()))"

text \<open>\<open>m_sentinel.get_master_addr_by_name(name, m_redis_server, m_redis_port, true)\<close>: the
  sentinel writes the two members. \<open>evs\<close> is what the sentinel's connection reports.\<close>

definition client_lookup ::
  "'t tcp_ops \<Rightarrow> net_event list \<Rightarrow> ('t, 'cb) client \<Rightarrow> (('t, 'cb) client \<times> bool result) option"
where
  "client_lookup ops evs s =
     (case get_master_addr_by_name ops evs (cl_master_name s) True (cl_sentinel s) of
        None \<Rightarrow> None
      | Some (se, r) \<Rightarrow>
          Some (s\<lparr>cl_sentinel := se, cl_redis_server := se_host se, cl_redis_port := se_port se\<rparr>, r))"

definition client_connect_master ::
  "'t tcp_ops \<Rightarrow> net_event list \<Rightarrow> string \<Rightarrow> bool \<Rightarrow> nat \<Rightarrow> int \<Rightarrow> nat \<Rightarrow> ('t, 'cb) client \<Rightarrow>
   (('t, 'cb) client \<times> unit result) option"
where
  "client_connect_master ops evs name connect_callback timeout_msecs max_reconnects
      reconnect_interval_msecs s =
     (case client_lookup ops evs (s\<lparr>cl_master_name := name\<rparr>) of
        None \<Rightarrow> None
      | Some (s', Inl e) \<Rightarrow> Some (s', Inl e)
      | Some (s', Inr found) \<Rightarrow>
          Some (if found
                then client_connect ops (cl_redis_server s') (cl_redis_port s') connect_callback
                       timeout_msecs max_reconnects reconnect_interval_msecs s'
                else (s', Inl (Redis_Error
                       (''cpp_redis::client::connect() could not find master for name '' @ name)))))"

section \<open>Reconnecting\<close>

definition should_reconnect :: "'t tcp_ops \<Rightarrow> ('t, 'cb) client \<Rightarrow> bool" where
  "should_reconnect ops s \<longleftrightarrow>
     \<not> client_is_connected ops s \<and> \<not> cl_cancel s \<and>
     (cl_max_reconnects s = -1 \<or> cl_current_reconnect_attempts s < cl_max_reconnects s)"

definition sleep_before_next_reconnect_attempt :: "('t, 'cb) client \<Rightarrow> ('t, 'cb) client" where
  "sleep_before_next_reconnect_attempt s =
     (if cl_reconnect_interval_msecs s = 0 then s
      else notify_connect (cl_redis_server s) (cl_redis_port s) CS_sleeping s)"

definition re_auth :: "('t, 'cb) client \<Rightarrow> ('t, 'cb) client" where
  "re_auth s = (if cl_password s = [] then s else unprotected_auth (cl_password s) CC_Reauth s)"

definition re_select :: "('t, 'cb) client \<Rightarrow> ('t, 'cb) client" where
  "re_select s =
     (if cl_database_index s \<le> 0 then s else unprotected_select (cl_database_index s) CC_Reselect s)"

definition resend_failed_commands :: "('t, 'cb) client \<Rightarrow> ('t, 'cb) client" where
  "resend_failed_commands s =
     (if cl_commands s = [] then s
      else foldl (\<lambda>s' q. unprotected_send (cr_command q) (cr_callback q) s')
             (s\<lparr>cl_commands := []\<rparr>) (cl_commands s))"

text \<open>The part of \<open>reconnect\<close> after the lookup. \<open>catch (...)\<close> takes every exception.\<close>

definition reconnect_to_server ::
  "'t tcp_ops \<Rightarrow> ('t, 'cb) client \<Rightarrow> ('t, 'cb) client \<times> unit result"
where
  "reconnect_to_server ops s =
     (case client_connect ops (cl_redis_server s) (cl_redis_port s) (cl_connect_callback s)
             (cl_connect_timeout_msecs s) (cl_max_reconnects s) (cl_reconnect_interval_msecs s) s of
        (s1, r) \<Rightarrow>
          (if (case r of Inl e \<Rightarrow> \<not> is_exception e | Inr u \<Rightarrow> False) then (s1, r)
           else if \<not> client_is_connected ops s1
           then (notify_connect (cl_redis_server s1) (cl_redis_port s1) CS_failed s1, Inr ())
           else client_try_commit ops (resend_failed_commands (re_select (re_auth
                  (notify_connect (cl_redis_server s1) (cl_redis_port s1) CS_ok s1))))))"

text \<open>\<open>env n\<close>: what the sentinel's connection reports during attempt \<open>n\<close>. The counter is a
  signed 32-bit integer.\<close>

definition client_reconnect ::
  "'t tcp_ops \<Rightarrow> (int \<Rightarrow> net_event list) \<Rightarrow> ('t, 'cb) client \<Rightarrow> (('t, 'cb) client \<times> unit result) option"
where
  "client_reconnect ops env s0 =
     (let n = cl_current_reconnect_attempts s0 + 1; s = s0\<lparr>cl_current_reconnect_attempts := n\<rparr>
      in if \<not> in_int32 n then Some (s0, Inl (Undefined_Behaviour Signed_Overflow))
         else if cl_master_name s = [] then Some (reconnect_to_server ops s)
         else case client_lookup ops (env n) s of
           None \<Rightarrow> None
         | Some (s', Inl e) \<Rightarrow> Some (s', Inl e)
         | Some (s', Inr found) \<Rightarrow>
             (if \<not> found
              then Some (notify_connect (cl_redis_server s') (cl_redis_port s') CS_lookup_failed s', Inr ())
              else Some (reconnect_to_server ops s')))"

definition reconnect_round ::
  "'t tcp_ops \<Rightarrow> (int \<Rightarrow> net_event list) \<Rightarrow> ('t, 'cb) client \<Rightarrow> (('t, 'cb) client \<times> unit result) option"
where
  "reconnect_round ops env s = client_reconnect ops env (sleep_before_next_reconnect_attempt s)"

text \<open>An exception in the loop leaves \<open>m_reconnecting\<close> set.\<close>

definition client_disconnection_handler ::
  "'t tcp_ops \<Rightarrow> (int \<Rightarrow> net_event list) \<Rightarrow> ('t, 'cb) client \<Rightarrow> (('t, 'cb) client \<times> unit result) option"
where
  "client_disconnection_handler ops env s =
     (if cl_reconnecting s then Some (s, Inr ())
      else let s1 = s\<lparr>cl_reconnecting := True, cl_current_reconnect_attempts := 0\<rparr>;
               s2 = notify_connect (cl_redis_server s1) (cl_redis_port s1) CS_dropped s1
        in case reconnect_loop (should_reconnect ops) (reconnect_round ops env) s2 of
             None \<Rightarrow> None
           | Some (s3, Inl e) \<Rightarrow> Some (s3, Inl e)
           | Some (s3, Inr u) \<Rightarrow>
               let s4 = (if \<not> client_is_connected ops s3
                         then let s' = client_clear_callbacks s3
                              in notify_connect (cl_redis_server s') (cl_redis_port s') CS_stopped s'
                         else s3)
               in Some (s4\<lparr>cl_reconnecting := False\<rparr>, Inr ()))"

section \<open>Events of the connection\<close>

fun client_net_event ::
  "'t tcp_ops \<Rightarrow> (int \<Rightarrow> net_event list) \<Rightarrow> net_event \<Rightarrow> ('t, 'cb) client \<Rightarrow>
   (('t, 'cb) client \<times> unit result) option"
where
  "client_net_event ops env (Net_Read res) s =
     tcp_client_receive_handler ops cl_client put_cl_client client_receive_handler
       (client_disconnection_handler ops env) res s"
| "client_net_event ops env Net_Disconnected s =
     tcp_client_disconnection_handler cl_client put_cl_client (client_disconnection_handler ops env) s"

definition sync_ready :: "('t, 'cb) client \<Rightarrow> bool" where
  "sync_ready s \<longleftrightarrow> cl_callbacks_running s = 0 \<and> cl_commands s = []"

text \<open>\<open>sync_commit\<close> against the events to come, those of the connection and the rounds of
  the detached threads. What an event does is a parameter first, so that the events can also
  be those of a server that answers what was written.\<close>

datatype thread_event =
    From_Network net_event
  | From_Worker nat

fun client_thread_event ::
  "'t tcp_ops \<Rightarrow> (int \<Rightarrow> net_event list) \<Rightarrow> thread_event \<Rightarrow> ('t, 'cb) client \<Rightarrow>
   (('t, 'cb) client \<times> unit result) option"
where
  "client_thread_event ops env (From_Network ev) s = client_net_event ops env ev s"
| "client_thread_event ops env (From_Worker i) s = Some (worker_step i s, Inr ())"

definition client_sync_commit_by ::
  "('e \<Rightarrow> ('t, 'cb) client \<Rightarrow> (('t, 'cb) client \<times> unit result) option) \<Rightarrow> 't tcp_ops \<Rightarrow>
   'e list \<Rightarrow> ('t, 'cb) client \<Rightarrow> (('t, 'cb) client \<times> unit result) option"
where
  "client_sync_commit_by handle ops evs s =
     (case (if \<not> cl_reconnecting s then client_try_commit ops s else (s, Inr ())) of
        (s', Inl e) \<Rightarrow> Some (s', Inl e)
      | (s', Inr u) \<Rightarrow> wait_until sync_ready handle evs s')"

definition client_sync_commit ::
  "'t tcp_ops \<Rightarrow> (int \<Rightarrow> net_event list) \<Rightarrow> thread_event list \<Rightarrow> ('t, 'cb) client \<Rightarrow>
   (('t, 'cb) client \<times> unit result) option"
where
  "client_sync_commit ops env evs s = client_sync_commit_by (client_thread_event ops env) ops evs s"

text \<open>With a timeout: \<open>evs\<close> is what happens before it expires; the value is the log line.\<close>

definition client_sync_commit_for ::
  "'t tcp_ops \<Rightarrow> (int \<Rightarrow> net_event list) \<Rightarrow> thread_event list \<Rightarrow> ('t, 'cb) client \<Rightarrow>
   (('t, 'cb) client \<times> string result) option"
where
  "client_sync_commit_for ops env evs s =
     (case (if \<not> cl_reconnecting s then client_try_commit ops s else (s, Inr ())) of
        (s', Inl e) \<Rightarrow> Some (s', Inl e)
      | (s', Inr u) \<Rightarrow>
          (case wait_for sync_ready (client_thread_event ops env) evs s' of
             None \<Rightarrow> None
           | Some (s'', Inl e) \<Rightarrow> Some (s'', Inl e)
           | Some (s'', Inr b) \<Rightarrow> Some (s'', Inr (''cpp_redis::client '' @ wait_log b))))"

section \<open>The contracts\<close>

lemma run_callback_frame [simp]:
  "cl_client (run_callback cb r s) = cl_client s" "cl_commands (run_callback cb r s) = cl_commands s"
  "cl_workers (run_callback cb r s) = cl_workers s"
  "cl_callbacks_running (run_callback cb r s) = cl_callbacks_running s"
  by (simp_all add: run_callback_def split: client_callback.splits)

lemma client_receive_handler_client [simp]:
  "cl_client (fst (client_receive_handler r s)) = cl_client s"
  by (auto simp: client_receive_handler_def client_next_request_def client_finish_request_def Let_def
      split: list.splits option.splits)

lemma client_receive_handler_ok [simp]: "snd (client_receive_handler r s) = Inr ()"
  by (simp add: client_receive_handler_def split: prod.splits)

interpretation client_owner: connection_owner cl_client put_cl_client client_receive_handler
proof unfold_locales
  show "\<And>r s s' res. client_receive_handler r s = (s', res) \<Longrightarrow>
      rb_available_replies (cn_builder (cl_client s')) = rb_available_replies (cn_builder (cl_client s))"
    by (metis client_receive_handler_client fst_conv)
qed simp

lemma client_receive_handler_put:
  "client_receive_handler r (put_cl_client c s) = (put_cl_client c (fst (client_receive_handler r s)), Inr ())"
  by (auto simp: client_receive_handler_def client_next_request_def client_finish_request_def
      run_callback_def Let_def split: list.splits client_callback.splits)

interpretation client_quiet: quiet_owner cl_client put_cl_client client_receive_handler
  by unfold_locales (simp_all add: client_receive_handler_put)

interpretation client_pipeline: request_pipeline
  "\<lambda>s. map cr_callback (cl_commands s)" "\<lambda>s. cn_buffer (cl_client s)" client_send
  "\<lambda>s. case client_next_request s of (q, s') \<Rightarrow> (map_option cr_callback q, s')"
  by unfold_locales
    (auto simp: client_send_def unprotected_send_def conn_send_def client_next_request_def Let_def
      split: list.splits)

lemma client_connect_frame:
  "client_connect ops h p cc tm mr ri s = (s', r) \<Longrightarrow>
    cl_max_reconnects s' = mr \<and> cl_commands s' = cl_commands s \<and> cl_workers s' = cl_workers s \<and>
    cl_callbacks_running s' = cl_callbacks_running s \<and>
    cl_current_reconnect_attempts s' = cl_current_reconnect_attempts s \<and>
    cl_password s' = cl_password s \<and> cl_database_index s' = cl_database_index s \<and>
    cl_master_name s' = cl_master_name s \<and> cl_reconnecting s' = cl_reconnecting s"
  by (auto simp: client_connect_def notify_connect_def Let_def split: prod.splits sum.splits if_splits)

lemma notify_connect_frame [simp]:
  "cl_client (notify_connect h p st s) = cl_client s"
  "cl_commands (notify_connect h p st s) = cl_commands s"
  "cl_workers (notify_connect h p st s) = cl_workers s"
  "cl_callbacks_running (notify_connect h p st s) = cl_callbacks_running s"
  "cl_current_reconnect_attempts (notify_connect h p st s) = cl_current_reconnect_attempts s"
  "cl_max_reconnects (notify_connect h p st s) = cl_max_reconnects s"
  "cl_password (notify_connect h p st s) = cl_password s"
  "cl_database_index (notify_connect h p st s) = cl_database_index s"
  "cl_master_name (notify_connect h p st s) = cl_master_name s"
  "cl_sentinel (notify_connect h p st s) = cl_sentinel s"
  "cl_cancel (notify_connect h p st s) = cl_cancel s"
  "cl_reconnecting (notify_connect h p st s) = cl_reconnecting s"
  "cl_connect_callback (notify_connect h p st s) = cl_connect_callback s"
  by (simp_all add: notify_connect_def)

text \<open>What re-authenticating, re-selecting and resending have in common: they only add
  requests and their bytes.\<close>

definition same_attempts :: "('t, 'cb) client \<Rightarrow> ('t, 'cb) client \<Rightarrow> bool" where
  "same_attempts s s' \<longleftrightarrow>
     cl_current_reconnect_attempts s' = cl_current_reconnect_attempts s \<and>
     cl_max_reconnects s' = cl_max_reconnects s"

lemma same_attempts_trans:
  "same_attempts s s' \<Longrightarrow> same_attempts s' s'' \<Longrightarrow> same_attempts s s''"
  by (simp add: same_attempts_def)

lemma unprotected_send_attempts: "same_attempts s (unprotected_send ws cb s)"
  by (simp add: same_attempts_def unprotected_send_def)

lemma foldl_unprotected_send:
  "foldl (\<lambda>s' q. unprotected_send (cr_command q) (cr_callback q) s') s qs =
    s\<lparr>cl_client := (cl_client s)\<lparr>cn_buffer := cn_buffer (cl_client s) @
         concat (map (build_command \<circ> cr_command) qs)\<rparr>,
      cl_commands := cl_commands s @ qs\<rparr>"
  by (induction qs arbitrary: s) (simp_all add: unprotected_send_def conn_send_def)

lemma resend_failed_commands_eq:
  "resend_failed_commands s =
    s\<lparr>cl_client := (cl_client s)\<lparr>cn_buffer := cn_buffer (cl_client s) @
         concat (map (build_command \<circ> cr_command) (cl_commands s))\<rparr>\<rparr>"
  by (simp add: resend_failed_commands_def foldl_unprotected_send)

lemma resend_attempts: "same_attempts s (resend_failed_commands s)"
  by (simp add: resend_failed_commands_eq same_attempts_def)

lemma re_auth_select_attempts: "same_attempts s (re_select (re_auth s))"
  by (simp add: re_auth_def re_select_def unprotected_auth_def unprotected_select_def same_attempts_def
      unprotected_send_def)

lemma try_commit_attempts: "same_attempts s (fst (client_try_commit ops s))"
  by (auto simp: client_try_commit_def client_clear_callbacks_def same_attempts_def
      split: prod.splits sum.splits)

lemma reconnect_to_server_attempts: "same_attempts s (fst (reconnect_to_server ops s))"
proof -
  obtain s1 r where c: "client_connect ops (cl_redis_server s) (cl_redis_port s) (cl_connect_callback s)
      (cl_connect_timeout_msecs s) (cl_max_reconnects s) (cl_reconnect_interval_msecs s) s = (s1, r)"
    by (metis surj_pair)
  have s1: "same_attempts s s1" using client_connect_frame [OF c] by (simp add: same_attempts_def)
  let ?s2 = "notify_connect (cl_redis_server s1) (cl_redis_port s1) CS_ok s1"
  have "same_attempts s ?s2" using s1 by (simp add: same_attempts_def)
  then have "same_attempts s (fst (client_try_commit ops (resend_failed_commands (re_select (re_auth ?s2)))))"
    using re_auth_select_attempts resend_attempts try_commit_attempts same_attempts_trans by metis
  then show ?thesis
    using c s1 unfolding reconnect_to_server_def by (simp add: same_attempts_def)
qed

lemma reconnect_round_attempts:
  assumes "reconnect_round ops env s = Some (s', Inr u)"
  shows "cl_current_reconnect_attempts s' = cl_current_reconnect_attempts s + 1 \<and>
    cl_max_reconnects s' = cl_max_reconnects s"
proof -
  let ?s0 = "sleep_before_next_reconnect_attempt s"
  let ?s1 = "?s0\<lparr>cl_current_reconnect_attempts := cl_current_reconnect_attempts ?s0 + 1\<rparr>"
  have s0: "same_attempts s ?s0"
    by (simp add: sleep_before_next_reconnect_attempt_def same_attempts_def)
  have "same_attempts ?s1 s'"
  proof (cases "cl_master_name ?s1 = []")
    case True
    then have "s' = fst (reconnect_to_server ops ?s1)"
      using assms
      by (cases "reconnect_to_server ops ?s1")
        (auto simp: reconnect_round_def client_reconnect_def Let_def split: if_splits)
    then show ?thesis using reconnect_to_server_attempts by metis
  next
    case False
    then obtain s2 found where l: "client_lookup ops (env (cl_current_reconnect_attempts ?s1)) ?s1 =
        Some (s2, Inr found)"
      using assms
      by (auto simp: reconnect_round_def client_reconnect_def Let_def
          split: if_splits option.splits sum.splits)
    have "same_attempts ?s1 s2" using l by (auto simp: client_lookup_def same_attempts_def split: option.splits)
    moreover have "same_attempts s2 s'"
      using assms False l reconnect_to_server_attempts [of s2 ops]
      by (cases "reconnect_to_server ops s2")
        (auto simp: reconnect_round_def client_reconnect_def Let_def same_attempts_def split: if_splits)
    ultimately show ?thesis by (rule same_attempts_trans)
  qed
  then show ?thesis using s0 by (simp add: same_attempts_def)
qed

interpretation client_reconnecting: reconnecting
  "should_reconnect ops" "reconnect_round ops env" cl_current_reconnect_attempts cl_max_reconnects
  for ops :: "'t tcp_ops" and env
  by unfold_locales (use reconnect_round_attempts in \<open>auto simp: should_reconnect_def\<close>)

section \<open>Reconnection without a sentinel\<close>

lemma same_identity [simp]:
  "cl_master_name (fst (client_try_commit ops s)) = cl_master_name s"
  "cl_reconnecting (fst (client_try_commit ops s)) = cl_reconnecting s"
  "cl_master_name (resend_failed_commands s) = cl_master_name s"
  "cl_reconnecting (resend_failed_commands s) = cl_reconnecting s"
  "cl_master_name (re_select s) = cl_master_name s" "cl_reconnecting (re_select s) = cl_reconnecting s"
  "cl_master_name (re_auth s) = cl_master_name s" "cl_reconnecting (re_auth s) = cl_reconnecting s"
  by (auto simp: client_try_commit_def client_clear_callbacks_def resend_failed_commands_eq re_auth_def
      re_select_def unprotected_auth_def unprotected_select_def unprotected_send_def
      split: prod.splits sum.splits)

lemma reconnect_to_server_fields:
  "cl_master_name (fst (reconnect_to_server ops s)) = cl_master_name s \<and>
   cl_reconnecting (fst (reconnect_to_server ops s)) = cl_reconnecting s"
proof -
  obtain s1 r where c: "client_connect ops (cl_redis_server s) (cl_redis_port s) (cl_connect_callback s)
      (cl_connect_timeout_msecs s) (cl_max_reconnects s) (cl_reconnect_interval_msecs s) s = (s1, r)"
    by (metis surj_pair)
  then show ?thesis using client_connect_frame [OF c] by (simp add: reconnect_to_server_def)
qed

lemma client_connect_ok:
  "conn_connect ops h p True True tm (cl_client s) = (c, Inr ()) \<Longrightarrow>
   \<exists>s1. client_connect ops h p cc tm mr ri s = (s1, Inr ()) \<and> cl_client s1 = c"
  by (simp add: client_connect_def Let_def)

lemma lookup_fields:
  "client_lookup ops evs s = Some (s', r) \<Longrightarrow>
    cl_reconnecting s' = cl_reconnecting s \<and> cl_master_name s' = cl_master_name s"
  by (auto simp: client_lookup_def split: option.splits)

lemma reconnect_round_fields:
  assumes "reconnect_round ops env s = Some (s', r)"
  shows "cl_reconnecting s' = cl_reconnecting s \<and> cl_master_name s' = cl_master_name s"
proof -
  have server: "cl_reconnecting s2 = cl_reconnecting s0 \<and> cl_master_name s2 = cl_master_name s0"
    if "reconnect_to_server ops s0 = (s2, r2)" for s0 s2 r2
    using reconnect_to_server_fields [of ops s0] that by simp
  show ?thesis
    using assms
    by (auto simp: reconnect_round_def client_reconnect_def sleep_before_next_reconnect_attempt_def Let_def
        split: if_splits option.splits sum.splits dest!: server lookup_fields)
qed

lemma reconnect_round_returns: "cl_master_name s = [] \<Longrightarrow> reconnect_round ops env s \<noteq> None"
  by (simp add: reconnect_round_def client_reconnect_def sleep_before_next_reconnect_attempt_def Let_def)

text \<open>The bytes and the requests after the connection is back.\<close>

definition restored_requests :: "('t, 'cb) client \<Rightarrow> 'cb command_request list" where
  "restored_requests s =
     (if cl_password s = [] then []
      else [\<lparr>cr_command = [''AUTH'', cl_password s], cr_callback = CC_Reauth\<rparr>])
     @ (if cl_database_index s \<le> 0 then []
        else [\<lparr>cr_command = [''SELECT'', to_string_int (cl_database_index s)], cr_callback = CC_Reselect\<rparr>])"

definition wire :: "'cb command_request list \<Rightarrow> string" where
  "wire qs = concat (map (build_command \<circ> cr_command) qs)"

lemma wire_append [simp]: "wire [] = []" "wire (qs @ qs') = wire qs @ wire qs'"
  by (simp_all add: wire_def)

lemma re_auth_select_eq:
  "cl_commands (re_select (re_auth s)) = cl_commands s @ restored_requests s"
  "cl_client (re_select (re_auth s)) =
     (cl_client s)\<lparr>cn_buffer := cn_buffer (cl_client s) @ wire (restored_requests s)\<rparr>"
  by (simp_all add: re_auth_def re_select_def unprotected_auth_def unprotected_select_def
      unprotected_send_def conn_send_def restored_requests_def wire_def)

lemma restore_eq:
  "cl_commands (resend_failed_commands (re_select (re_auth s))) = cl_commands s @ restored_requests s"
  "cl_client (resend_failed_commands (re_select (re_auth s))) =
     (cl_client s)\<lparr>cn_buffer := cn_buffer (cl_client s) @ wire (restored_requests s) @
        wire (cl_commands s @ restored_requests s)\<rparr>"
  by (simp_all add: resend_failed_commands_eq re_auth_select_eq wire_def)

lemma reconnect_to_server_ok:
  assumes "conn_connect ops (cl_redis_server s) (cl_redis_port s) True True (cl_connect_timeout_msecs s)
      (cl_client s) = (c, Inr ())"
    and "conn_is_connected ops c" "cn_buffer c = []"
    and "tcp_async_write ops (wire (restored_requests s) @ wire (cl_commands s @ restored_requests s))
      (cn_client c) = (t, Inr ())"
  shows "\<exists>s'. reconnect_to_server ops s = (s', Inr ()) \<and>
    cl_commands s' = cl_commands s @ restored_requests s \<and>
    cl_client s' = c\<lparr>cn_client := t, cn_buffer := []\<rparr>"
proof -
  let ?go = "client_connect ops (cl_redis_server s) (cl_redis_port s) (cl_connect_callback s)
      (cl_connect_timeout_msecs s) (cl_max_reconnects s) (cl_reconnect_interval_msecs s) s"
  obtain s1 where c: "?go = (s1, Inr ())" "cl_client s1 = c"
    using client_connect_ok [OF assms(1)] by blast
  let ?s2 = "notify_connect (cl_redis_server s1) (cl_redis_port s1) CS_ok s1"
  have r: "restored_requests ?s2 = restored_requests s" "cl_commands ?s2 = cl_commands s"
    using client_connect_frame [OF c(1)] by (simp_all add: restored_requests_def)
  show ?thesis
    using c assms(2-4) r restore_eq [of ?s2]
    by (simp add: reconnect_to_server_def client_is_connected_def client_try_commit_def conn_commit_def)
qed

section \<open>Properties\<close>

text \<open>Replies reach the callbacks in the order of the requests. After any calls of
  \<open>send\<close> on an idle client, the buffer holds the bytes of the commands in order, and the
  successive replies take the callbacks in that order.\<close>

lemma client_replies_in_order:
  assumes "cl_commands s = []"
  shows "fst (take_all (\<lambda>s. case client_next_request s of (q, s') \<Rightarrow> (map_option cr_callback q, s'))
      (length rs) (fold (\<lambda>(ws, cb). client_send ws cb) rs s)) = map (Some \<circ> snd) rs \<and>
    cn_buffer (cl_client (fold (\<lambda>(ws, cb). client_send ws cb) rs s)) =
      cn_buffer (cl_client s) @ concat (map (build_command \<circ> fst) rs)"
  using client_pipeline.pipelined [of s rs] assms by simp

text \<open>A commit that fails keeps no request: all of them, in order, go to one detached
  thread that will answer each, the buffer is empty and the exception is passed on.\<close>

lemma failed_commit_hands_over:
  assumes "client_try_commit ops s = (s', Inl e)" "is_redis_error e" "cl_commands s \<noteq> []"
  shows "cl_commands s' = [] \<and> cl_workers s' = cl_workers s @ [cl_commands s] \<and>
    cl_callbacks_running s' = cl_callbacks_running s + length (cl_commands s) \<and>
    cn_buffer (cl_client s') = []"
  using assms
  by (auto simp: client_try_commit_def client_clear_callbacks_def conn_commit_def
      split: prod.splits sum.splits)

text \<open>C23: reconnecting without a sentinel ends: with a bound on the attempts, the
  disconnection handler returns whatever the network does.\<close>

theorem reconnection_terminates:
  assumes "cl_master_name s = []" "cl_max_reconnects s \<noteq> -1"
  shows "client_disconnection_handler ops env s \<noteq> None"
proof -
  let ?s2 = "notify_connect (cl_redis_server s) (cl_redis_port s) CS_dropped
    (s\<lparr>cl_reconnecting := True, cl_current_reconnect_attempts := 0\<rparr>)"
  have "reconnect_loop (should_reconnect ops) (reconnect_round ops env) ?s2 \<noteq> None"
    by (rule client_reconnecting.bounded_loop_returns [where P = "\<lambda>s. cl_master_name s = []"])
      (use assms in \<open>auto simp: reconnect_round_returns dest: reconnect_round_fields\<close>)
  then show ?thesis
    by (auto simp: client_disconnection_handler_def Let_def split: sum.splits)
qed

theorem reconnection_terminates_witness:
  "client_disconnection_handler flag_ops (\<lambda>_. []) (client_init False False) \<noteq> None"
  by (rule reconnection_terminates) (simp_all add: client_init_def)

text \<open>C24: when the handler returns normally, either the connection is back or it gave up: no
  attempt was left (or they were cancelled), no request is left in the queue; the attempts
  made respect the bound, and the client is no longer reconnecting.\<close>

theorem reconnection_outcome:
  assumes "client_disconnection_handler ops env s = Some (s', Inr ())" "\<not> cl_reconnecting s"
    and "0 \<le> cl_max_reconnects s"
  shows "\<not> cl_reconnecting s' \<and> (client_is_connected ops s' \<or> cl_commands s' = []) \<and>
    cl_current_reconnect_attempts s' \<le> cl_max_reconnects s"
proof -
  let ?s2 = "notify_connect (cl_redis_server s) (cl_redis_port s) CS_dropped
    (s\<lparr>cl_reconnecting := True, cl_current_reconnect_attempts := 0\<rparr>)"
  obtain s3 where l: "reconnect_loop (should_reconnect ops) (reconnect_round ops env) ?s2 = Some (s3, Inr ())"
    and s': "s' = (if \<not> client_is_connected ops s3
        then notify_connect (cl_redis_server (client_clear_callbacks s3))
               (cl_redis_port (client_clear_callbacks s3)) CS_stopped (client_clear_callbacks s3)
        else s3)\<lparr>cl_reconnecting := False\<rparr>"
    using assms(1,2)
    by (auto simp: client_disconnection_handler_def Let_def split: option.splits sum.splits)
  have "cl_current_reconnect_attempts s3 \<le> cl_max_reconnects s"
    using client_reconnecting.loop_result(4) [OF l] assms(3) by simp
  then show ?thesis
    by (simp add: s' client_clear_callbacks_def client_is_connected_def)
qed

theorem reconnection_outcome_witness:
  "cl_commands (fst (the (client_disconnection_handler flag_ops (\<lambda>_. [])
      (client_send [''PING''] (CC_User (1::nat)) (client_init False False))))) = []"
proof -
  let ?s = "client_send [''PING''] (CC_User (1::nat)) (client_init False False)"
  obtain s' where h: "client_disconnection_handler flag_ops (\<lambda>_. []) ?s = Some (s', Inr ())"
    and nc: "\<not> client_is_connected flag_ops s'"
    by (simp add: client_disconnection_handler_def Let_def reconnect_loop.simps should_reconnect_def
        client_is_connected_def conn_is_connected_def flag_ops_def client_send_def unprotected_send_def
        conn_send_def client_init_def connection_init_def notify_connect_def client_clear_callbacks_def)
  have "cl_commands s' = []"
    using reconnection_outcome [OF h] nc
    by (simp add: client_send_def unprotected_send_def client_init_def)
  then show ?thesis using h by simp
qed

text \<open>C17: a request survives a reconnection. Without a password and with the default
  database, once the connection is back exactly the pending requests are written again,
  in their order, and the queue still holds them in that order: replies and callbacks match.\<close>

theorem reconnect_resends_pending:
  assumes "cl_password s = []" "cl_database_index s \<le> 0"
    and "conn_connect ops (cl_redis_server s) (cl_redis_port s) True True (cl_connect_timeout_msecs s)
      (cl_client s) = (c, Inr ())"
    and "conn_is_connected ops c" "cn_buffer c = []"
    and "tcp_async_write ops (concat (map (build_command \<circ> cr_command) (cl_commands s))) (cn_client c)
      = (t, Inr ())"
  shows "\<exists>s'. reconnect_to_server ops s = (s', Inr ()) \<and> cl_commands s' = cl_commands s \<and>
    cl_client s' = c\<lparr>cn_client := t, cn_buffer := []\<rparr>"
proof -
  have "restored_requests s = []" using assms(1,2) by (simp add: restored_requests_def)
  then show ?thesis
    using reconnect_to_server_ok [OF assms(3-5), of t] assms(6) by (simp add: wire_def)
qed

definition tape_client :: "string \<Rightarrow> (string, nat) client" where
  "tape_client password =
     (client_init [] [])\<lparr>cl_password := password,
       cl_commands := [\<lparr>cr_command = [''GET'', ''a''], cr_callback = CC_User 1\<rparr>]\<rparr>"

lemma tape_sel:
  "conn_is_connected tape_ops c" "tcp_async_write tape_ops bytes t = (t @ bytes, Inr ())"
  "cl_password (tape_client pw) = pw" "cl_database_index (tape_client pw) = 0"
  "cl_commands (tape_client pw) = [\<lparr>cr_command = [''GET'', ''a''], cr_callback = CC_User 1\<rparr>]"
  "cn_client (connection_init t) = t" "cn_buffer (connection_init t) = []"
  by (simp_all add: tape_ops_def conn_is_connected_def tape_client_def client_init_def connection_init_def)

lemma tape_connect:
  "conn_connect tape_ops h p True True tm (cl_client (tape_client pw)) =
    (connection_init []\<lparr>cn_reply_callback := True, cn_disconnection_handler := True\<rparr>, Inr ())"
  by (simp add: conn_connect_def tape_ops_def tape_client_def client_init_def connection_init_def)

theorem reconnect_resends_pending_witness:
  "cn_client (cl_client (fst (reconnect_to_server tape_ops (tape_client [])))) =
    build_command [''GET'', ''a'']"
proof -
  obtain s' where "reconnect_to_server tape_ops (tape_client []) = (s', Inr ())"
    "cl_client s' = connection_init []\<lparr>cn_reply_callback := True, cn_disconnection_handler := True,
      cn_client := build_command [''GET'', ''a''], cn_buffer := []\<rparr>"
    using reconnect_resends_pending [where s = "tape_client []" and ops = tape_ops
        and t = "build_command [''GET'', ''a'']", OF _ _ tape_connect]
    by (auto simp: tape_sel)
  then show ?thesis by simp
qed

text \<open>C28: with a password it does not. \<open>AUTH\<close> joins the pending requests before they are
  all sent again, so it is written twice and queued once, at the end: one more reply is to
  come than there are callbacks, and the first of them, the one to \<open>AUTH\<close>, is handed to
  the callback of the first pending request.\<close>

theorem reconnect_auth_misaligned:
  assumes "cl_password s = pw" "pw \<noteq> []" "cl_database_index s \<le> 0" "cl_commands s = q # qs"
    and "conn_connect ops (cl_redis_server s) (cl_redis_port s) True True (cl_connect_timeout_msecs s)
      (cl_client s) = (c, Inr ())"
    and "conn_is_connected ops c" "cn_buffer c = []"
    and "tcp_async_write ops (concat (map build_command
        ([[''AUTH'', pw]] @ map cr_command (q # qs) @ [[''AUTH'', pw]]))) (cn_client c) = (t, Inr ())"
  shows "\<exists>s'. reconnect_to_server ops s = (s', Inr ()) \<and> cn_client (cl_client s') = t \<and>
    length (cl_commands s') + 1 = length ([[''AUTH'', pw]] @ map cr_command (q # qs) @ [[''AUTH'', pw]]) \<and>
    map_option cr_callback (fst (client_next_request s')) = Some (cr_callback q)"
proof -
  have r: "restored_requests s = [\<lparr>cr_command = [''AUTH'', pw], cr_callback = CC_Reauth\<rparr>]"
    using assms(1-3) by (simp add: restored_requests_def)
  then have "wire (restored_requests s) @ wire (cl_commands s @ restored_requests s) =
      concat (map build_command ([[''AUTH'', pw]] @ map cr_command (q # qs) @ [[''AUTH'', pw]]))"
    by (simp add: wire_def comp_def assms(4))
  then obtain s' where s': "reconnect_to_server ops s = (s', Inr ())"
      "cl_commands s' = cl_commands s @ restored_requests s"
      "cl_client s' = c\<lparr>cn_client := t, cn_buffer := []\<rparr>"
    using reconnect_to_server_ok [OF assms(5-7), of t] assms(8) by auto
  then show ?thesis
    using r assms(4) by (simp add: client_next_request_def Let_def)
qed

theorem reconnect_auth_misaligned_witness:
  "\<exists>s'. reconnect_to_server tape_ops (tape_client ''pw'') = (s', Inr ()) \<and>
    cn_client (cl_client s') = concat (map build_command [[''AUTH'', ''pw''], [''GET'', ''a''], [''AUTH'', ''pw'']]) \<and>
    length (cl_commands s') = 2 \<and>
    map_option cr_callback (fst (client_next_request s')) = Some (CC_User 1)"
  using reconnect_auth_misaligned [where s = "tape_client ''pw''" and pw = "''pw''"
      and t = "concat (map build_command [[''AUTH'', ''pw''], [''GET'', ''a''], [''AUTH'', ''pw'']])"
      and q = "\<lparr>cr_command = [''GET'', ''a''], cr_callback = CC_User 1\<rparr>" and qs = "[]",
      OF _ _ _ _ tape_connect]
  by (simp add: tape_sel numeral_2_eq_2)

text \<open>C29: an exception that leaves the reconnection loop (no sentinel to ask, a failed
  commit) leaves the client in the reconnecting state: the handler ignores every later
  disconnection and \<open>commit\<close> sends nothing any more.\<close>

theorem reconnection_exception_sticks:
  assumes "client_disconnection_handler ops env s = Some (s', Inl e)"
  shows "cl_reconnecting s' \<and>
    client_disconnection_handler ops env s' = Some (s', Inr ()) \<and>
    client_commit ops s' = (s', Inr ())"
proof -
  let ?s2 = "notify_connect (cl_redis_server s) (cl_redis_port s) CS_dropped
    (s\<lparr>cl_reconnecting := True, cl_current_reconnect_attempts := 0\<rparr>)"
  have "reconnect_loop (should_reconnect ops) (reconnect_round ops env) ?s2 = Some (s', Inl e)"
    using assms
    by (auto simp: client_disconnection_handler_def Let_def split: if_splits option.splits sum.splits)
  then have "cl_reconnecting s'"
    by (rule reconnect_loop_invariant [where P = cl_reconnecting])
      (auto dest: reconnect_round_fields)
  then show ?thesis by (simp add: client_disconnection_handler_def client_commit_def)
qed

theorem reconnection_exception_sticks_witness:
  "\<exists>s' e. client_disconnection_handler flag_ops (\<lambda>_. [])
      ((client_init False False :: (bool, nat) client)\<lparr>cl_master_name := ''m'', cl_max_reconnects := 1\<rparr>)
      = Some (s', Inl e) \<and> cl_reconnecting s'"
proof -
  let ?s = "(client_init False False :: (bool, nat) client)\<lparr>cl_master_name := ''m'', cl_max_reconnects := 1\<rparr>"
  obtain s' e where h: "client_disconnection_handler flag_ops (\<lambda>_. []) ?s = Some (s', Inl e)"
    by (simp add: client_disconnection_handler_def Let_def reconnect_loop.simps should_reconnect_def
        client_is_connected_def conn_is_connected_def flag_ops_def client_init_def connection_init_def
        notify_connect_def reconnect_round_def client_reconnect_def sleep_before_next_reconnect_attempt_def
        in_int32_def client_lookup_def get_master_addr_by_name_def sentinel_init_def)
  show ?thesis using h reconnection_exception_sticks [OF h] by blast
qed

text \<open>C30: bytes that are not a reply stall a connected client. The exception of the builder
  only runs the disconnection handler, which does nothing while the socket is connected: the
  socket is neither closed nor read again, and the pending requests stay in the queue, so
  \<open>sync_commit\<close> has nothing left to wait for that could wake it.\<close>

theorem protocol_error_stalls:
  assumes "rr_success res" "client_is_connected ops s" "\<not> cl_reconnecting s"
    and "rb_append (cn_builder (cl_client s)) (rr_buffer res) = (rb, Inl e)" "is_redis_error e"
  shows "\<exists>s'. client_net_event ops env (Net_Read res) s = Some (s', Inr ()) \<and>
    cn_client (cl_client s') = cn_client (cl_client s) \<and> client_is_connected ops s' \<and>
    cl_commands s' = cl_commands s \<and> cl_callbacks_running s' = cl_callbacks_running s \<and>
    cl_workers s' = cl_workers s"
proof -
  let ?s1 = "put_cl_client ((cl_client s)\<lparr>cn_builder := rb\<rparr>) s"
  have c: "client_is_connected ops ?s1"
    using assms(2) by (simp add: client_is_connected_def conn_is_connected_def)
  have e: "client_net_event ops env (Net_Read res) s =
      call_disconnection_handler cl_client (client_disconnection_handler ops env) ?s1"
    using assms(1,4,5) by (simp add: tcp_client_receive_handler_def Let_def)
  show ?thesis
  proof (cases "cn_disconnection_handler (cl_client s)")
    case False
    then show ?thesis using e c by (simp add: call_disconnection_handler_def)
  next
    case True
    then show ?thesis
      using e c assms(2,3)
      by (simp add: call_disconnection_handler_def client_disconnection_handler_def Let_def
          reconnect_loop.simps should_reconnect_def client_is_connected_def conn_is_connected_def)
  qed
qed

theorem protocol_error_stalls_witness:
  "\<exists>s'. client_net_event flag_ops (\<lambda>_. []) (Net_Read \<lparr>rr_success = True, rr_buffer = ''?''\<rparr>)
      (client_send [''PING''] (CC_User (1::nat)) (client_init True False)) = Some (s', Inr ()) \<and>
    cl_commands s' = [\<lparr>cr_command = [''PING''], cr_callback = CC_User 1\<rparr>]"
proof -
  let ?s = "client_send [''PING''] (CC_User (1::nat)) (client_init True False)"
  have "rb_append (cn_builder (cl_client ?s)) ''?'' =
      (reply_builder_init\<lparr>rb_buffer := ''?''\<rparr>, Inl (Redis_Error ''Invalid data''))"
    by (simp add: rb_append_def build_replies.simps build_reply_def client_send_def unprotected_send_def
        conn_send_def client_init_def connection_init_def reply_builder_init_def create_builder_def)
  moreover have "client_is_connected flag_ops ?s" "\<not> cl_reconnecting ?s"
    "cl_commands ?s = [\<lparr>cr_command = [''PING''], cr_callback = CC_User 1\<rparr>]"
    by (simp_all add: client_send_def unprotected_send_def conn_send_def client_init_def connection_init_def
        client_is_connected_def conn_is_connected_def flag_ops_def)
  ultimately show ?thesis
    using protocol_error_stalls [where res = "\<lparr>rr_success = True, rr_buffer = ''?''\<rparr>" and ops = flag_ops
        and s = ?s and env = "\<lambda>_. []"]
    by auto
qed

end
