(* ===== verification/Client_System.thy ===== *)
theory Client_System
  imports Client "HOL-Library.Multiset"
begin

text \<open>
  The client among its threads: a step relation over the calls of the user, the two
  halves of the receive handler, the rounds of the detached threads and the
  disconnection handler, in any order; \<open>try_commit\<close>, \<open>disconnect\<close> and \<open>clear_callbacks\<close> outside
  the handler, which hold no mutex of the client, in their separate moments. Every user
  callback is accounted for: it is in the queue, in a handler, with a thread that clears the
  queue, with a detached thread, or has been called. From this the meaning of
  \<open>sync_commit\<close>'s predicate follows.
\<close>

section \<open>Accounting for callbacks\<close>

text \<open>What calling a callback appends to the events.\<close>

fun reply_event :: "'cb client_callback \<Rightarrow> reply \<Rightarrow> 'cb client_event list" where
  "reply_event (CC_User cb) r = [CE_Callback cb r]"
| "reply_event CC_Null r = []"
| "reply_event CC_Reauth r = []"
| "reply_event CC_Reselect r = []"

lemma run_callback_event:
  "run_callback cb r s = s\<lparr>cl_events := cl_events s @ reply_event cb r\<rparr>"
  by (cases cb) (simp_all add: run_callback_def)

fun users :: "'cb client_callback \<Rightarrow> 'cb multiset" where
  "users (CC_User cb) = {#cb#}"
| "users _ = {#}"

definition users_of :: "'cb command_request list \<Rightarrow> 'cb multiset" where
  "users_of qs = sum_list (map (users \<circ> cr_callback) qs)"

lemma users_of_simps [simp]:
  "users_of [] = {#}" "users_of (q # qs) = users (cr_callback q) + users_of qs"
  "users_of (qs @ qs') = users_of qs + users_of qs'"
  by (simp_all add: users_of_def)

fun called_by :: "'cb client_event \<Rightarrow> 'cb multiset" where
  "called_by (CE_Callback cb r) = {#cb#}"
| "called_by (CE_Connect h p st) = {#}"

definition called :: "('t, 'cb) client \<Rightarrow> 'cb multiset" where
  "called s = sum_list (map called_by (cl_events s))"

definition waiting_workers :: "('t, 'cb) client \<Rightarrow> nat" where
  "waiting_workers s = sum_list (map length (cl_workers s))"

text \<open>The callbacks the client still holds or has called, and the running callbacks that
  are not those of a detached thread.\<close>

definition accounted :: "('t, 'cb) client \<Rightarrow> 'cb multiset" where
  "accounted s = users_of (cl_commands s) + users_of (concat (cl_workers s)) + called s"

definition running_handlers :: "nat \<Rightarrow> ('t, 'cb) client \<Rightarrow> bool" where
  "running_handlers n s \<longleftrightarrow> cl_callbacks_running s = n + waiting_workers s"

text \<open>An operation that neither loses nor calls nor adds a callback, and keeps the count.\<close>

definition keeps :: "('t, 'cb) client \<Rightarrow> ('t, 'cb) client \<Rightarrow> bool" where
  "keeps s s' \<longleftrightarrow>
     accounted s' = accounted s \<and> (\<forall>n. running_handlers n s \<longrightarrow> running_handlers n s')"

lemma keeps_refl [simp, intro]: "keeps s s"
  by (simp add: keeps_def)

lemma keeps_trans [trans]: "keeps s s' \<Longrightarrow> keeps s' s'' \<Longrightarrow> keeps s s''"
  by (simp add: keeps_def)

lemma keepsI:
  "cl_commands s' = cl_commands s \<Longrightarrow> cl_workers s' = cl_workers s \<Longrightarrow> called s' = called s \<Longrightarrow>
   cl_callbacks_running s' = cl_callbacks_running s \<Longrightarrow> keeps s s'"
  by (simp add: keeps_def accounted_def running_handlers_def waiting_workers_def)

lemma called_notify [simp]: "called (notify_connect h p st s) = called s"
  by (simp add: called_def notify_connect_def)

lemma keeps_notify: "keeps s (notify_connect h p st s)"
  by (rule keepsI) simp_all

lemma keeps_put: "keeps s (put_cl_client c s)"
  by (rule keepsI) (simp_all add: called_def)

lemma keeps_clear: "keeps s (client_clear_callbacks s)"
  by (simp add: client_clear_callbacks_def keeps_def accounted_def running_handlers_def
      waiting_workers_def called_def)

lemma keeps_try_commit: "keeps s (fst (client_try_commit ops s))"
  using keeps_put keeps_trans [OF keeps_put keeps_clear]
  by (auto simp: client_try_commit_def split: prod.splits sum.splits)

lemma keeps_commit: "keeps s (fst (client_commit ops s))"
  by (simp add: client_commit_def keeps_try_commit)

lemma keeps_disconnect: "keeps s (client_disconnect ops w s)"
  unfolding client_disconnect_def by (rule keeps_trans [OF keeps_put keeps_clear])

lemma called_connect:
  "client_connect ops h p cc tm mr ri s = (s', r) \<Longrightarrow> called s' = called s"
  by (auto simp: client_connect_def called_def notify_connect_def Let_def
      split: prod.splits sum.splits if_splits)

lemma keeps_connect: "keeps s (fst (client_connect ops h p cc tm mr ri s))"
proof -
  obtain s' r where c: "client_connect ops h p cc tm mr ri s = (s', r)" by (metis surj_pair)
  show ?thesis using client_connect_frame [OF c] called_connect [OF c] c by (auto intro: keepsI)
qed

lemma keeps_lookup: "client_lookup ops evs s = Some (s', r) \<Longrightarrow> keeps s s'"
  by (auto simp: client_lookup_def called_def split: option.splits intro!: keepsI)

lemma keeps_resend: "keeps s (resend_failed_commands s)"
  by (rule keepsI) (simp_all add: resend_failed_commands_eq called_def)

lemma keeps_re_auth_select: "keeps s (re_select (re_auth s))"
  by (simp add: re_auth_def re_select_def unprotected_auth_def unprotected_select_def
      unprotected_send_def keeps_def accounted_def running_handlers_def waiting_workers_def called_def)

lemma keeps_reconnect_to_server: "keeps s (fst (reconnect_to_server ops s))"
proof -
  obtain s1 r where c: "client_connect ops (cl_redis_server s) (cl_redis_port s) (cl_connect_callback s)
      (cl_connect_timeout_msecs s) (cl_max_reconnects s) (cl_reconnect_interval_msecs s) s = (s1, r)"
    by (metis surj_pair)
  have "keeps s s1" using keeps_connect c by (metis fst_conv)
  also note keeps_notify
  finally have n: "keeps s (notify_connect h p st s1)" for h p st .
  have "keeps s (fst (client_try_commit ops (resend_failed_commands (re_select (re_auth
      (notify_connect (cl_redis_server s1) (cl_redis_port s1) CS_ok s1))))))"
    by (rule keeps_trans [OF keeps_trans [OF keeps_trans [OF n keeps_re_auth_select] keeps_resend]
          keeps_try_commit])
  then show ?thesis using c n \<open>keeps s s1\<close> by (simp add: reconnect_to_server_def)
qed

lemma keeps_reconnect:
  assumes "client_reconnect ops env s = Some (s', r)"
  shows "keeps s s'"
proof -
  let ?s1 = "s\<lparr>cl_current_reconnect_attempts := cl_current_reconnect_attempts s + 1\<rparr>"
  have k: "keeps s ?s1" by (rule keepsI) (simp_all add: called_def)
  have server: "keeps s0 s2" if "reconnect_to_server ops s0 = (s2, r2)" for s0 s2 r2
    using keeps_reconnect_to_server that by (metis fst_conv)
  have lookup: "keeps s s2" if "client_lookup ops evs ?s1 = Some (s2, r2)" for evs s2 r2
    by (rule keeps_trans [OF k keeps_lookup [OF that]])
  have "keeps s s'" if "reconnect_to_server ops s2 = (s', r)"
      "client_lookup ops evs ?s1 = Some (s2, r2)" for evs s2 r2
    by (rule keeps_trans [OF lookup [OF that(2)] server [OF that(1)]])
  moreover have "keeps s s'" if "s' = notify_connect h p st s2"
      "client_lookup ops evs ?s1 = Some (s2, r2)" for evs s2 r2 h p st
    unfolding that(1) by (rule keeps_trans [OF lookup [OF that(2)] keeps_notify])
  moreover have "keeps s s'" if "reconnect_to_server ops ?s1 = (s', r)"
    by (rule keeps_trans [OF k server [OF that]])
  ultimately show ?thesis
    using assms lookup k
    by (auto simp: client_reconnect_def Let_def split: if_splits option.splits sum.splits)
qed

lemma keeps_reconnect_round: "reconnect_round ops env s = Some (s', r) \<Longrightarrow> keeps s s'"
  unfolding reconnect_round_def sleep_before_next_reconnect_attempt_def
  by (auto split: if_splits dest: keeps_reconnect intro: keeps_trans [OF keeps_notify])

lemma keeps_disconnection_handler:
  assumes "client_disconnection_handler ops env s = Some (s', r)"
  shows "keeps s s'"
proof (cases "cl_reconnecting s")
  case True
  then show ?thesis using assms by (simp add: client_disconnection_handler_def)
next
  case False
  let ?s1 = "s\<lparr>cl_reconnecting := True, cl_current_reconnect_attempts := 0\<rparr>"
  let ?s2 = "notify_connect (cl_redis_server s) (cl_redis_port s) CS_dropped ?s1"
  have "keeps s ?s1" by (rule keepsI) (simp_all add: called_def)
  also note keeps_notify
  finally have k2: "keeps s ?s2" .
  obtain s3 r3 where l: "reconnect_loop (should_reconnect ops) (reconnect_round ops env) ?s2 = Some (s3, r3)"
    using assms False by (auto simp: client_disconnection_handler_def Let_def split: option.splits)
  have k3: "keeps s s3"
    using reconnect_loop_invariant [where P = "keeps s", OF l k2] keeps_reconnect_round keeps_trans
    by blast
  have stop: "keeps s (s4\<lparr>cl_reconnecting := False\<rparr>)" if "keeps s s4" for s4
    by (rule keeps_trans [OF that]) (rule keepsI, simp_all add: called_def)
  show ?thesis
    using assms False l k3 stop [OF k3]
      stop [OF keeps_trans [OF keeps_trans [OF k3 keeps_clear] keeps_notify]]
    by (cases r3) (auto simp: client_disconnection_handler_def Let_def split: if_splits)
qed

section \<open>Commits and disconnections in their moments\<close>

text \<open>\<open>try_commit\<close> writes, and clears the queue when the write throws; \<open>disconnect\<close> closes the
  connection, and clears the queue. Neither holds the mutex of the queue, and
  \<open>clear_callbacks\<close> itself takes the requests off the queue before it counts them as running
  and starts their thread: other threads can come in between.\<close>

definition try_commit_write ::
  "'t tcp_ops \<Rightarrow> ('t, 'cb) client \<Rightarrow> ('t, 'cb) client \<times> unit result"
where
  "try_commit_write ops s = (case conn_commit ops (cl_client s) of (c, r) \<Rightarrow> (put_cl_client c s, r))"

fun must_clear :: "unit result \<Rightarrow> bool" where
  "must_clear (Inl e) = is_redis_error e"
| "must_clear (Inr u) = False"

definition try_commit_handle :: "unit result \<Rightarrow> ('t, 'cb) client \<Rightarrow> ('t, 'cb) client" where
  "try_commit_handle r s = (if must_clear r then client_clear_callbacks s else s)"

lemma try_commit_moments:
  "client_try_commit ops s =
    (case try_commit_write ops s of (s', r) \<Rightarrow> (try_commit_handle r s', r))"
  by (simp add: client_try_commit_def try_commit_write_def try_commit_handle_def
      split: prod.splits sum.splits)

definition disconnect_close :: "'t tcp_ops \<Rightarrow> bool \<Rightarrow> ('t, 'cb) client \<Rightarrow> ('t, 'cb) client" where
  "disconnect_close ops wait_for_removal s =
     put_cl_client (conn_disconnect ops wait_for_removal (cl_client s)) s"

lemma disconnect_moments:
  "client_disconnect ops w s = client_clear_callbacks (disconnect_close ops w s)"
  by (simp add: client_disconnect_def disconnect_close_def)

definition clear_take :: "('t, 'cb) client \<Rightarrow> 'cb command_request list \<times> ('t, 'cb) client" where
  "clear_take s = (cl_commands s, s\<lparr>cl_commands := []\<rparr>)"

definition clear_count :: "'cb command_request list \<Rightarrow> ('t, 'cb) client \<Rightarrow> ('t, 'cb) client" where
  "clear_count commands s =
     (if commands = [] then s
      else s\<lparr>cl_callbacks_running := cl_callbacks_running s + length commands,
             cl_workers := cl_workers s @ [commands]\<rparr>)"

lemma clear_callbacks_moments:
  "client_clear_callbacks s = (case clear_take s of (commands, s') \<Rightarrow> clear_count commands s')"
  by (simp add: client_clear_callbacks_def clear_take_def clear_count_def)

section \<open>Steps\<close>

text \<open>The client, the replies whose callback is being run (the request taken from the
  queue and the reply), the user callbacks submitted so far, the number of threads about to
  call \<open>clear_callbacks\<close>, and the requests of the threads inside it that have taken the queue
  and not yet counted it.\<close>

record ('t, 'cb) client_system =
  sy_client :: "('t, 'cb) client"
  sy_active :: "('cb command_request option \<times> reply) list"
  sy_submitted :: "'cb multiset"
  sy_to_clear :: nat
  sy_clearing :: "'cb command_request list list"

text \<open>\<open>Io\<close> stands for all the client's connection does on its own (bytes read and decoded,
  replies taken off its queue, its buffer cleared). A commit during a reconnection does
  nothing. The disconnection handler holds the mutex of the queue, which every step on the
  queue but those of \<open>clear_callbacks\<close> needs, and is one step.\<close>

inductive client_step ::
  "'t tcp_ops \<Rightarrow> (int \<Rightarrow> net_event list) \<Rightarrow> ('t, 'cb) client_system \<Rightarrow> ('t, 'cb) client_system \<Rightarrow> bool"
  for ops :: "'t tcp_ops" and env :: "int \<Rightarrow> net_event list"
where
  Send: "client_step ops env s (s\<lparr>sy_client := client_send ws cb (sy_client s),
    sy_submitted := sy_submitted s + users cb\<rparr>)"
| Auth: "client_step ops env s (s\<lparr>sy_client := client_auth pw cb (sy_client s),
    sy_submitted := sy_submitted s + users cb\<rparr>)"
| Select: "client_step ops env s (s\<lparr>sy_client := client_select i cb (sy_client s),
    sy_submitted := sy_submitted s + users cb\<rparr>)"
| Commit_Write: "\<not> cl_reconnecting (sy_client s) \<Longrightarrow> try_commit_write ops (sy_client s) = (c, r) \<Longrightarrow>
    client_step ops env s (s\<lparr>sy_client := c,
      sy_to_clear := sy_to_clear s + (if must_clear r then 1 else 0)\<rparr>)"
| Disconnect_Close: "client_step ops env s (s\<lparr>sy_client := disconnect_close ops w (sy_client s),
    sy_to_clear := sy_to_clear s + 1\<rparr>)"
| Clear_Take: "0 < sy_to_clear s \<Longrightarrow> clear_take (sy_client s) = (qs, c) \<Longrightarrow>
    client_step ops env s (s\<lparr>sy_client := c, sy_to_clear := sy_to_clear s - 1,
      sy_clearing := qs # sy_clearing s\<rparr>)"
| Clear_Count: "sy_clearing s = a @ qs # b \<Longrightarrow>
    client_step ops env s (s\<lparr>sy_client := clear_count qs (sy_client s), sy_clearing := a @ b\<rparr>)"
| Connect: "client_step ops env s
    (s\<lparr>sy_client := fst (client_connect ops h p cc tm mr ri (sy_client s))\<rparr>)"
| Connect_Master: "client_connect_master ops evs name cc tm mr ri (sy_client s) = Some (c, res) \<Longrightarrow>
    client_step ops env s (s\<lparr>sy_client := c\<rparr>)"
| Add_Sentinel: "client_step ops env s (s\<lparr>sy_client := client_add_sentinel h p tm (sy_client s)\<rparr>)"
| Clear_Sentinels: "client_step ops env s (s\<lparr>sy_client := client_clear_sentinels (sy_client s)\<rparr>)"
| Cancel: "client_step ops env s (s\<lparr>sy_client := client_cancel_reconnect (sy_client s)\<rparr>)"
| Io: "client_step ops env s (s\<lparr>sy_client := put_cl_client cn (sy_client s)\<rparr>)"
| Take: "client_next_request (sy_client s) = (q, c) \<Longrightarrow>
    client_step ops env s (s\<lparr>sy_client := c, sy_active := (q, r) # sy_active s\<rparr>)"
| Finish: "sy_active s = a @ (q, r) # b \<Longrightarrow>
    client_step ops env s (s\<lparr>sy_client := client_finish_request q r (sy_client s), sy_active := a @ b\<rparr>)"
| Worker: "client_step ops env s (s\<lparr>sy_client := worker_step i (sy_client s)\<rparr>)"
| Dropped: "client_disconnection_handler ops env (sy_client s) = Some (c, res) \<Longrightarrow>
    client_step ops env s (s\<lparr>sy_client := c\<rparr>)"

inductive_cases client_stepE: "client_step ops env s s'"

definition system_init :: "'t \<Rightarrow> 't \<Rightarrow> ('t, 'cb) client_system" where
  "system_init t t' =
     \<lparr>sy_client = client_init t t', sy_active = [], sy_submitted = {#}, sy_to_clear = 0,
      sy_clearing = []\<rparr>"

inductive reachable ::
  "'t tcp_ops \<Rightarrow> (int \<Rightarrow> net_event list) \<Rightarrow> ('t, 'cb) client_system \<Rightarrow> bool"
  for ops :: "'t tcp_ops" and env :: "int \<Rightarrow> net_event list"
where
  Init: "reachable ops env (system_init t t')"
| Step: "reachable ops env s \<Longrightarrow> client_step ops env s s' \<Longrightarrow> reachable ops env s'"

definition active_users :: "('cb command_request option \<times> reply) list \<Rightarrow> 'cb multiset" where
  "active_users a = sum_list (map (\<lambda>(q, r). case q of None \<Rightarrow> {#} | Some q \<Rightarrow> users (cr_callback q)) a)"

definition system_inv :: "('t, 'cb) client_system \<Rightarrow> bool" where
  "system_inv s \<longleftrightarrow>
     sy_submitted s = accounted (sy_client s) + active_users (sy_active s) + users_of (concat (sy_clearing s)) \<and>
     running_handlers (length (sy_active s)) (sy_client s)"

lemma system_inv_keeps:
  "system_inv s \<Longrightarrow> keeps (sy_client s) c \<Longrightarrow> system_inv (s\<lparr>sy_client := c\<rparr>)"
  by (auto simp: system_inv_def keeps_def)

lemma system_inv_to_clear: "system_inv (s\<lparr>sy_to_clear := n\<rparr>) = system_inv s"
  by (simp add: system_inv_def)

lemma system_inv_keeps_to_clear:
  "system_inv s \<Longrightarrow> keeps (sy_client s) c \<Longrightarrow> system_inv (s\<lparr>sy_client := c, sy_to_clear := n\<rparr>)"
  using system_inv_keeps [of s c] system_inv_to_clear [of n "s\<lparr>sy_client := c\<rparr>"] by simp

lemma keeps_write: "try_commit_write ops s = (s', r) \<Longrightarrow> keeps s s'"
  by (auto simp: try_commit_write_def keeps_put split: prod.splits)

lemma keeps_close: "keeps s (disconnect_close ops w s)"
  by (simp add: disconnect_close_def keeps_put)

lemma clear_take_accounted:
  "clear_take s = (qs, s') \<Longrightarrow> accounted s = accounted s' + users_of qs"
  "clear_take s = (qs, s') \<Longrightarrow> running_handlers n s' = running_handlers n s"
  by (auto simp: clear_take_def accounted_def running_handlers_def waiting_workers_def called_def ac_simps)

lemma clear_count_accounted:
  "accounted (clear_count qs s) = accounted s + users_of qs"
  "running_handlers n s \<Longrightarrow> running_handlers n (clear_count qs s)"
  by (auto simp: clear_count_def accounted_def running_handlers_def waiting_workers_def called_def ac_simps)

lemma accounted_send:
  "accounted (unprotected_send ws cb c) = accounted c + users cb"
  "running_handlers n (unprotected_send ws cb c) = running_handlers n c"
  by (simp_all add: unprotected_send_def accounted_def running_handlers_def waiting_workers_def called_def)

lemma accounted_fields:
  "accounted (c\<lparr>cl_password := pw\<rparr>) = accounted c" "accounted (c\<lparr>cl_database_index := i\<rparr>) = accounted c"
  "running_handlers n (c\<lparr>cl_password := pw\<rparr>) = running_handlers n c"
  "running_handlers n (c\<lparr>cl_database_index := i\<rparr>) = running_handlers n c"
  by (simp_all add: accounted_def running_handlers_def waiting_workers_def called_def)

lemma keeps_cancel: "keeps c (client_cancel_reconnect c)"
  by (rule keepsI) (simp_all add: client_cancel_reconnect_def called_def)

lemma keeps_sentinels:
  "keeps c (client_add_sentinel h p tm c)" "keeps c (client_clear_sentinels c)"
  by (rule keepsI; simp add: client_add_sentinel_def client_clear_sentinels_def called_def)+

lemma keeps_connect_master:
  assumes "client_connect_master ops evs name cc tm mr ri c = Some (c', res)"
  shows "keeps c c'"
proof -
  have k: "keeps c (c\<lparr>cl_master_name := name\<rparr>)" by (rule keepsI) (simp_all add: called_def)
  obtain c1 r1 where l: "client_lookup ops evs (c\<lparr>cl_master_name := name\<rparr>) = Some (c1, r1)"
    using assms by (auto simp: client_connect_master_def split: option.splits)
  have k1: "keeps c c1" by (rule keeps_trans [OF k keeps_lookup [OF l]])
  have "c' = c1 \<or> c' = fst (client_connect ops (cl_redis_server c1) (cl_redis_port c1) cc tm mr ri c1)"
    using assms l by (auto simp: client_connect_master_def split: sum.splits if_splits)
  then show ?thesis using k1 keeps_trans [OF k1 keeps_connect] by auto
qed

lemma called_run_callback: "called (run_callback cb r c) = called c + users cb"
  by (cases cb) (simp_all add: run_callback_def called_def)

lemma sum_list_update_tl:
  "i < length xss \<Longrightarrow> xss ! i = x # xs \<Longrightarrow>
   users_of (concat xss) = users (cr_callback x) + users_of (concat (xss[i := xs])) \<and>
   sum_list (map length xss) = Suc (sum_list (map length (xss[i := xs])))"
proof (induction xss arbitrary: i)
  case (Cons ys yss)
  then show ?case by (cases i) (auto simp: ac_simps)
qed simp

lemma keeps_worker: "keeps c (worker_step i c)"
proof (cases "if i < length (cl_workers c) then cl_workers c ! i else []")
  case Nil
  then show ?thesis by (simp add: worker_step_def)
next
  case (Cons q qs)
  then have i: "i < length (cl_workers c)" "cl_workers c ! i = q # qs" by (auto split: if_splits)
  have "called (worker_step i c) = called c + users (cr_callback q)"
    using called_run_callback [of "cr_callback q" network_failure c] Cons
    by (simp add: worker_step_def Let_def called_def)
  then show ?thesis
    using sum_list_update_tl [OF i] Cons
    by (auto simp: worker_step_def Let_def keeps_def accounted_def running_handlers_def waiting_workers_def
        ac_simps)
qed

lemma called_finish:
  "called (client_finish_request q r c) =
    called c + (case q of None \<Rightarrow> {#} | Some q \<Rightarrow> users (cr_callback q))"
  using called_run_callback
  by (auto simp: client_finish_request_def Let_def called_def split: option.splits)

lemma finish_frame [simp]:
  "cl_commands (client_finish_request q r c) = cl_commands c"
  "cl_workers (client_finish_request q r c) = cl_workers c"
  "cl_callbacks_running (client_finish_request q r c) = cl_callbacks_running c - 1"
  by (auto simp: client_finish_request_def Let_def split: option.splits)

lemma client_step_inv: "client_step ops env s s' \<Longrightarrow> system_inv s \<Longrightarrow> system_inv s'"
proof (induction rule: client_step.induct)
  case (Send s ws cb)
  then show ?case by (simp add: system_inv_def client_send_def accounted_send ac_simps)
next
  case (Auth s pw cb)
  then show ?case
    by (simp add: system_inv_def client_auth_def unprotected_auth_def accounted_send accounted_fields ac_simps)
next
  case (Select s i cb)
  then show ?case
    by (simp add: system_inv_def client_select_def unprotected_select_def accounted_send accounted_fields
        ac_simps)
next
  case (Commit_Write s c r)
  show ?case by (rule system_inv_keeps_to_clear [OF Commit_Write(3) keeps_write [OF Commit_Write(2)]])
next
  case (Disconnect_Close s w)
  show ?case by (rule system_inv_keeps_to_clear [OF Disconnect_Close keeps_close])
next
  case (Clear_Take s qs c)
  then show ?case using clear_take_accounted [OF Clear_Take(2)] by (simp add: system_inv_def ac_simps)
next
  case (Clear_Count s a qs b)
  then show ?case by (simp add: system_inv_def clear_count_accounted ac_simps)
next
  case (Take s q c r)
  have "called c = called (sy_client s)" "cl_workers c = cl_workers (sy_client s)"
    "cl_callbacks_running c = cl_callbacks_running (sy_client s) + 1"
    "users_of (cl_commands (sy_client s)) = (case q of None \<Rightarrow> {#} | Some q \<Rightarrow> users (cr_callback q)) +
      users_of (cl_commands c)"
    using Take(1) by (auto simp: client_next_request_def Let_def called_def split: list.splits)
  then show ?case
    using Take(2)
    by (auto simp: system_inv_def accounted_def running_handlers_def waiting_workers_def active_users_def
        ac_simps)
next
  case (Finish s a q r b)
  then show ?case
    by (auto simp: system_inv_def accounted_def running_handlers_def waiting_workers_def active_users_def
        called_finish ac_simps)
qed (auto elim!: system_inv_keeps
    intro: keeps_connect keeps_connect_master keeps_sentinels keeps_cancel
      keeps_put keeps_worker keeps_disconnection_handler)

lemma reachable_inv: "reachable ops env s \<Longrightarrow> system_inv s"
proof (induction rule: reachable.induct)
  case (Init t t')
  show ?case
    by (simp add: system_init_def client_init_def system_inv_def accounted_def running_handlers_def
        waiting_workers_def active_users_def called_def)
next
  case (Step s s')
  from client_step_inv [OF Step(2,3)] show ?case .
qed

lemma all_called:
  assumes "reachable ops env s" "sync_ready (sy_client s)"
  shows "sy_active s = [] \<and>
    sy_submitted s = called (sy_client s) + users_of (concat (sy_clearing s))"
proof -
  have inv: "system_inv s" using reachable_inv [OF assms(1)] .
  then have z: "length (sy_active s) = 0" "waiting_workers (sy_client s) = 0"
    using assms(2) by (simp_all add: system_inv_def running_handlers_def sync_ready_def)
  then have "concat (cl_workers (sy_client s)) = []"
    by (auto simp: waiting_workers_def)
  then have "users_of (concat (cl_workers (sy_client s))) = {#}"
    by (simp only: users_of_simps)
  then show ?thesis
    using inv z(1) assms(2) by (simp add: system_inv_def accounted_def sync_ready_def active_users_def)
qed

section \<open>Properties\<close>

text \<open>C6: no callback is lost, and none is called twice. In every reachable state, through
  failed writes, disconnections and reconnections, each callback submitted is exactly
  once in the queue, in a running handler, with a thread that clears the queue, with a
  detached thread, or among the calls made.\<close>

theorem callbacks_conserved:
  assumes "reachable ops env s"
  shows "sy_submitted s =
    users_of (cl_commands (sy_client s)) + active_users (sy_active s) + users_of (concat (sy_clearing s))
    + users_of (concat (cl_workers (sy_client s))) + called (sy_client s)"
  using reachable_inv [OF assms] by (simp add: system_inv_def accounted_def ac_simps)

text \<open>A trace for the witnesses: one request, answered.\<close>

definition answered_system :: "(bool, nat) client_system" where
  "answered_system =
     (let c = client_send [''PING''] (CC_User 7) (client_init True False)
      in (system_init True False)\<lparr>sy_client := client_finish_request (Some (hd (cl_commands c))) reply_null
              (c\<lparr>cl_callbacks_running := 1, cl_commands := []\<rparr>),
          sy_submitted := {#7#}\<rparr>)"

lemma sent_reachable:
  "reachable ops env ((system_init t t')\<lparr>sy_client := client_send ws cb (client_init t t'),
    sy_submitted := users cb\<rparr>)"
  using reachable.Step [OF reachable.Init client_step.Send [where ws = ws and cb = cb], of ops env t t']
  by (simp add: system_init_def)

lemma answered_reachable: "reachable flag_ops env answered_system"
proof -
  let ?c = "client_send [''PING''] (CC_User 7) (client_init True False) :: (bool, nat) client"
  let ?c' = "?c\<lparr>cl_callbacks_running := 1, cl_commands := []\<rparr>"
  let ?s = "(system_init True False)\<lparr>sy_client := ?c, sy_submitted := users (CC_User 7)\<rparr>"
  let ?s' = "?s\<lparr>sy_client := ?c', sy_active := [(Some (hd (cl_commands ?c)), reply_null)]\<rparr>"
  have "client_next_request ?c = (Some (hd (cl_commands ?c)), ?c')"
    by (simp add: client_send_def unprotected_send_def client_init_def client_next_request_def Let_def)
  then have "client_step flag_ops env ?s ?s'"
    using client_step.Take [of ?s "Some (hd (cl_commands ?c))" ?c' flag_ops env reply_null]
    by (simp add: system_init_def)
  then have "reachable flag_ops env ?s'"
    by (rule reachable.Step [OF sent_reachable])
  from reachable.Step [OF this client_step.Finish [of ?s' "[]" "Some (hd (cl_commands ?c))" reply_null "[]"]]
  show ?thesis by (simp add: answered_system_def Let_def system_init_def)
qed

theorem callbacks_conserved_witness:
  "sy_submitted answered_system =
    users_of (cl_commands (sy_client answered_system)) + active_users (sy_active answered_system)
    + users_of (concat (sy_clearing answered_system))
    + users_of (concat (cl_workers (sy_client answered_system))) + called (sy_client answered_system)"
  by (rule callbacks_conserved [OF answered_reachable])

text \<open>C8: what \<open>sync_commit\<close> waits for. In every reachable state where its predicate (no running
  callback, no pending request) holds, no handler is running, and every callback ever
  submitted has been called, exactly once, but for those a thread inside \<open>clear_callbacks\<close>
  has taken off the queue and not yet counted as running.\<close>

theorem sync_commit_sound:
  assumes "reachable ops env s" "sync_ready (sy_client s)"
  shows "sy_active s = [] \<and>
    sy_submitted s = called (sy_client s) + users_of (concat (sy_clearing s))"
  by (rule all_called [OF assms])

theorem sync_commit_sound_witness:
  "sy_active answered_system = [] \<and> sy_submitted answered_system = called (sy_client answered_system)"
  using sync_commit_sound [OF answered_reachable]
  by (simp add: answered_system_def sync_ready_def client_send_def unprotected_send_def client_init_def
      system_init_def Let_def)

text \<open>The exception is real: after a failed commit a state is reached where the predicate holds
  and a callback has not been called; a \<open>sync_commit\<close> of another thread returns there.\<close>

lemma sync_commit_returns_early:
  "\<exists>s. reachable flag_ops env (s :: (bool, nat) client_system) \<and> sync_ready (sy_client s) \<and>
    called (sy_client s) = {#} \<and> sy_submitted s = {#7#}"
proof -
  let ?c = "client_send [''PING''] (CC_User 7) (client_init False False) :: (bool, nat) client"
  let ?s = "(system_init False False)\<lparr>sy_client := ?c, sy_submitted := users (CC_User 7)\<rparr>"
  let ?w = "try_commit_write flag_ops ?c"
  let ?s1 = "?s\<lparr>sy_client := fst ?w, sy_to_clear := 1\<rparr>"
  let ?s2 = "?s1\<lparr>sy_client := (fst ?w)\<lparr>cl_commands := []\<rparr>, sy_to_clear := 0,
    sy_clearing := [cl_commands (fst ?w)]\<rparr>"
  have w: "must_clear (snd ?w)" "cl_callbacks_running (fst ?w) = 0" "cl_events (fst ?w) = []"
    by (simp_all add: try_commit_write_def conn_commit_def flag_ops_def client_send_def
        unprotected_send_def client_init_def conn_send_def connection_init_def)
  have "\<not> cl_reconnecting ?c"
    by (simp add: client_send_def unprotected_send_def client_init_def)
  then have "client_step flag_ops env ?s ?s1"
    using client_step.Commit_Write [of ?s flag_ops "fst ?w" "snd ?w" env] w(1)
    by (simp add: system_init_def)
  then have r: "reachable flag_ops env ?s1"
    by (rule reachable.Step [OF sent_reachable])
  have "client_step flag_ops env ?s1 ?s2"
    using client_step.Clear_Take [of ?s1 "cl_commands (fst ?w)" "(fst ?w)\<lparr>cl_commands := []\<rparr>" flag_ops env]
    by (simp add: clear_take_def system_init_def)
  then have "reachable flag_ops env ?s2"
    by (rule reachable.Step [OF r])
  then show ?thesis using w by (intro exI [of _ ?s2]) (simp add: sync_ready_def called_def)
qed

end
