(* ===== verification/Client_Calls.thy ===== *)
theory Client_Calls
  imports Commands Client_System
begin

text \<open>
  The calls of a client's user: the callback-based methods for all commands, \<open>client_kill\<close>
  with its list of filters (includes/cpp_redis/impl/client.ipp), and the methods that return
  a future (sources/core/client.cpp 2714-4031), each of which passes a fresh promise's
  setter as the callback of the method of the same name.
\<close>

section \<open>Commands\<close>

text \<open>\<open>auth\<close> and \<open>select\<close> keep their argument for reconnections; every other method only
  sends its words.\<close>

definition client_call ::
  "command \<Rightarrow> 'cb client_callback \<Rightarrow> ('t, 'cb) client \<Rightarrow> ('t, 'cb) client"
where
  "client_call c callback s =
     (case c of
        String_Client d \<Rightarrow>
          (case d of
             C_auth password \<Rightarrow> client_auth password callback s
           | _ \<Rightarrow> client_send (command_words c) callback s)
      | Script_Set d \<Rightarrow>
          (case d of
             C_select index \<Rightarrow> client_select index callback s
           | _ \<Rightarrow> client_send (command_words c) callback s)
      | _ \<Rightarrow> client_send (command_words c) callback s)"

lemma client_call_eq:
  "client_call c callback s =
    client_send (command_words c) callback
      (s\<lparr>cl_password := (case c of String_Client (C_auth password) \<Rightarrow> password | _ \<Rightarrow> cl_password s),
         cl_database_index := (case c of Script_Set (C_select index) \<Rightarrow> index | _ \<Rightarrow> cl_database_index s)\<rparr>)"
  by (simp add: client_call_def client_auth_def unprotected_auth_def client_select_def
      unprotected_select_def client_send_def
      split: command.splits string_client_command.splits script_set_command.splits)

section \<open>\<open>client_kill\<close>\<close>

datatype client_type = Client_normal | Client_master | Client_pubsub | Client_slave

text \<open>An argument after the address: a filter, or the callback, which must come last.\<close>

datatype 'cb kill_arg =
    Kill_type client_type
  | Kill_skip bool
  | Kill_id int
  | Kill_callback 'cb

fun client_type_string :: "client_type \<Rightarrow> string" where
  "client_type_string Client_normal = ''normal''"
| "client_type_string Client_master = ''master''"
| "client_type_string Client_pubsub = ''pubsub''"
| "client_type_string Client_slave = ''slave''"

fun client_kill_unpack_arg ::
  "string list \<times> 'cb client_callback \<Rightarrow> 'cb kill_arg \<Rightarrow> string list \<times> 'cb client_callback"
where
  "client_kill_unpack_arg (cmd, cb) (Kill_type t) = (cmd @ [''TYPE'', client_type_string t], cb)"
| "client_kill_unpack_arg (cmd, cb) (Kill_skip skip) =
     (cmd @ [''SKIPME'', if skip then ''yes'' else ''no''], cb)"
| "client_kill_unpack_arg (cmd, cb) (Kill_id i) = (cmd @ [''ID'', to_string_nat (size_t_cast i)], cb)"
| "client_kill_unpack_arg (cmd, cb) (Kill_callback f) = (cmd, CC_User f)"

fun client_kill_impl ::
  "string list \<times> 'cb client_callback \<Rightarrow> 'cb kill_arg list \<Rightarrow> string list \<times> 'cb client_callback"
where
  "client_kill_impl st [] = st"
| "client_kill_impl st (arg # args) = client_kill_impl (client_kill_unpack_arg st arg) args"

definition client_kill ::
  "'cb kill_arg list \<Rightarrow> ('t, 'cb) client \<Rightarrow> ('t, 'cb) client"
where
  "client_kill args s =
     (let (cmd, cb) = client_kill_impl ([''CLIENT'', ''KILL''], CC_Null) args in client_send cmd cb s)"

text \<open>\<open>client_kill(host, port)\<close> passes a null callback, here the empty list of arguments.\<close>

definition client_kill_addr ::
  "string \<Rightarrow> int \<Rightarrow> 'cb kill_arg list \<Rightarrow> ('t, 'cb) client \<Rightarrow> ('t, 'cb) client"
where
  "client_kill_addr host port args s =
     (let is_class = (case args of [] \<Rightarrow> True | Kill_callback f # _ \<Rightarrow> True | _ \<Rightarrow> False);
          cmd = [''CLIENT'', ''KILL''] @ (if is_class then [] else [''ADDR'']) @
                [host @ '':'' @ to_string_int port];
          (cmd', cb) = client_kill_impl (cmd, CC_Null) args
      in client_send cmd' cb s)"

section \<open>Futures\<close>

text \<open>The callback names of a client with futures: those of the user, and the setters of
  promises, numbered in the order of their creation. Setting a promise is calling its setter.\<close>

datatype 'u future_callback =
    FC_User 'u
  | FC_Promise nat

definition exec_cmd ::
  "('u future_callback client_callback \<Rightarrow> ('t, 'u future_callback) client \<Rightarrow> ('t, 'u future_callback) client) \<Rightarrow>
   nat \<times> ('t, 'u future_callback) client \<Rightarrow> nat \<times> nat \<times> ('t, 'u future_callback) client"
where
  "exec_cmd f st = (case st of (fresh, c) \<Rightarrow> (fresh, Suc fresh, f (CC_User (FC_Promise fresh)) c))"

definition future_send ::
  "string list \<Rightarrow> nat \<times> ('t, 'u future_callback) client \<Rightarrow>
   nat \<times> nat \<times> ('t, 'u future_callback) client"
where
  "future_send redis_cmd = exec_cmd (\<lambda>cb. client_send redis_cmd cb)"

text \<open>A future-based method passes its arguments and the setter of a fresh promise to the
  callback-based method of the same name and argument types: one definition per stretch of the
  file, as for the words of the commands. The overloads that only fill in an argument with
  its default have no method of their own here; the header gives the longer one the default.\<close>

definition string_client_future ::
  "string_client_command \<Rightarrow> nat \<times> ('t, 'u future_callback) client \<Rightarrow>
   nat \<times> nat \<times> ('t, 'u future_callback) client"
where
  "string_client_future c = exec_cmd (\<lambda>cb. client_call (String_Client c) cb)"

definition cluster_future ::
  "cluster_command \<Rightarrow> nat \<times> ('t, 'u future_callback) client \<Rightarrow>
   nat \<times> nat \<times> ('t, 'u future_callback) client"
where
  "cluster_future c = exec_cmd (\<lambda>cb. client_call (Cluster c) cb)"

definition config_eval_future ::
  "config_eval_command \<Rightarrow> nat \<times> ('t, 'u future_callback) client \<Rightarrow>
   nat \<times> nat \<times> ('t, 'u future_callback) client"
where
  "config_eval_future c = exec_cmd (\<lambda>cb. client_call (Config_Eval c) cb)"

definition expire_geo_future ::
  "expire_geo_command \<Rightarrow> nat \<times> ('t, 'u future_callback) client \<Rightarrow>
   nat \<times> nat \<times> ('t, 'u future_callback) client"
where
  "expire_geo_future c = exec_cmd (\<lambda>cb. client_call (Expire_Geo c) cb)"

definition get_hash_future ::
  "get_hash_command \<Rightarrow> nat \<times> ('t, 'u future_callback) client \<Rightarrow>
   nat \<times> nat \<times> ('t, 'u future_callback) client"
where
  "get_hash_future c = exec_cmd (\<lambda>cb. client_call (Get_Hash c) cb)"

definition hash_list_future ::
  "hash_list_command \<Rightarrow> nat \<times> ('t, 'u future_callback) client \<Rightarrow>
   nat \<times> nat \<times> ('t, 'u future_callback) client"
where
  "hash_list_future c = exec_cmd (\<lambda>cb. client_call (Hash_List c) cb)"

definition migrate_publish_future ::
  "migrate_publish_command \<Rightarrow> nat \<times> ('t, 'u future_callback) client \<Rightarrow>
   nat \<times> nat \<times> ('t, 'u future_callback) client"
where
  "migrate_publish_future c = exec_cmd (\<lambda>cb. client_call (Migrate_Publish c) cb)"

definition rename_scan_future ::
  "rename_scan_command \<Rightarrow> nat \<times> ('t, 'u future_callback) client \<Rightarrow>
   nat \<times> nat \<times> ('t, 'u future_callback) client"
where
  "rename_scan_future c = exec_cmd (\<lambda>cb. client_call (Rename_Scan c) cb)"

definition script_set_future ::
  "script_set_command \<Rightarrow> nat \<times> ('t, 'u future_callback) client \<Rightarrow>
   nat \<times> nat \<times> ('t, 'u future_callback) client"
where
  "script_set_future c = exec_cmd (\<lambda>cb. client_call (Script_Set c) cb)"

definition slow_sort_future ::
  "slow_sort_command \<Rightarrow> nat \<times> ('t, 'u future_callback) client \<Rightarrow>
   nat \<times> nat \<times> ('t, 'u future_callback) client"
where
  "slow_sort_future c = exec_cmd (\<lambda>cb. client_call (Slow_Sort c) cb)"

definition set_watch_future ::
  "set_watch_command \<Rightarrow> nat \<times> ('t, 'u future_callback) client \<Rightarrow>
   nat \<times> nat \<times> ('t, 'u future_callback) client"
where
  "set_watch_future c = exec_cmd (\<lambda>cb. client_call (Set_Watch c) cb)"

definition zadd_future ::
  "zadd_command \<Rightarrow> nat \<times> ('t, 'u future_callback) client \<Rightarrow>
   nat \<times> nat \<times> ('t, 'u future_callback) client"
where
  "zadd_future c = exec_cmd (\<lambda>cb. client_call (Zadd c) cb)"

definition zrange_future ::
  "zrange_command \<Rightarrow> nat \<times> ('t, 'u future_callback) client \<Rightarrow>
   nat \<times> nat \<times> ('t, 'u future_callback) client"
where
  "zrange_future c = exec_cmd (\<lambda>cb. client_call (Zrange c) cb)"

definition zrangebyscore_future ::
  "zrangebyscore_command \<Rightarrow> nat \<times> ('t, 'u future_callback) client \<Rightarrow>
   nat \<times> nat \<times> ('t, 'u future_callback) client"
where
  "zrangebyscore_future c = exec_cmd (\<lambda>cb. client_call (Zrangebyscore c) cb)"

definition zrevrange_future ::
  "zrevrange_command \<Rightarrow> nat \<times> ('t, 'u future_callback) client \<Rightarrow>
   nat \<times> nat \<times> ('t, 'u future_callback) client"
where
  "zrevrange_future c = exec_cmd (\<lambda>cb. client_call (Zrevrange c) cb)"

definition zscan_future ::
  "zscan_command \<Rightarrow> nat \<times> ('t, 'u future_callback) client \<Rightarrow>
   nat \<times> nat \<times> ('t, 'u future_callback) client"
where
  "zscan_future c = exec_cmd (\<lambda>cb. client_call (Zscan c) cb)"

primrec future_call ::
  "command \<Rightarrow> nat \<times> ('t, 'u future_callback) client \<Rightarrow>
   nat \<times> nat \<times> ('t, 'u future_callback) client"
where
  "future_call (String_Client c) = string_client_future c"
| "future_call (Cluster c) = cluster_future c"
| "future_call (Config_Eval c) = config_eval_future c"
| "future_call (Expire_Geo c) = expire_geo_future c"
| "future_call (Get_Hash c) = get_hash_future c"
| "future_call (Hash_List c) = hash_list_future c"
| "future_call (Migrate_Publish c) = migrate_publish_future c"
| "future_call (Rename_Scan c) = rename_scan_future c"
| "future_call (Script_Set c) = script_set_future c"
| "future_call (Slow_Sort c) = slow_sort_future c"
| "future_call (Set_Watch c) = set_watch_future c"
| "future_call (Zadd c) = zadd_future c"
| "future_call (Zrange c) = zrange_future c"
| "future_call (Zrangebyscore c) = zrangebyscore_future c"
| "future_call (Zrevrange c) = zrevrange_future c"
| "future_call (Zscan c) = zscan_future c"

lemmas future_defs =
  string_client_future_def cluster_future_def config_eval_future_def expire_geo_future_def
  get_hash_future_def hash_list_future_def migrate_publish_future_def rename_scan_future_def
  script_set_future_def slow_sort_future_def set_watch_future_def zadd_future_def
  zrange_future_def zrangebyscore_future_def zrevrange_future_def zscan_future_def

lemma future_call_eq: "future_call c = exec_cmd (\<lambda>cb. client_call c cb)"
  by (cases c) (simp_all add: future_defs)

definition client_kill_future ::
  "'u future_callback kill_arg list \<Rightarrow> nat \<times> ('t, 'u future_callback) client \<Rightarrow>
   nat \<times> nat \<times> ('t, 'u future_callback) client"
where
  "client_kill_future args =
     exec_cmd (\<lambda>cb. client_kill (args @ (case cb of CC_User f \<Rightarrow> [Kill_callback f] | _ \<Rightarrow> [])))"

text \<open>The values set for a promise, in order; a second one would throw \<open>std::future_error\<close>.\<close>

fun promise_value :: "nat \<Rightarrow> 'u future_callback client_event \<Rightarrow> reply list" where
  "promise_value p (CE_Callback cb r) = (if cb = FC_Promise p then [r] else [])"
| "promise_value p (CE_Connect h port st) = []"

definition promise_values :: "nat \<Rightarrow> ('t, 'u future_callback) client \<Rightarrow> reply list" where
  "promise_values p c = concat (map (promise_value p) (cl_events c))"

lemma promise_values_count:
  fixes c :: "('t, 'u future_callback) client"
  shows "length (promise_values p c) = count (called c) (FC_Promise p)"
proof -
  have "length (concat (map (promise_value p) evs)) = count (sum_list (map called_by evs)) (FC_Promise p)"
    for evs :: "'u future_callback client_event list"
  proof (induction evs)
    case (Cons ev evs)
    then show ?case by (cases ev) simp_all
  qed simp
  then show ?thesis by (simp add: promise_values_def called_def)
qed

section \<open>Reading the filters of \<open>client_kill\<close> back\<close>

fun read_kill :: "string list \<Rightarrow> 'cb kill_arg list option" where
  "read_kill [] = Some []"
| "read_kill [w] = None"
| "read_kill (w # v # ws) =
     (let arg =
        (if w = ''TYPE'' then
           (if v = ''normal'' then Some (Kill_type Client_normal)
            else if v = ''master'' then Some (Kill_type Client_master)
            else if v = ''pubsub'' then Some (Kill_type Client_pubsub)
            else if v = ''slave'' then Some (Kill_type Client_slave) else None)
         else if w = ''SKIPME'' then
           (if v = ''yes'' then Some (Kill_skip True) else if v = ''no'' then Some (Kill_skip False) else None)
         else if w = ''ID'' then Some (Kill_id (decimal_value 0 v))
         else None)
      in case (arg, read_kill ws) of (Some a, Some as') \<Rightarrow> Some (a # as') | _ \<Rightarrow> None)"

fun kill_filter :: "'cb kill_arg \<Rightarrow> bool" where
  "kill_filter (Kill_type t) = True"
| "kill_filter (Kill_skip b) = True"
| "kill_filter (Kill_id i) = (0 \<le> i \<and> i < 2 ^ 64)"
| "kill_filter (Kill_callback f) = False"

lemma client_kill_impl_append:
  "client_kill_impl st (as @ bs) = client_kill_impl (client_kill_impl st as) bs"
  by (induction st as rule: client_kill_impl.induct) simp_all

lemma kill_filters_words:
  "list_all kill_filter args \<Longrightarrow>
    \<exists>ws. client_kill_impl (cmd, cb) args = (cmd @ ws, cb) \<and> read_kill ws = Some args"
proof (induction args arbitrary: cmd)
  case Nil
  then show ?case by simp
next
  case (Cons a as)
  obtain w v where a: "client_kill_unpack_arg (cmd, cb) a = (cmd @ [w, v], cb)"
    "\<And>ws. read_kill ws = Some as \<Longrightarrow> read_kill (w # v # ws) = Some (a # as)"
  proof (cases a)
    case (Kill_type t)
    then show ?thesis by (cases t) (auto intro: that)
  next
    case (Kill_skip b)
    then show ?thesis by (cases b) (auto intro: that)
  next
    case (Kill_id i)
    then have "size_t_cast i = nat i" "0 \<le> i" using Cons.prems by (simp_all add: size_t_cast_id)
    then show ?thesis using Kill_id by (intro that) (auto simp: decimal_value_to_string)
  next
    case (Kill_callback f)
    then show ?thesis using Cons.prems by simp
  qed
  obtain ws where "client_kill_impl (cmd @ [w, v], cb) as = ((cmd @ [w, v]) @ ws, cb)"
    "read_kill ws = Some as"
    using Cons.IH [of "cmd @ [w, v]"] Cons.prems by auto
  then show ?case using a by auto
qed

section \<open>Futures among the threads\<close>

text \<open>The states reached when every request is a future's, a user's callback, or none: the
  promises in the system are those created so far.\<close>

inductive future_reachable ::
  "'t tcp_ops \<Rightarrow> (int \<Rightarrow> net_event list) \<Rightarrow> nat \<times> ('t, 'u future_callback) client_system \<Rightarrow> bool"
  for ops :: "'t tcp_ops" and env :: "int \<Rightarrow> net_event list"
where
  FR_Init: "future_reachable ops env (0, system_init t t')"
| FR_Step: "future_reachable ops env (n, s) \<Longrightarrow> client_step ops env s s' \<Longrightarrow>
    (\<And>p. count (sy_submitted s') (FC_Promise p) = count (sy_submitted s) (FC_Promise p)) \<Longrightarrow>
    future_reachable ops env (n, s')"
| FR_Future: "future_reachable ops env (n, s) \<Longrightarrow> future_call cmd (n, sy_client s) = (p, n', c) \<Longrightarrow>
    future_reachable ops env
      (n', s\<lparr>sy_client := c, sy_submitted := sy_submitted s + {#FC_Promise p#}\<rparr>)"

lemma future_call_reachable:
  assumes "reachable ops env s"
  shows "reachable ops env (s\<lparr>sy_client := client_call cmd (CC_User cb) (sy_client s),
    sy_submitted := sy_submitted s + {#cb#}\<rparr>)"
proof -
  have "client_step ops env s (s\<lparr>sy_client := client_call cmd (CC_User cb) (sy_client s),
      sy_submitted := sy_submitted s + {#cb#}\<rparr>)"
    using client_step.Send [where s = s and ws = "command_words cmd" and cb = "CC_User cb"]
      client_step.Auth [where s = s and cb = "CC_User cb"]
      client_step.Select [where s = s and cb = "CC_User cb"]
    by (auto simp: client_call_def split: command.splits string_client_command.splits
        script_set_command.splits)
  then show ?thesis by (rule reachable.Step [OF assms])
qed

lemma future_reachable_inv:
  "future_reachable ops env st \<Longrightarrow> reachable ops env (snd st) \<and>
    (\<forall>p. count (sy_submitted (snd st)) (FC_Promise p) = (if p < fst st then 1 else 0))"
proof (induction rule: future_reachable.induct)
  case (FR_Init t t')
  then show ?case by (simp add: reachable.Init) (simp add: system_init_def)
next
  case (FR_Step n s s')
  then show ?case using reachable.Step [of ops env s s'] by simp
next
  case (FR_Future n s cmd p n' c)
  then have "p = n" "n' = Suc n" "c = client_call cmd (CC_User (FC_Promise n)) (sy_client s)"
    by (auto simp: future_call_eq exec_cmd_def)
  then show ?case
    using FR_Future future_call_reachable [where cmd = cmd and cb = "FC_Promise n"] by auto
qed

section \<open>Properties\<close>

lemma client_call_frame [simp]:
  "cl_commands (client_call c cb s) =
    cl_commands s @ [\<lparr>cr_command = command_words c, cr_callback = cb\<rparr>]"
  "cl_client (client_call c cb s) = conn_send (command_words c) (cl_client s)"
  by (simp_all add: client_call_eq client_send_def unprotected_send_def)

lemma client_calls_frame:
  "cl_commands (fold (\<lambda>(c, cb). client_call c cb) cs s) =
    cl_commands s @ map (\<lambda>(c, cb). \<lparr>cr_command = command_words c, cr_callback = cb\<rparr>) cs"
  "cl_client (fold (\<lambda>(c, cb). client_call c cb) cs s) =
    fold conn_send (map (\<lambda>(c, cb). command_words c) cs) (cl_client s)"
  by (induction cs arbitrary: s) (auto split: prod.splits)

text \<open>C4: from method calls to the server and back. On an idle client, whatever methods are
  called with whatever arguments, the bytes in the buffer, cut into packets in any way, are
  read as exactly the words of those commands, in order, and the queue holds the callbacks in
  the same order.\<close>

theorem calls_reach_the_server:
  assumes "list_all (\<lambda>(c, cb). command_fits (command_words c)) cs"
    and "cl_commands s = []" "cn_buffer (cl_client s) = []"
    and "concat packets = cn_buffer (cl_client (fold (\<lambda>(c, cb). client_call c cb) cs s))"
  shows "rb_append_all reply_builder_init packets =
      (reply_builder_init\<lparr>rb_available_replies :=
         map (\<lambda>(c, cb). reply_array (map (\<lambda>w. reply_string w String_bulk_string) (command_words c))) cs\<rparr>,
       Inr ()) \<and>
    map cr_callback (cl_commands (fold (\<lambda>(c, cb). client_call c cb) cs s)) = map snd cs"
proof -
  have "list_all command_fits (map (\<lambda>(c, cb). command_words c) cs)"
    using assms(1) by (auto simp: list_all_iff)
  moreover have "concat packets = concat (map build_command (map (\<lambda>(c, cb). command_words c) cs))"
    using assms(3,4) by (simp add: client_calls_frame conn_send_all)
  moreover have "map cr_callback (cl_commands (fold (\<lambda>(c, cb). client_call c cb) cs s)) = map snd cs"
    using assms(2) by (simp only: client_calls_frame) (simp add: comp_def case_prod_unfold)
  ultimately show ?thesis
    using pipeline_decode [of "map (\<lambda>(c, cb). command_words c) cs" packets]
    by (simp add: reply_of_command comp_def case_prod_unfold)
qed

theorem calls_reach_the_server_witness:
  "rb_append_all reply_builder_init
      [build_command [''APPEND'', ''k'', ''v''] @ build_command [''SELECT'', ''3'']] =
    (reply_builder_init\<lparr>rb_available_replies :=
       [reply_array (map (\<lambda>w. reply_string w String_bulk_string) [''APPEND'', ''k'', ''v'']),
        reply_array (map (\<lambda>w. reply_string w String_bulk_string) [''SELECT'', ''3''])]\<rparr>, Inr ())"
proof -
  have three: "to_string_int 3 = ''3''"
    by (simp add: to_string_int_def to_string_nat.simps digit_char_def) (simp add: char_of_def bit_0)
  let ?cs = "[(String_Client (C_append ''k'' ''v''), CC_User (1::nat)), (Script_Set (C_select 3), CC_Null)]"
  have fits: "list_all (\<lambda>(c, cb). command_fits (command_words c)) ?cs"
    by (simp add: command_fits_def three)
  have idle: "cl_commands (client_init () ()) = []" "cn_buffer (cl_client (client_init () ())) = []"
    by (simp_all add: client_init_def connection_init_def)
  show ?thesis
    using calls_reach_the_server [OF fits idle,
        of "[build_command [''APPEND'', ''k'', ''v''] @ build_command [''SELECT'', ''3'']]"]
    by (simp add: client_calls_frame conn_send_def idle three)
qed

text \<open>C35: the filters of \<open>client_kill\<close> are read back exactly, in order, whichever are given;
  the callback given last is the one queued.\<close>

theorem client_kill_round_trip:
  assumes "list_all kill_filter args"
  shows "\<exists>ws. cl_commands (client_kill (args @ [Kill_callback f]) s) =
      cl_commands s @ [\<lparr>cr_command = ''CLIENT'' # ''KILL'' # ws, cr_callback = CC_User f\<rparr>] \<and>
    read_kill ws = Some args"
proof -
  obtain ws where "client_kill_impl ([''CLIENT'', ''KILL''], CC_Null) args =
      ([''CLIENT'', ''KILL''] @ ws, CC_Null)" "read_kill ws = Some args"
    using kill_filters_words [OF assms] by blast
  then show ?thesis
    by (simp add: client_kill_def client_kill_impl_append client_send_def unprotected_send_def)
qed

theorem client_kill_round_trip_witness:
  "\<exists>ws. cl_commands (client_kill [Kill_type Client_pubsub, Kill_skip False, Kill_callback (7::nat)]
      (client_init () ())) = [\<lparr>cr_command = ''CLIENT'' # ''KILL'' # ws, cr_callback = CC_User 7\<rparr>] \<and>
    read_kill ws = Some [Kill_type Client_pubsub, Kill_skip False :: nat kill_arg]"
  using client_kill_round_trip [of "[Kill_type Client_pubsub, Kill_skip False]" 7 "client_init () ()"]
  by (simp add: client_init_def [THEN arg_cong, of cl_commands])

text \<open>C21: a promise is set at most once, and \<open>sync_commit\<close> waits for all but those whose request
  a thread inside \<open>clear_callbacks\<close> has taken off the queue and not yet counted. In every
  state the threads can reach, no future that was handed out has got two values, so no setter
  throws; where the predicate of \<open>sync_commit\<close> holds, each future whose request is not in
  that gap has exactly one.\<close>

theorem futures_set_once:
  assumes "future_reachable ops env (n, s)"
  shows "length (promise_values p (sy_client s)) \<le> 1 \<and>
    (sync_ready (sy_client s) \<and> p < n \<and> FC_Promise p \<notin># users_of (concat (sy_clearing s)) \<longrightarrow>
      (\<exists>r. promise_values p (sy_client s) = [r]))"
proof -
  have r: "reachable ops env s"
    and c: "count (sy_submitted s) (FC_Promise p) = (if p < n then 1 else 0)"
    using future_reachable_inv [OF assms] by auto
  have "system_inv s" using reachable_inv [OF r] .
  then have "count (called (sy_client s)) (FC_Promise p) \<le> count (sy_submitted s) (FC_Promise p)"
    by (auto simp: system_inv_def accounted_def)
  moreover have "count (called (sy_client s)) (FC_Promise p) = count (sy_submitted s) (FC_Promise p)"
    if "sync_ready (sy_client s)" "FC_Promise p \<notin># users_of (concat (sy_clearing s))"
    using all_called [OF r that(1)] that(2) by (simp add: not_in_iff)
  ultimately have "length (promise_values p (sy_client s)) \<le> (if p < n then 1 else 0)"
    "sync_ready (sy_client s) \<Longrightarrow> FC_Promise p \<notin># users_of (concat (sy_clearing s)) \<Longrightarrow>
      length (promise_values p (sy_client s)) = (if p < n then 1 else 0)"
    using c by (simp_all add: promise_values_count)
  then show ?thesis
    by (cases "promise_values p (sy_client s)";
        cases "FC_Promise p \<in># users_of (concat (sy_clearing s))") (auto split: if_splits)
qed

text \<open>A future whose reply has come.\<close>

definition future_client :: "(bool, nat future_callback) client" where
  "future_client = client_send [''PING''] (CC_User (FC_Promise 0)) (client_init True False)"

definition future_system :: "(bool, nat future_callback) client_system" where
  "future_system =
     (system_init True False)
       \<lparr>sy_client := client_finish_request (Some (hd (cl_commands future_client))) reply_null
         (future_client\<lparr>cl_callbacks_running := 1, cl_commands := []\<rparr>),
        sy_submitted := {#FC_Promise 0#}\<rparr>"

lemma future_system_reachable: "future_reachable flag_ops env (1, future_system)"
proof -
  let ?s = "(system_init True False)\<lparr>sy_client := future_client, sy_submitted := {#FC_Promise 0#}\<rparr>"
  let ?c' = "future_client\<lparr>cl_callbacks_running := 1, cl_commands := []\<rparr>"
  let ?s' = "?s\<lparr>sy_client := ?c', sy_active := [(Some (hd (cl_commands future_client)), reply_null)]\<rparr>"
  have "future_reachable flag_ops env (1, ?s)"
    using future_reachable.FR_Future [OF future_reachable.FR_Init [of flag_ops env True False],
        of "Migrate_Publish C_ping" 0 1 future_client]
    by (simp add: future_call_eq exec_cmd_def client_call_def future_client_def system_init_def)
  moreover have "client_next_request future_client = (Some (hd (cl_commands future_client)), ?c')"
    by (simp add: future_client_def client_send_def unprotected_send_def client_init_def
        client_next_request_def Let_def)
  then have "client_step flag_ops env ?s ?s'"
    using client_step.Take [of ?s "Some (hd (cl_commands future_client))" ?c' flag_ops env reply_null]
    by (simp add: system_init_def)
  ultimately have "future_reachable flag_ops env (1, ?s')"
    by (rule future_reachable.FR_Step) simp
  from future_reachable.FR_Step [OF this client_step.Finish [of ?s' "[]"
      "Some (hd (cl_commands future_client))" reply_null "[]"]]
  show ?thesis by (simp add: future_system_def system_init_def)
qed

theorem futures_set_once_witness: "\<exists>r. promise_values 0 (sy_client future_system) = [r]"
proof -
  have "sync_ready (sy_client future_system)" "sy_clearing future_system = []"
    by (simp_all add: future_system_def sync_ready_def system_init_def)
  then show ?thesis using futures_set_once [OF future_system_reachable, of 0] by simp
qed

end
