(* ===== verification/Ordered_Map.thy ===== *)
theory Ordered_Map
  imports Prelude "HOL-Library.List_Lexorder" "HOL-Library.Char_ord"
begin

text \<open>
  What the subscriber uses of \<open>std::map<std::string, ...>\<close>: lookup, \<open>m[k] = v\<close>, \<open>erase\<close> and
  iteration in the order of the keys (characters compared as unsigned bytes, which is the
  order of \<open>Char_ord\<close>). The interface is a locale; a sorted association list provides it.
\<close>

section \<open>Interface\<close>

locale ordered_map =
  fixes find :: "'m \<Rightarrow> 'k::linorder \<Rightarrow> 'v option"
    and assign :: "'k \<Rightarrow> 'v \<Rightarrow> 'm \<Rightarrow> 'm"
    and erase :: "'k \<Rightarrow> 'm \<Rightarrow> 'm"
    and entries :: "'m \<Rightarrow> ('k \<times> 'v) list"
    and empty :: 'm
    and invar :: "'m \<Rightarrow> bool"
  assumes find_empty: "find empty k = None"
    and find_assign: "invar m \<Longrightarrow> find (assign k v m) k' = (if k' = k then Some v else find m k')"
    and find_erase: "invar m \<Longrightarrow> find (erase k m) k' = (if k' = k then None else find m k')"
    and entries_find: "invar m \<Longrightarrow> map_of (entries m) = find m"
    and entries_sorted: "invar m \<Longrightarrow> sorted_wrt (<) (map fst (entries m))"
    and entries_unique: "invar m \<Longrightarrow> invar m' \<Longrightarrow> find m = find m' \<Longrightarrow> m = m'"
    and invar_empty: "invar empty"
    and invar_assign: "invar m \<Longrightarrow> invar (assign k v m)"
    and invar_erase: "invar m \<Longrightarrow> invar (erase k m)"
begin

lemma erase_assign: "invar m \<Longrightarrow> find m k = None \<Longrightarrow> erase k (assign k v m) = m"
  by (rule entries_unique) (auto simp: invar_assign invar_erase find_assign find_erase fun_eq_iff)

text \<open>Assigning a list of entries to an empty map, as a loop over another map does.\<close>

definition assign_all :: "('k \<times> 'v) list \<Rightarrow> 'm \<Rightarrow> 'm" where
  "assign_all kvs m = foldl (\<lambda>m (k, v). assign k v m) m kvs"

lemma assign_all_invar: "invar m \<Longrightarrow> invar (assign_all kvs m)"
  by (induction kvs arbitrary: m) (auto simp: assign_all_def invar_assign)

lemma find_assign_all:
  "invar m \<Longrightarrow> distinct (map fst kvs) \<Longrightarrow>
   find (assign_all kvs m) k = (case map_of kvs k of Some v \<Rightarrow> Some v | None \<Rightarrow> find m k)"
proof (induction kvs arbitrary: m)
  case Nil
  then show ?case by (simp add: assign_all_def)
next
  case (Cons kv kvs)
  obtain k1 v1 where kv: "kv = (k1, v1)" by (cases kv)
  have "assign_all (kv # kvs) m = assign_all kvs (assign k1 v1 m)"
    by (simp add: assign_all_def kv)
  moreover have "map_of kvs k1 = None" using Cons.prems(2) by (simp add: kv map_of_eq_None_iff)
  ultimately show ?case
    using Cons.IH [of "assign k1 v1 m"] Cons.prems
    by (auto simp: kv invar_assign find_assign split: option.splits)
qed

text \<open>Moving a map's entries into an empty one, one by one, rebuilds it.\<close>

lemma rebuild: "invar m \<Longrightarrow> assign_all (entries m) empty = m"
proof (rule entries_unique)
  assume m: "invar m"
  have "distinct (map fst (entries m))"
    using entries_sorted [OF m] by (simp add: strict_sorted_iff)
  then show "find (assign_all (entries m) empty) = find m"
    using find_assign_all [OF invar_empty] entries_find [OF m]
    by (auto simp: fun_eq_iff find_empty split: option.splits)
qed (simp_all add: assign_all_invar invar_empty)

end

section \<open>Sorted association lists\<close>

type_synonym 'v string_map = "(string \<times> 'v) list"

fun map_assign :: "'k::linorder \<Rightarrow> 'v \<Rightarrow> ('k \<times> 'v) list \<Rightarrow> ('k \<times> 'v) list" where
  "map_assign k v [] = [(k, v)]"
| "map_assign k v ((k', v') # m) =
     (if k < k' then (k, v) # (k', v') # m
      else if k = k' then (k, v) # m
      else (k', v') # map_assign k v m)"

fun map_erase :: "'k::linorder \<Rightarrow> ('k \<times> 'v) list \<Rightarrow> ('k \<times> 'v) list" where
  "map_erase k [] = []"
| "map_erase k ((k', v') # m) = (if k = k' then m else (k', v') # map_erase k m)"

definition map_sorted :: "('k::linorder \<times> 'v) list \<Rightarrow> bool" where
  "map_sorted m \<longleftrightarrow> sorted_wrt (<) (map fst m)"

lemma map_sorted_simps [simp]:
  "map_sorted []"
  "map_sorted (kv # m) \<longleftrightarrow> (\<forall>k' \<in> set (map fst m). fst kv < k') \<and> map_sorted m"
  by (auto simp: map_sorted_def)

lemma map_assign_keys [simp]: "set (map fst (map_assign k v m)) = insert k (set (map fst m))"
  by (induction k v m rule: map_assign.induct) auto

lemma map_erase_keys: "set (map fst (map_erase k m)) \<subseteq> set (map fst m)"
  by (induction k m rule: map_erase.induct) auto

lemma map_sorted_assign: "map_sorted m \<Longrightarrow> map_sorted (map_assign k v m)"
proof (induction k v m rule: map_assign.induct)
  case (2 k v k' v' m)
  have "\<forall>x \<in> set (map fst (map_assign k v m)). k' < x" if "\<not> k < k'" "k \<noteq> k'"
    using that 2(2) map_assign_keys [of k v m] by auto
  then show ?case using 2 by (auto simp del: map_assign_keys set_map)
qed simp

lemma map_sorted_erase: "map_sorted m \<Longrightarrow> map_sorted (map_erase k m)"
proof (induction k m rule: map_erase.induct)
  case (2 k k' v' m)
  then show ?case using map_erase_keys [of k m] by (fastforce simp: image_subset_iff)
qed simp

lemma map_of_assign: "map_sorted m \<Longrightarrow> map_of (map_assign k v m) k' = (if k' = k then Some v else map_of m k')"
  by (induction k v m rule: map_assign.induct) auto

lemma map_of_below:
  "\<forall>k' \<in> set (map fst m). (k :: 'k::linorder) < k' \<Longrightarrow> map_of m k = None"
  by (induction m) auto

lemma map_of_erase: "map_sorted m \<Longrightarrow> map_of (map_erase k m) k' = (if k' = k then None else map_of m k')"
  by (induction k m rule: map_erase.induct) (auto simp: map_of_below)

lemma map_sorted_unique:
  assumes "map_sorted m" "map_sorted m'" "map_of m = map_of m'"
  shows "m = m'"
proof (rule map_sorted_distinct_set_unique [where f = fst])
  have d: "distinct (map fst m)" "sorted (map fst m)" "distinct (map fst m')" "sorted (map fst m')"
    using assms(1,2) by (simp_all add: map_sorted_def strict_sorted_iff)
  then show "distinct (map fst m)" "sorted (map fst m)" "distinct (map fst m')" "sorted (map fst m')"
    by blast+
  show e: "set m = set m'" using map_of_inject_set [OF d(1,3)] assms(3) by blast
  show "inj_on fst (set m \<union> set m')" using d(1) by (simp add: e [symmetric] distinct_map)
qed

interpretation string_map: ordered_map map_of map_assign map_erase "\<lambda>m. m" "[]" map_sorted
  by unfold_locales
    (simp_all add: map_of_assign map_of_erase map_sorted_assign map_sorted_erase map_sorted_unique,
      simp_all add: map_sorted_def)

end
