(* ===== verification/Subscriber.thy ===== *)
theory Subscriber
  imports Sentinel Ordered_Map
begin

text \<open>
  \<open>cpp_redis::subscriber\<close> (sources/core/subscriber.cpp, includes/cpp_redis/core/subscriber.hpp):
  the channels and patterns with their callbacks, the dispatch of the server's messages,
  and the reconnection that subscribes again. User callbacks are opaque names, \<open>None\<close> for
  an empty \<open>std::function\<close>; calling one appends to \<open>su_events\<close>.
\<close>

section \<open>State\<close>

record 'cb callback_holder =
  ch_subscribe_callback :: "'cb option"
  ch_acknowledgement_callback :: "'cb option"

datatype 'cb auth_callback =
    AC_Null
  | AC_User 'cb
  | AC_Reauth

datatype 'cb subscriber_event =
    SU_Message 'cb string string
  | SU_Acknowledgement 'cb int
  | SU_Auth 'cb reply
  | SU_Connect string nat connect_state

record ('t, 'cb) subscriber =
  su_redis_server :: string
  su_redis_port :: nat
  su_master_name :: string
  su_password :: string
  su_client :: "'t connection"
  su_sentinel :: "('t, 'cb) sentinel"
  su_connect_timeout_msecs :: nat
  su_max_reconnects :: int
  su_current_reconnect_attempts :: int
  su_reconnect_interval_msecs :: nat
  su_reconnecting :: bool
  su_cancel :: bool
  su_subscribed_channels :: "'cb callback_holder string_map"
  su_psubscribed_channels :: "'cb callback_holder string_map"
  su_connect_callback :: bool
  su_auth_reply_callback :: "'cb auth_callback"
  su_events :: "'cb subscriber_event list"

definition subscriber_init :: "'t \<Rightarrow> 't \<Rightarrow> ('t, 'cb) subscriber" where
  "subscriber_init t t' =
     \<lparr>su_redis_server = [], su_redis_port = 0, su_master_name = [], su_password = [],
      su_client = connection_init t, su_sentinel = sentinel_init t', su_connect_timeout_msecs = 0,
      su_max_reconnects = 0, su_current_reconnect_attempts = 0, su_reconnect_interval_msecs = 0,
      su_reconnecting = False, su_cancel = False, su_subscribed_channels = [],
      su_psubscribed_channels = [], su_connect_callback = False, su_auth_reply_callback = AC_Null,
      su_events = []\<rparr>"

abbreviation put_su_client ::
  "'t connection \<Rightarrow> ('t, 'cb) subscriber \<Rightarrow> ('t, 'cb) subscriber"
where
  "put_su_client c s \<equiv> s\<lparr>su_client := c\<rparr>"

definition su_event :: "'cb subscriber_event \<Rightarrow> ('t, 'cb) subscriber \<Rightarrow> ('t, 'cb) subscriber" where
  "su_event e s = s\<lparr>su_events := su_events s @ [e]\<rparr>"

definition su_notify ::
  "string \<Rightarrow> nat \<Rightarrow> connect_state \<Rightarrow> ('t, 'cb) subscriber \<Rightarrow> ('t, 'cb) subscriber"
where
  "su_notify host port status s =
     (if su_connect_callback s then su_event (SU_Connect host port status) s else s)"

definition su_is_connected :: "'t tcp_ops \<Rightarrow> ('t, 'cb) subscriber \<Rightarrow> bool" where
  "su_is_connected ops s = conn_is_connected ops (su_client s)"

definition su_cancel_reconnect :: "('t, 'cb) subscriber \<Rightarrow> ('t, 'cb) subscriber" where
  "su_cancel_reconnect s = s\<lparr>su_cancel := True\<rparr>"

definition su_add_sentinel ::
  "string \<Rightarrow> nat \<Rightarrow> nat \<Rightarrow> ('t, 'cb) subscriber \<Rightarrow> ('t, 'cb) subscriber"
where
  "su_add_sentinel host port timeout_msecs s =
     s\<lparr>su_sentinel := add_sentinel host port timeout_msecs (su_sentinel s)\<rparr>"

definition su_clear_sentinels :: "('t, 'cb) subscriber \<Rightarrow> ('t, 'cb) subscriber" where
  "su_clear_sentinels s = s\<lparr>su_sentinel := clear_sentinels (su_sentinel s)\<rparr>"

definition su_disconnect ::
  "'t tcp_ops \<Rightarrow> bool \<Rightarrow> ('t, 'cb) subscriber \<Rightarrow> ('t, 'cb) subscriber"
where
  "su_disconnect ops wait_for_removal s =
     put_su_client (conn_disconnect ops wait_for_removal (su_client s)) s"

section \<open>Subscriptions\<close>

definition su_auth ::
  "string \<Rightarrow> 'cb auth_callback \<Rightarrow> ('t, 'cb) subscriber \<Rightarrow> ('t, 'cb) subscriber"
where
  "su_auth password reply_callback s =
     s\<lparr>su_password := password, su_auth_reply_callback := reply_callback,
       su_client := conn_send [''AUTH'', password] (su_client s)\<rparr>"

definition unprotected_subscribe ::
  "string \<Rightarrow> 'cb callback_holder \<Rightarrow> ('t, 'cb) subscriber \<Rightarrow> ('t, 'cb) subscriber"
where
  "unprotected_subscribe channel holder s =
     s\<lparr>su_subscribed_channels := map_assign channel holder (su_subscribed_channels s),
       su_client := conn_send [''SUBSCRIBE'', channel] (su_client s)\<rparr>"

definition subscribe ::
  "string \<Rightarrow> 'cb option \<Rightarrow> 'cb option \<Rightarrow> ('t, 'cb) subscriber \<Rightarrow> ('t, 'cb) subscriber"
where
  "subscribe channel callback acknowledgement_callback s =
     unprotected_subscribe channel
       \<lparr>ch_subscribe_callback = callback, ch_acknowledgement_callback = acknowledgement_callback\<rparr> s"

definition unprotected_psubscribe ::
  "string \<Rightarrow> 'cb callback_holder \<Rightarrow> ('t, 'cb) subscriber \<Rightarrow> ('t, 'cb) subscriber"
where
  "unprotected_psubscribe pattern holder s =
     s\<lparr>su_psubscribed_channels := map_assign pattern holder (su_psubscribed_channels s),
       su_client := conn_send [''PSUBSCRIBE'', pattern] (su_client s)\<rparr>"

definition psubscribe ::
  "string \<Rightarrow> 'cb option \<Rightarrow> 'cb option \<Rightarrow> ('t, 'cb) subscriber \<Rightarrow> ('t, 'cb) subscriber"
where
  "psubscribe pattern callback acknowledgement_callback s =
     unprotected_psubscribe pattern
       \<lparr>ch_subscribe_callback = callback, ch_acknowledgement_callback = acknowledgement_callback\<rparr> s"

definition unsubscribe :: "string \<Rightarrow> ('t, 'cb) subscriber \<Rightarrow> ('t, 'cb) subscriber" where
  "unsubscribe channel s =
     (case map_of (su_subscribed_channels s) channel of
        None \<Rightarrow> s
      | Some _ \<Rightarrow>
          s\<lparr>su_client := conn_send [''UNSUBSCRIBE'', channel] (su_client s),
            su_subscribed_channels := map_erase channel (su_subscribed_channels s)\<rparr>)"

definition punsubscribe :: "string \<Rightarrow> ('t, 'cb) subscriber \<Rightarrow> ('t, 'cb) subscriber" where
  "punsubscribe pattern s =
     (case map_of (su_psubscribed_channels s) pattern of
        None \<Rightarrow> s
      | Some _ \<Rightarrow>
          s\<lparr>su_client := conn_send [''PUNSUBSCRIBE'', pattern] (su_client s),
            su_psubscribed_channels := map_erase pattern (su_psubscribed_channels s)\<rparr>)"

definition su_commit ::
  "'t tcp_ops \<Rightarrow> ('t, 'cb) subscriber \<Rightarrow> ('t, 'cb) subscriber \<times> unit result"
where
  "su_commit ops s = (case conn_commit ops (su_client s) of (c, r) \<Rightarrow> (put_su_client c s, r))"

section \<open>Replies\<close>

definition call_acknowledgement_callback ::
  "string \<Rightarrow> 'cb callback_holder string_map \<Rightarrow> int \<Rightarrow> ('t, 'cb) subscriber \<Rightarrow>
   ('t, 'cb) subscriber \<times> unit result"
where
  "call_acknowledgement_callback channel channels nb_chans s =
     (case map_of channels channel of
        None \<Rightarrow> (s, Inr ())
      | Some holder \<Rightarrow>
          (case ch_acknowledgement_callback holder of
             None \<Rightarrow> (s, Inr ())
           | Some cb \<Rightarrow> (su_event (SU_Acknowledgement cb nb_chans) s, Inr ())))"

definition handle_acknowledgement_reply ::
  "reply list \<Rightarrow> ('t, 'cb) subscriber \<Rightarrow> ('t, 'cb) subscriber \<times> unit result"
where
  "handle_acknowledgement_reply r s =
     (if length r \<noteq> 3 then (s, Inr ())
      else let title = r ! 0; channel = r ! 1; nb_chans = r ! 2
        in if \<not> is_string title \<or> \<not> is_string channel \<or> \<not> is_integer nb_chans then (s, Inr ())
           else with_value (as_string title) (\<lambda>t.
             if t = ''subscribe''
             then with_value (as_string channel) (\<lambda>c. with_value (as_integer nb_chans) (\<lambda>n.
                    call_acknowledgement_callback c (su_subscribed_channels s) n s) s) s
             else if t = ''psubscribe''
             then with_value (as_string channel) (\<lambda>c. with_value (as_integer nb_chans) (\<lambda>n.
                    call_acknowledgement_callback c (su_psubscribed_channels s) n s) s) s
             else (s, Inr ())) s)"

text \<open>\<open>it->second.subscribe_callback(...)\<close>: an empty function throws \<open>std::bad_function_call\<close>.\<close>

definition call_subscribe_callback ::
  "'cb callback_holder \<Rightarrow> string \<Rightarrow> string \<Rightarrow> ('t, 'cb) subscriber \<Rightarrow> ('t, 'cb) subscriber \<times> unit result"
where
  "call_subscribe_callback holder channel message s =
     (case ch_subscribe_callback holder of
        None \<Rightarrow> (s, Inl (Std_Exception ''bad_function_call''))
      | Some cb \<Rightarrow> (su_event (SU_Message cb channel message) s, Inr ()))"

definition handle_subscribe_reply ::
  "reply list \<Rightarrow> ('t, 'cb) subscriber \<Rightarrow> ('t, 'cb) subscriber \<times> unit result"
where
  "handle_subscribe_reply r s =
     (if length r \<noteq> 3 then (s, Inr ())
      else let title = r ! 0; channel = r ! 1; message = r ! 2
        in if \<not> is_string title \<or> \<not> is_string channel \<or> \<not> is_string message then (s, Inr ())
           else with_value (as_string title) (\<lambda>t.
             if t \<noteq> ''message'' then (s, Inr ())
             else with_value (as_string channel) (\<lambda>c.
               case map_of (su_subscribed_channels s) c of
                 None \<Rightarrow> (s, Inr ())
               | Some holder \<Rightarrow>
                   with_value (as_string message) (\<lambda>m. call_subscribe_callback holder c m s) s) s) s)"

definition handle_psubscribe_reply ::
  "reply list \<Rightarrow> ('t, 'cb) subscriber \<Rightarrow> ('t, 'cb) subscriber \<times> unit result"
where
  "handle_psubscribe_reply r s =
     (if length r \<noteq> 4 then (s, Inr ())
      else let title = r ! 0; pchannel = r ! 1; channel = r ! 2; message = r ! 3
        in if \<not> is_string title \<or> \<not> is_string pchannel \<or> \<not> is_string channel \<or> \<not> is_string message
           then (s, Inr ())
           else with_value (as_string title) (\<lambda>t.
             if t \<noteq> ''pmessage'' then (s, Inr ())
             else with_value (as_string pchannel) (\<lambda>p.
               case map_of (su_psubscribed_channels s) p of
                 None \<Rightarrow> (s, Inr ())
               | Some holder \<Rightarrow>
                   with_value (as_string channel) (\<lambda>c. with_value (as_string message) (\<lambda>m.
                     call_subscribe_callback holder c m s) s) s) s) s)"

text \<open>The lambda of \<open>re_auth\<close> only writes to the log.\<close>

definition call_auth_callback :: "reply \<Rightarrow> ('t, 'cb) subscriber \<Rightarrow> ('t, 'cb) subscriber" where
  "call_auth_callback r s =
     (case su_auth_reply_callback s of
        AC_Null \<Rightarrow> s
      | AC_User cb \<Rightarrow> (su_event (SU_Auth cb r) s)\<lparr>su_auth_reply_callback := AC_Null\<rparr>
      | AC_Reauth \<Rightarrow> s\<lparr>su_auth_reply_callback := AC_Null\<rparr>)"

definition su_receive_handler ::
  "reply \<Rightarrow> ('t, 'cb) subscriber \<Rightarrow> ('t, 'cb) subscriber \<times> unit result"
where
  "su_receive_handler r s =
     (if \<not> is_array r then (call_auth_callback r s, Inr ())
      else with_value (as_array r) (\<lambda>array.
        if length array = 3 \<and> is_integer (array ! 2) then handle_acknowledgement_reply array s
        else if length array = 3 \<and> is_string (array ! 2) then handle_subscribe_reply array s
        else if length array = 4 then handle_psubscribe_reply array s
        else (s, Inr ())) s)"

section \<open>Connecting\<close>

definition su_connect ::
  "'t tcp_ops \<Rightarrow> string \<Rightarrow> nat \<Rightarrow> bool \<Rightarrow> nat \<Rightarrow> int \<Rightarrow> nat \<Rightarrow> ('t, 'cb) subscriber \<Rightarrow>
   ('t, 'cb) subscriber \<times> unit result"
where
  "su_connect ops host port connect_callback timeout_msecs max_reconnects reconnect_interval_msecs s =
     (let s1 = s\<lparr>su_redis_server := host, su_redis_port := port,
                 su_connect_callback := connect_callback, su_max_reconnects := max_reconnects,
                 su_reconnect_interval_msecs := reconnect_interval_msecs\<rparr>;
          s2 = su_notify host port CS_start s1
      in case conn_connect ops host port True True timeout_msecs (su_client s2) of
           (c, Inl e) \<Rightarrow> (put_su_client c s2, Inl e)
         | (c, Inr u) \<Rightarrow>
             (su_notify (su_redis_server s2) (su_redis_port s2) CS_ok (put_su_client c s2), Inr ()))"

definition su_lookup ::
  "'t tcp_ops \<Rightarrow> net_event list \<Rightarrow> ('t, 'cb) subscriber \<Rightarrow> (('t, 'cb) subscriber \<times> bool result) option"
where
  "su_lookup ops evs s =
     (case get_master_addr_by_name ops evs (su_master_name s) True (su_sentinel s) of
        None \<Rightarrow> None
      | Some (se, r) \<Rightarrow>
          Some (s\<lparr>su_sentinel := se, su_redis_server := se_host se, su_redis_port := se_port se\<rparr>, r))"

definition su_connect_master ::
  "'t tcp_ops \<Rightarrow> net_event list \<Rightarrow> string \<Rightarrow> bool \<Rightarrow> nat \<Rightarrow> int \<Rightarrow> nat \<Rightarrow> ('t, 'cb) subscriber \<Rightarrow>
   (('t, 'cb) subscriber \<times> unit result) option"
where
  "su_connect_master ops evs name connect_callback timeout_msecs max_reconnects
      reconnect_interval_msecs s =
     (case su_lookup ops evs (s\<lparr>su_master_name := name\<rparr>) of
        None \<Rightarrow> None
      | Some (s', Inl e) \<Rightarrow> Some (s', Inl e)
      | Some (s', Inr found) \<Rightarrow>
          Some (if found
                then su_connect ops (su_redis_server s') (su_redis_port s') connect_callback
                       timeout_msecs max_reconnects reconnect_interval_msecs s'
                else (s', Inl (Redis_Error
                       (''cpp_redis::subscriber::connect() could not find master for name '' @ name)))))"

section \<open>Reconnecting\<close>

definition su_should_reconnect :: "'t tcp_ops \<Rightarrow> ('t, 'cb) subscriber \<Rightarrow> bool" where
  "su_should_reconnect ops s \<longleftrightarrow>
     \<not> su_is_connected ops s \<and> \<not> su_cancel s \<and>
     (su_max_reconnects s = -1 \<or> su_current_reconnect_attempts s < su_max_reconnects s)"

definition su_sleep :: "('t, 'cb) subscriber \<Rightarrow> ('t, 'cb) subscriber" where
  "su_sleep s =
     (if su_reconnect_interval_msecs s = 0 then s
      else su_notify (su_redis_server s) (su_redis_port s) CS_sleeping s)"

definition su_re_auth :: "('t, 'cb) subscriber \<Rightarrow> ('t, 'cb) subscriber" where
  "su_re_auth s = (if su_password s = [] then s else su_auth (su_password s) AC_Reauth s)"

text \<open>The maps are moved from, hence empty, before their entries are put back.\<close>

definition re_subscribe :: "('t, 'cb) subscriber \<Rightarrow> ('t, 'cb) subscriber" where
  "re_subscribe s =
     (let s1 = foldl (\<lambda>s' (channel, holder). unprotected_subscribe channel holder s')
                 (s\<lparr>su_subscribed_channels := []\<rparr>) (su_subscribed_channels s)
      in foldl (\<lambda>s' (pattern, holder). unprotected_psubscribe pattern holder s')
           (s1\<lparr>su_psubscribed_channels := []\<rparr>) (su_psubscribed_channels s1))"

definition su_clear_subscriptions :: "('t, 'cb) subscriber \<Rightarrow> ('t, 'cb) subscriber" where
  "su_clear_subscriptions s = s\<lparr>su_subscribed_channels := [], su_psubscribed_channels := []\<rparr>"

definition su_reconnect_to_server ::
  "'t tcp_ops \<Rightarrow> ('t, 'cb) subscriber \<Rightarrow> ('t, 'cb) subscriber \<times> unit result"
where
  "su_reconnect_to_server ops s =
     (case su_connect ops (su_redis_server s) (su_redis_port s) (su_connect_callback s)
             (su_connect_timeout_msecs s) (su_max_reconnects s) (su_reconnect_interval_msecs s) s of
        (s1, r) \<Rightarrow>
          (if (case r of Inl e \<Rightarrow> \<not> is_exception e | Inr u \<Rightarrow> False) then (s1, r)
           else if \<not> su_is_connected ops s1
           then (su_notify (su_redis_server s1) (su_redis_port s1) CS_failed s1, Inr ())
           else su_commit ops (re_subscribe (su_re_auth
                  (su_notify (su_redis_server s1) (su_redis_port s1) CS_ok s1)))))"

definition su_reconnect ::
  "'t tcp_ops \<Rightarrow> (int \<Rightarrow> net_event list) \<Rightarrow> ('t, 'cb) subscriber \<Rightarrow>
   (('t, 'cb) subscriber \<times> unit result) option"
where
  "su_reconnect ops env s0 =
     (let n = su_current_reconnect_attempts s0 + 1; s = s0\<lparr>su_current_reconnect_attempts := n\<rparr>
      in if \<not> in_int32 n then Some (s0, Inl (Undefined_Behaviour Signed_Overflow))
         else if su_master_name s = [] then Some (su_reconnect_to_server ops s)
         else case su_lookup ops (env n) s of
           None \<Rightarrow> None
         | Some (s', Inl e) \<Rightarrow> Some (s', Inl e)
         | Some (s', Inr found) \<Rightarrow>
             (if \<not> found
              then Some (su_notify (su_redis_server s') (su_redis_port s') CS_lookup_failed s', Inr ())
              else Some (su_reconnect_to_server ops s')))"

definition su_reconnect_round ::
  "'t tcp_ops \<Rightarrow> (int \<Rightarrow> net_event list) \<Rightarrow> ('t, 'cb) subscriber \<Rightarrow>
   (('t, 'cb) subscriber \<times> unit result) option"
where
  "su_reconnect_round ops env s = su_reconnect ops env (su_sleep s)"

definition su_disconnection_handler ::
  "'t tcp_ops \<Rightarrow> (int \<Rightarrow> net_event list) \<Rightarrow> ('t, 'cb) subscriber \<Rightarrow>
   (('t, 'cb) subscriber \<times> unit result) option"
where
  "su_disconnection_handler ops env s =
     (if su_reconnecting s then Some (s, Inr ())
      else let s1 = s\<lparr>su_reconnecting := True, su_current_reconnect_attempts := 0\<rparr>;
               s2 = su_notify (su_redis_server s1) (su_redis_port s1) CS_dropped s1
        in case reconnect_loop (su_should_reconnect ops) (su_reconnect_round ops env) s2 of
             None \<Rightarrow> None
           | Some (s3, Inl e) \<Rightarrow> Some (s3, Inl e)
           | Some (s3, Inr u) \<Rightarrow>
               let s4 = (if \<not> su_is_connected ops s3
                         then let s' = su_clear_subscriptions s3
                              in su_notify (su_redis_server s') (su_redis_port s') CS_stopped s'
                         else s3)
               in Some (s4\<lparr>su_reconnecting := False\<rparr>, Inr ()))"

fun su_net_event ::
  "'t tcp_ops \<Rightarrow> (int \<Rightarrow> net_event list) \<Rightarrow> net_event \<Rightarrow> ('t, 'cb) subscriber \<Rightarrow>
   (('t, 'cb) subscriber \<times> unit result) option"
where
  "su_net_event ops env (Net_Read res) s =
     tcp_client_receive_handler ops su_client put_su_client su_receive_handler
       (su_disconnection_handler ops env) res s"
| "su_net_event ops env Net_Disconnected s =
     tcp_client_disconnection_handler su_client put_su_client (su_disconnection_handler ops env) s"

section \<open>The contracts\<close>

lemma su_notify_frame [simp]:
  "su_client (su_notify h p st s) = su_client s"
  "su_subscribed_channels (su_notify h p st s) = su_subscribed_channels s"
  "su_psubscribed_channels (su_notify h p st s) = su_psubscribed_channels s"
  "su_current_reconnect_attempts (su_notify h p st s) = su_current_reconnect_attempts s"
  "su_max_reconnects (su_notify h p st s) = su_max_reconnects s"
  "su_master_name (su_notify h p st s) = su_master_name s"
  "su_password (su_notify h p st s) = su_password s"
  "su_reconnecting (su_notify h p st s) = su_reconnecting s"
  by (simp_all add: su_notify_def su_event_def)

text \<open>Handling a reply calls callbacks and may reset the one for \<open>AUTH\<close>, nothing else.\<close>

definition only_events :: "('t, 'cb) subscriber \<Rightarrow> ('t, 'cb) subscriber \<Rightarrow> bool" where
  "only_events s s' \<longleftrightarrow>
     s' = s\<lparr>su_events := su_events s', su_auth_reply_callback := su_auth_reply_callback s'\<rparr>"

lemma only_events_refl [simp]: "only_events s s"
  by (simp add: only_events_def)

lemma only_events_event [simp]: "only_events s (su_event e s)"
  by (simp add: only_events_def su_event_def)

lemma call_frames:
  "only_events s (fst (call_acknowledgement_callback c m n s))"
  "only_events s (fst (call_subscribe_callback h c msg s))"
  by (simp_all add: call_acknowledgement_callback_def call_subscribe_callback_def split: option.splits)

lemma with_value_only_events:
  "(\<And>x. only_events s (fst (f x))) \<Longrightarrow> only_events s (fst (with_value r f s))"
  by (cases r) simp_all

lemma call_auth_callback_only_events: "only_events s (call_auth_callback r s)"
  by (simp add: call_auth_callback_def only_events_def su_event_def split: auth_callback.splits)

lemma handlers_only_events:
  "only_events s (fst (handle_acknowledgement_reply array s))"
  "only_events s (fst (handle_subscribe_reply array s))"
  "only_events s (fst (handle_psubscribe_reply array s))"
  by (auto simp: handle_acknowledgement_reply_def handle_subscribe_reply_def handle_psubscribe_reply_def
      Let_def call_frames intro!: with_value_only_events split: option.splits)

lemma su_receive_handler_only_events: "only_events s (fst (su_receive_handler r s))"
  unfolding su_receive_handler_def
  by (auto simp: call_auth_callback_only_events handlers_only_events intro!: with_value_only_events)

lemma only_events_sel:
  assumes "only_events s s'"
  shows "su_client s' = su_client s" "su_subscribed_channels s' = su_subscribed_channels s"
    "su_psubscribed_channels s' = su_psubscribed_channels s" "su_master_name s' = su_master_name s"
    "su_max_reconnects s' = su_max_reconnects s" "su_password s' = su_password s"
  using arg_cong [OF assms [unfolded only_events_def], of su_client]
    arg_cong [OF assms [unfolded only_events_def], of su_subscribed_channels]
    arg_cong [OF assms [unfolded only_events_def], of su_psubscribed_channels]
    arg_cong [OF assms [unfolded only_events_def], of su_master_name]
    arg_cong [OF assms [unfolded only_events_def], of su_max_reconnects]
    arg_cong [OF assms [unfolded only_events_def], of su_password]
  by simp_all

interpretation subscriber_owner: connection_owner su_client put_su_client su_receive_handler
proof unfold_locales
  show "rb_available_replies (cn_builder (su_client s')) = rb_available_replies (cn_builder (su_client s))"
    if "su_receive_handler r s = (s', res)" for r s s' res
    using only_events_sel(1) [OF su_receive_handler_only_events [of s r]] that by simp
qed simp

text \<open>The handlers do not look at the connection.\<close>

lemma with_value_put:
  "(\<And>x. f' x = (put_su_client c (fst (f x)), snd (f x))) \<Longrightarrow>
   with_value r f' (put_su_client c s) =
     (put_su_client c (fst (with_value r f s)), snd (with_value r f s))"
  by (cases r) simp_all

lemma su_event_put: "su_event e (put_su_client c s) = put_su_client c (su_event e s)"
  by (cases s) (simp add: su_event_def)

lemma call_put:
  "call_acknowledgement_callback ch m n (put_su_client c s) =
    (put_su_client c (fst (call_acknowledgement_callback ch m n s)), snd (call_acknowledgement_callback ch m n s))"
  "call_subscribe_callback h ch msg (put_su_client c s) =
    (put_su_client c (fst (call_subscribe_callback h ch msg s)), snd (call_subscribe_callback h ch msg s))"
  "call_auth_callback r (put_su_client c s) = put_su_client c (call_auth_callback r s)"
  by (simp_all add: call_acknowledgement_callback_def call_subscribe_callback_def su_event_put
      call_auth_callback_def split: option.splits auth_callback.splits)

lemma su_receive_handler_put:
  "su_receive_handler r (put_su_client c s) =
    (put_su_client c (fst (su_receive_handler r s)), snd (su_receive_handler r s))"
proof -
  have "handle_acknowledgement_reply array (put_su_client c s) =
      (put_su_client c (fst (handle_acknowledgement_reply array s)), snd (handle_acknowledgement_reply array s))"
    "handle_subscribe_reply array (put_su_client c s) =
      (put_su_client c (fst (handle_subscribe_reply array s)), snd (handle_subscribe_reply array s))"
    "handle_psubscribe_reply array (put_su_client c s) =
      (put_su_client c (fst (handle_psubscribe_reply array s)), snd (handle_psubscribe_reply array s))" for array
    by (auto simp: handle_acknowledgement_reply_def handle_subscribe_reply_def handle_psubscribe_reply_def
        Let_def call_put intro!: with_value_put split: option.splits)
  then show ?thesis
    unfolding su_receive_handler_def
    by (auto simp: call_put intro!: with_value_put)
qed

interpretation subscriber_quiet: quiet_owner su_client put_su_client su_receive_handler
  by unfold_locales (simp_all add: su_receive_handler_put)

section \<open>Reconnection\<close>

text \<open>What every part of a reconnection keeps: the bounds of the loop, the name of the
  master and the flag that a reconnection is under way.\<close>

definition su_same_loop :: "('t, 'cb) subscriber \<Rightarrow> ('t, 'cb) subscriber \<Rightarrow> bool" where
  "su_same_loop s s' \<longleftrightarrow>
     su_current_reconnect_attempts s' = su_current_reconnect_attempts s \<and>
     su_max_reconnects s' = su_max_reconnects s \<and>
     su_master_name s' = su_master_name s \<and> su_reconnecting s' = su_reconnecting s"

lemma su_same_loop_refl [simp]: "su_same_loop s s"
  by (simp add: su_same_loop_def)

lemma su_same_loop_trans: "su_same_loop s s' \<Longrightarrow> su_same_loop s' s'' \<Longrightarrow> su_same_loop s s''"
  by (simp add: su_same_loop_def)

definition subscribe_commands :: "'cb callback_holder string_map \<Rightarrow> string list list" where
  "subscribe_commands m = map (\<lambda>(channel, _). [''SUBSCRIBE'', channel]) m"

definition psubscribe_commands :: "'cb callback_holder string_map \<Rightarrow> string list list" where
  "psubscribe_commands m = map (\<lambda>(pattern, _). [''PSUBSCRIBE'', pattern]) m"

lemma foldl_unprotected_subscribe:
  "foldl (\<lambda>s' (channel, holder). unprotected_subscribe channel holder s') s kvs =
    s\<lparr>su_subscribed_channels := string_map.assign_all kvs (su_subscribed_channels s),
      su_client := fold conn_send (subscribe_commands kvs) (su_client s)\<rparr>"
  by (induction kvs arbitrary: s)
    (simp_all add: subscribe_commands_def string_map.assign_all_def unprotected_subscribe_def
      case_prod_unfold)

lemma foldl_unprotected_psubscribe:
  "foldl (\<lambda>s' (pattern, holder). unprotected_psubscribe pattern holder s') s kvs =
    s\<lparr>su_psubscribed_channels := string_map.assign_all kvs (su_psubscribed_channels s),
      su_client := fold conn_send (psubscribe_commands kvs) (su_client s)\<rparr>"
  by (induction kvs arbitrary: s)
    (simp_all add: psubscribe_commands_def string_map.assign_all_def unprotected_psubscribe_def
      case_prod_unfold)

lemma su_re_auth_frame [simp]:
  "su_subscribed_channels (su_re_auth s) = su_subscribed_channels s"
  "su_psubscribed_channels (su_re_auth s) = su_psubscribed_channels s"
  "su_client (su_re_auth s) = fold conn_send
     (if su_password s = [] then [] else [[''AUTH'', su_password s]]) (su_client s)"
  by (simp_all add: su_re_auth_def su_auth_def)

lemma re_subscribe_loop: "su_same_loop s (re_subscribe s)"
  by (simp add: re_subscribe_def Let_def foldl_unprotected_subscribe foldl_unprotected_psubscribe
      su_same_loop_def)

text \<open>The maps are rebuilt as they were, whatever their order was, if they are maps at all.\<close>

definition subscriptions_sorted :: "('t, 'cb) subscriber \<Rightarrow> bool" where
  "subscriptions_sorted s \<longleftrightarrow>
     map_sorted (su_subscribed_channels s) \<and> map_sorted (su_psubscribed_channels s)"

lemma re_subscribe_eq:
  assumes "subscriptions_sorted s"
  shows "re_subscribe s = s\<lparr>su_client := fold conn_send
    (subscribe_commands (su_subscribed_channels s) @ psubscribe_commands (su_psubscribed_channels s))
    (su_client s)\<rparr>"
  using assms string_map.rebuild [of "su_subscribed_channels s"]
    string_map.rebuild [of "su_psubscribed_channels s"]
  by (simp add: re_subscribe_def Let_def foldl_unprotected_subscribe foldl_unprotected_psubscribe
      subscriptions_sorted_def)

lemma re_subscribe_sorted: "subscriptions_sorted (re_subscribe s)"
  by (simp add: re_subscribe_def Let_def foldl_unprotected_subscribe foldl_unprotected_psubscribe
      subscriptions_sorted_def string_map.assign_all_invar)

lemma su_connect_frame:
  "su_connect ops h p cc tm mr ri s = (s', r) \<Longrightarrow>
    su_max_reconnects s' = mr \<and> su_subscribed_channels s' = su_subscribed_channels s \<and>
    su_psubscribed_channels s' = su_psubscribed_channels s \<and>
    su_current_reconnect_attempts s' = su_current_reconnect_attempts s \<and>
    su_password s' = su_password s \<and> su_master_name s' = su_master_name s \<and>
    su_reconnecting s' = su_reconnecting s"
  by (auto simp: su_connect_def su_notify_def su_event_def Let_def split: prod.splits sum.splits if_splits)

lemma su_commit_loop: "su_same_loop s (fst (su_commit ops s))"
  by (simp add: su_commit_def su_same_loop_def split: prod.splits)

lemma su_re_auth_loop: "su_same_loop s (su_re_auth s)"
  by (simp add: su_re_auth_def su_auth_def su_same_loop_def)

lemma su_reconnect_to_server_loop: "su_same_loop s (fst (su_reconnect_to_server ops s))"
proof -
  obtain s1 r where c: "su_connect ops (su_redis_server s) (su_redis_port s) (su_connect_callback s)
      (su_connect_timeout_msecs s) (su_max_reconnects s) (su_reconnect_interval_msecs s) s = (s1, r)"
    by (metis surj_pair)
  have s1: "su_same_loop s s1" using su_connect_frame [OF c] by (simp add: su_same_loop_def)
  let ?s2 = "su_notify (su_redis_server s1) (su_redis_port s1) CS_ok s1"
  have "su_same_loop s ?s2" using s1 by (simp add: su_same_loop_def)
  then have "su_same_loop s (fst (su_commit ops (re_subscribe (su_re_auth ?s2))))"
    using su_re_auth_loop re_subscribe_loop su_commit_loop su_same_loop_trans by metis
  then show ?thesis
    using c s1 unfolding su_reconnect_to_server_def by (simp add: su_same_loop_def)
qed

lemma su_lookup_fields:
  "su_lookup ops evs s = Some (s', r) \<Longrightarrow>
    su_same_loop s s' \<and> su_subscribed_channels s' = su_subscribed_channels s \<and>
    su_psubscribed_channels s' = su_psubscribed_channels s"
  by (auto simp: su_lookup_def su_same_loop_def split: option.splits)

lemma su_reconnect_round_loop:
  assumes "su_reconnect_round ops env s = Some (s', r)"
  shows "su_master_name s' = su_master_name s \<and> su_reconnecting s' = su_reconnecting s \<and>
    su_max_reconnects s' = su_max_reconnects s \<and>
    (is_ok r \<longrightarrow> su_current_reconnect_attempts s' = su_current_reconnect_attempts s + 1)"
proof -
  have server: "su_same_loop s0 s2" if "su_reconnect_to_server ops s0 = (s2, r2)" for s0 s2 r2
    using su_reconnect_to_server_loop [of s0 ops] that by simp
  show ?thesis
    using assms
    by (auto simp: su_reconnect_round_def su_reconnect_def su_sleep_def Let_def su_same_loop_def
        split: if_splits option.splits sum.splits dest!: server su_lookup_fields)
qed

interpretation subscriber_reconnecting: reconnecting
  "su_should_reconnect ops" "su_reconnect_round ops env" su_current_reconnect_attempts su_max_reconnects
  for ops :: "'t tcp_ops" and env
  by unfold_locales (use su_reconnect_round_loop in \<open>fastforce simp: su_should_reconnect_def\<close>)+

lemma su_reconnect_round_returns: "su_master_name s = [] \<Longrightarrow> su_reconnect_round ops env s \<noteq> None"
  by (simp add: su_reconnect_round_def su_reconnect_def su_sleep_def Let_def)

section \<open>The maps stay sorted\<close>

named_theorems sorted_intros \<open>operations that keep the subscription maps sorted\<close>

lemma sorted_fields [simp]:
  "subscriptions_sorted (su_notify h p st s) = subscriptions_sorted s"
  "subscriptions_sorted (put_su_client c s) = subscriptions_sorted s"
  "subscriptions_sorted (s\<lparr>su_reconnecting := b\<rparr>) = subscriptions_sorted s"
  "subscriptions_sorted (s\<lparr>su_current_reconnect_attempts := n\<rparr>) = subscriptions_sorted s"
  "subscriptions_sorted (s\<lparr>su_master_name := name\<rparr>) = subscriptions_sorted s"
  "subscriptions_sorted (su_auth pw cb s) = subscriptions_sorted s"
  "subscriptions_sorted (su_add_sentinel h p' tm s) = subscriptions_sorted s"
  "subscriptions_sorted (su_clear_sentinels s) = subscriptions_sorted s"
  "subscriptions_sorted (su_cancel_reconnect s) = subscriptions_sorted s"
  "subscriptions_sorted (su_re_auth s) = subscriptions_sorted s"
  "subscriptions_sorted (fst (su_commit ops s)) = subscriptions_sorted s"
  "subscriptions_sorted (su_clear_subscriptions s)"
  by (auto simp: subscriptions_sorted_def su_auth_def su_re_auth_def su_commit_def su_add_sentinel_def
      su_clear_sentinels_def su_cancel_reconnect_def su_clear_subscriptions_def split: prod.splits)

lemma sorted_operations [sorted_intros]:
  "subscriptions_sorted s \<Longrightarrow> subscriptions_sorted (subscribe c cb ack s)"
  "subscriptions_sorted s \<Longrightarrow> subscriptions_sorted (psubscribe c cb ack s)"
  "subscriptions_sorted s \<Longrightarrow> subscriptions_sorted (unsubscribe c s)"
  "subscriptions_sorted s \<Longrightarrow> subscriptions_sorted (punsubscribe c s)"
  by (auto simp: subscriptions_sorted_def subscribe_def psubscribe_def unsubscribe_def punsubscribe_def
      unprotected_subscribe_def unprotected_psubscribe_def map_sorted_assign map_sorted_erase
      split: option.splits)

lemma sorted_connect [sorted_intros]:
  "su_connect ops h p cc tm mr ri s = (s', r) \<Longrightarrow> subscriptions_sorted s \<Longrightarrow> subscriptions_sorted s'"
  using su_connect_frame by (fastforce simp: subscriptions_sorted_def)

lemma sorted_lookup [sorted_intros]:
  "su_lookup ops evs s = Some (s', r) \<Longrightarrow> subscriptions_sorted s \<Longrightarrow> subscriptions_sorted s'"
  by (auto simp: subscriptions_sorted_def dest: su_lookup_fields)

lemma sorted_receive [sorted_intros]:
  "su_receive_handler r s = (s', res) \<Longrightarrow> subscriptions_sorted s \<Longrightarrow> subscriptions_sorted s'"
  using only_events_sel [OF su_receive_handler_only_events [of s r]]
  by (simp add: subscriptions_sorted_def)

lemma sorted_reconnect_to_server [sorted_intros]:
  assumes "su_reconnect_to_server ops s = (s', r)" "subscriptions_sorted s"
  shows "subscriptions_sorted s'"
proof -
  obtain s1 r1 where c: "su_connect ops (su_redis_server s) (su_redis_port s) (su_connect_callback s)
      (su_connect_timeout_msecs s) (su_max_reconnects s) (su_reconnect_interval_msecs s) s = (s1, r1)"
    by (metis surj_pair)
  have "subscriptions_sorted s1" by (rule sorted_connect [OF c assms(2)])
  then have "subscriptions_sorted (fst (su_reconnect_to_server ops s))"
    using c by (simp add: su_reconnect_to_server_def re_subscribe_sorted)
  then show ?thesis using assms(1) by simp
qed

lemma sorted_reconnect_round [sorted_intros]:
  assumes "su_reconnect_round ops env s = Some (s', r)" "subscriptions_sorted s"
  shows "subscriptions_sorted s'"
proof -
  have "subscriptions_sorted s0 \<longrightarrow> subscriptions_sorted s1"
    if "su_lookup ops evs s0 = Some (s1, r1)" for s0 s1 evs r1
    using sorted_lookup [OF that] by simp
  moreover have "subscriptions_sorted s0 \<longrightarrow> subscriptions_sorted s1"
    if "su_reconnect_to_server ops s0 = (s1, r1)" for s0 s1 r1
    using sorted_reconnect_to_server [OF that] by simp
  ultimately show ?thesis
    using assms
    by (fastforce simp: su_reconnect_round_def su_reconnect_def su_sleep_def Let_def
        split: if_splits option.splits sum.splits)
qed

lemma sorted_disconnection [sorted_intros]:
  assumes "su_disconnection_handler ops env s = Some (s', r)" "subscriptions_sorted s"
  shows "subscriptions_sorted s'"
proof (cases "su_reconnecting s")
  case True
  then show ?thesis using assms by (simp add: su_disconnection_handler_def)
next
  case False
  let ?s2 = "su_notify (su_redis_server s) (su_redis_port s) CS_dropped
    (s\<lparr>su_reconnecting := True, su_current_reconnect_attempts := 0\<rparr>)"
  have p: "subscriptions_sorted ?s2" using assms(2) by simp
  obtain s3 r3 where l: "reconnect_loop (su_should_reconnect ops) (su_reconnect_round ops env) ?s2 = Some (s3, r3)"
    using assms(1) False by (auto simp: su_disconnection_handler_def Let_def split: option.splits)
  have "subscriptions_sorted s3"
    by (rule reconnect_loop_invariant [where P = subscriptions_sorted, OF l p])
      (rule sorted_reconnect_round)
  then show ?thesis
    using assms(1) False l
    by (cases r3) (auto simp: su_disconnection_handler_def Let_def split: if_splits)
qed

lemma sorted_net_event [sorted_intros]:
  assumes "su_net_event ops env ev s = Some (s', r)" "subscriptions_sorted s"
  shows "subscriptions_sorted s'"
proof (cases ev)
  case (Net_Read res)
  have "tcp_client_receive_handler ops su_client put_su_client su_receive_handler
      (su_disconnection_handler ops env) res s = Some (s', r)"
    using assms(1) Net_Read by simp
  from subscriber_owner.receive_handler_invariant
      [where P = subscriptions_sorted, OF assms(2) _ _ _ this]
  show ?thesis using sorted_receive sorted_disconnection by (metis sorted_fields(2))
next
  case Net_Disconnected
  have "tcp_client_disconnection_handler su_client put_su_client
      (su_disconnection_handler ops env) s = Some (s', r)"
    using assms(1) Net_Disconnected by simp
  from subscriber_owner.disconnection_handler_invariant
      [where P = subscriptions_sorted, OF assms(2) _ _ this]
  show ?thesis using sorted_disconnection by (metis sorted_fields(2))
qed

section \<open>Steps\<close>

inductive subscriber_reachable ::
  "'t tcp_ops \<Rightarrow> (int \<Rightarrow> net_event list) \<Rightarrow> ('t, 'cb) subscriber \<Rightarrow> bool"
  for ops :: "'t tcp_ops" and env :: "int \<Rightarrow> net_event list"
where
  SR_Init: "subscriber_reachable ops env (subscriber_init t t')"
| SR_Subscribe: "subscriber_reachable ops env s \<Longrightarrow> subscriber_reachable ops env (subscribe c cb ack s)"
| SR_Psubscribe: "subscriber_reachable ops env s \<Longrightarrow> subscriber_reachable ops env (psubscribe c cb ack s)"
| SR_Unsubscribe: "subscriber_reachable ops env s \<Longrightarrow> subscriber_reachable ops env (unsubscribe c s)"
| SR_Punsubscribe: "subscriber_reachable ops env s \<Longrightarrow> subscriber_reachable ops env (punsubscribe c s)"
| SR_Auth: "subscriber_reachable ops env s \<Longrightarrow> subscriber_reachable ops env (su_auth pw acb s)"
| SR_Commit: "subscriber_reachable ops env s \<Longrightarrow> subscriber_reachable ops env (fst (su_commit ops s))"
| SR_Connect: "subscriber_reachable ops env s \<Longrightarrow> su_connect ops h p cc tm mr ri s = (s', r) \<Longrightarrow>
    subscriber_reachable ops env s'"
| SR_Connect_Master: "subscriber_reachable ops env s \<Longrightarrow>
    su_connect_master ops evs name cc tm mr ri s = Some (s', r) \<Longrightarrow> subscriber_reachable ops env s'"
| SR_Disconnect: "subscriber_reachable ops env s \<Longrightarrow> subscriber_reachable ops env (su_disconnect ops w s)"
| SR_Add_Sentinel: "subscriber_reachable ops env s \<Longrightarrow> subscriber_reachable ops env (su_add_sentinel h p tm s)"
| SR_Clear_Sentinels: "subscriber_reachable ops env s \<Longrightarrow> subscriber_reachable ops env (su_clear_sentinels s)"
| SR_Cancel: "subscriber_reachable ops env s \<Longrightarrow> subscriber_reachable ops env (su_cancel_reconnect s)"
| SR_Net: "subscriber_reachable ops env s \<Longrightarrow> su_net_event ops env ev s = Some (s', r) \<Longrightarrow>
    subscriber_reachable ops env s'"

lemma sorted_connect_master [sorted_intros]:
  assumes "su_connect_master ops evs name cc tm mr ri s = Some (s', r)" "subscriptions_sorted s"
  shows "subscriptions_sorted s'"
proof -
  obtain s1 r1 where l: "su_lookup ops evs (s\<lparr>su_master_name := name\<rparr>) = Some (s1, r1)"
    using assms(1) by (auto simp: su_connect_master_def split: option.splits)
  have p: "subscriptions_sorted s1" by (rule sorted_lookup [OF l]) (simp add: assms(2))
  show ?thesis
  proof (cases "r1 = Inr True")
    case True
    then have "su_connect ops (su_redis_server s1) (su_redis_port s1) cc tm mr ri s1 = (s', r)"
      using assms(1) l by (simp add: su_connect_master_def)
    then show ?thesis using sorted_connect p by blast
  next
    case False
    then show ?thesis
      using assms(1) l p by (cases r1) (simp_all add: su_connect_master_def)
  qed
qed

lemma sorted_init: "subscriptions_sorted (subscriber_init t t')"
  by (simp add: subscriptions_sorted_def subscriber_init_def)

lemma subscriber_reachable_sorted: "subscriber_reachable ops env s \<Longrightarrow> subscriptions_sorted s"
  by (induction rule: subscriber_reachable.induct)
    (auto simp: su_disconnect_def sorted_init intro: sorted_intros)

section \<open>Specification of the subscriptions\<close>

datatype 'cb subscription_op =
    Subscribe string "'cb option" "'cb option"
  | Psubscribe string "'cb option" "'cb option"
  | Unsubscribe string
  | Punsubscribe string

primrec run_subscription ::
  "'cb subscription_op \<Rightarrow> ('t, 'cb) subscriber \<Rightarrow> ('t, 'cb) subscriber"
where
  "run_subscription (Subscribe c cb ack) s = subscribe c cb ack s"
| "run_subscription (Psubscribe p cb ack) s = psubscribe p cb ack s"
| "run_subscription (Unsubscribe c) s = unsubscribe c s"
| "run_subscription (Punsubscribe p) s = punsubscribe p s"

text \<open>What the operations mean: two maps, and the command of each operation.\<close>

type_synonym 'cb subscriptions =
  "(string \<Rightarrow> 'cb callback_holder option) \<times> (string \<Rightarrow> 'cb callback_holder option)"

primrec subscription_spec :: "'cb subscription_op \<Rightarrow> 'cb subscriptions \<Rightarrow> 'cb subscriptions" where
  "subscription_spec (Subscribe c cb ack) m =
     ((fst m)(c \<mapsto> \<lparr>ch_subscribe_callback = cb, ch_acknowledgement_callback = ack\<rparr>), snd m)"
| "subscription_spec (Psubscribe p cb ack) m =
     (fst m, (snd m)(p \<mapsto> \<lparr>ch_subscribe_callback = cb, ch_acknowledgement_callback = ack\<rparr>))"
| "subscription_spec (Unsubscribe c) m = ((fst m)(c := None), snd m)"
| "subscription_spec (Punsubscribe p) m = (fst m, (snd m)(p := None))"

primrec subscription_command :: "'cb subscription_op \<Rightarrow> 'cb subscriptions \<Rightarrow> string list list" where
  "subscription_command (Subscribe c cb ack) m = [[''SUBSCRIBE'', c]]"
| "subscription_command (Psubscribe p cb ack) m = [[''PSUBSCRIBE'', p]]"
| "subscription_command (Unsubscribe c) m = (if fst m c = None then [] else [[''UNSUBSCRIBE'', c]])"
| "subscription_command (Punsubscribe p) m = (if snd m p = None then [] else [[''PUNSUBSCRIBE'', p]])"

definition subscriptions_of :: "('t, 'cb) subscriber \<Rightarrow> 'cb subscriptions" where
  "subscriptions_of s = (map_of (su_subscribed_channels s), map_of (su_psubscribed_channels s))"

lemma subscriptions_of_init [simp]: "subscriptions_of (subscriber_init t t') = (Map.empty, Map.empty)"
  by (simp add: subscriptions_of_def subscriber_init_def)

lemma sorted_run_subscription:
  "subscriptions_sorted s \<Longrightarrow> subscriptions_sorted (run_subscription op s)"
  by (cases op) (simp_all add: sorted_operations)

lemma run_subscription_spec:
  assumes "subscriptions_sorted s"
  shows "subscriptions_of (run_subscription op s) = subscription_spec op (subscriptions_of s) \<and>
    su_client (run_subscription op s) =
      fold conn_send (subscription_command op (subscriptions_of s)) (su_client s)"
proof (cases op)
  case (Subscribe c cb ack)
  then show ?thesis
    using assms
    by (simp add: subscribe_def unprotected_subscribe_def subscriptions_of_def subscriptions_sorted_def
        string_map.find_assign fun_eq_iff)
next
  case (Psubscribe p cb ack)
  then show ?thesis
    using assms
    by (simp add: psubscribe_def unprotected_psubscribe_def subscriptions_of_def subscriptions_sorted_def
        string_map.find_assign fun_eq_iff)
next
  case (Unsubscribe c)
  then show ?thesis
    using assms
    by (auto simp: unsubscribe_def subscriptions_of_def subscriptions_sorted_def
        string_map.find_erase fun_eq_iff split: option.splits)
next
  case (Punsubscribe p)
  then show ?thesis
    using assms
    by (auto simp: punsubscribe_def subscriptions_of_def subscriptions_sorted_def
        string_map.find_erase fun_eq_iff split: option.splits)
qed

lemma fold_run_subscription:
  "subscriptions_sorted s \<Longrightarrow>
    subscriptions_of (fold run_subscription ops s) = fold subscription_spec ops (subscriptions_of s)"
proof (induction ops arbitrary: s)
  case (Cons op ops)
  from Cons.IH [OF sorted_run_subscription [OF Cons.prems]] run_subscription_spec [OF Cons.prems]
  show ?case by simp
qed simp

section \<open>Properties\<close>

text \<open>C20: the subscriptions are two maps. From any reachable state, each operation changes
  the maps as specified (the last \<open>subscribe\<close> of a channel wins, unsubscribing removes it) and
  adds the bytes of its command, none for a channel that is not subscribed to.\<close>

theorem subscriptions_refine:
  assumes "subscriber_reachable tcp env s"
  shows "subscriptions_of (run_subscription op s) = subscription_spec op (subscriptions_of s) \<and>
    cn_buffer (su_client (run_subscription op s)) = cn_buffer (su_client s) @
      concat (map build_command (subscription_command op (subscriptions_of s)))"
  using run_subscription_spec [OF subscriber_reachable_sorted [OF assms], of op]
  by (simp add: conn_send_all_buffer)

theorem subscriptions_refine_witness:
  "fst (subscriptions_of (run_subscription (Unsubscribe ''a'')
      (subscribe ''a'' (Some (1::nat)) None (subscriber_init False False)))) ''a'' = None"
proof -
  have "subscriber_reachable flag_ops (\<lambda>_. [])
      (subscribe ''a'' (Some (1::nat)) None (subscriber_init False False))"
    by (intro SR_Subscribe SR_Init)
  from subscriptions_refine [OF this, of "Unsubscribe ''a''"] show ?thesis by simp
qed

lemma message_simps [simp]:
  "is_array (reply_array rows)" "as_array (reply_array rows) = Inr rows"
  "is_string (reply_string v t)" "as_string (reply_string v t) = Inr v"
  "\<not> is_integer (reply_string v t)" "is_integer (reply_integer n)" "\<not> is_string (reply_integer n)"
  "as_integer (reply_integer n) = Inr n"
  by (cases t; simp add: observer_defs reply_array_def reply_string_def reply_integer_def)+

text \<open>What a message does, given the callback holder the specification has for it.\<close>

definition deliver_to ::
  "'cb callback_holder option \<Rightarrow> string \<Rightarrow> string \<Rightarrow> ('t, 'cb) subscriber \<Rightarrow>
   ('t, 'cb) subscriber \<times> unit result"
where
  "deliver_to h c m s =
     (case h of
        None \<Rightarrow> (s, Inr ())
      | Some h \<Rightarrow> (case ch_subscribe_callback h of
            None \<Rightarrow> (s, Inl (Std_Exception ''bad_function_call''))
          | Some cb \<Rightarrow> (s\<lparr>su_events := su_events s @ [SU_Message cb c m]\<rparr>, Inr ())))"

lemma receive_message:
  "su_receive_handler (reply_array [reply_string ''message'' t1, reply_string c t2, reply_string m t3]) s =
    deliver_to (fst (subscriptions_of s) c) c m s"
  by (auto simp: su_receive_handler_def handle_subscribe_reply_def deliver_to_def subscriptions_of_def
      call_subscribe_callback_def su_event_def Let_def split: option.splits)

lemma receive_pmessage:
  "su_receive_handler (reply_array
      [reply_string ''pmessage'' t1, reply_string p t2, reply_string c t3, reply_string m t4]) s =
    deliver_to (snd (subscriptions_of s) p) c m s"
  by (auto simp: su_receive_handler_def handle_psubscribe_reply_def deliver_to_def subscriptions_of_def
      call_subscribe_callback_def su_event_def Let_def split: option.splits)

text \<open>A message reaches the callback subscribed last. After any sequence of subscription
  operations, a \<open>message\<close> on channel \<open>c\<close> (a \<open>pmessage\<close> for pattern \<open>p\<close>) calls the callback
  the specification gives for \<open>c\<close> (for \<open>p\<close>), with the channel and the text, once, and changes
  nothing else; without one it is ignored. An empty function throws.\<close>

lemma message_reaches_subscription:
  "su_receive_handler
      (reply_array [reply_string ''message'' t1, reply_string c t2, reply_string m t3])
      (fold run_subscription ops (subscriber_init t t')) =
    deliver_to (fst (fold subscription_spec ops (Map.empty, Map.empty)) c) c m
      (fold run_subscription ops (subscriber_init t t')) \<and>
   su_receive_handler (reply_array
      [reply_string ''pmessage'' t1, reply_string p t2, reply_string c t3, reply_string m t4])
      (fold run_subscription ops (subscriber_init t t')) =
    deliver_to (snd (fold subscription_spec ops (Map.empty, Map.empty)) p) c m
      (fold run_subscription ops (subscriber_init t t'))"
  by (simp add: receive_message receive_pmessage fold_run_subscription [OF sorted_init])

text \<open>A reconnection whose connection and write succeed.\<close>

lemma su_reconnect_to_server_ok:
  assumes "subscriptions_sorted s"
    and "conn_connect tcp (su_redis_server s) (su_redis_port s) True True (su_connect_timeout_msecs s)
      (su_client s) = (c, Inr ())"
    and "conn_is_connected tcp c" "cn_buffer c = []"
    and "tcp_async_write tcp (concat (map build_command
        ((if su_password s = [] then [] else [[''AUTH'', su_password s]]) @
         map (\<lambda>(channel, _). [''SUBSCRIBE'', channel]) (su_subscribed_channels s) @
         map (\<lambda>(pattern, _). [''PSUBSCRIBE'', pattern]) (su_psubscribed_channels s))))
      (cn_client c) = (t, Inr ())"
  shows "\<exists>s'. su_reconnect_to_server tcp s = (s', Inr ()) \<and>
    su_subscribed_channels s' = su_subscribed_channels s \<and>
    su_psubscribed_channels s' = su_psubscribed_channels s \<and>
    su_client s' = c\<lparr>cn_client := t, cn_buffer := []\<rparr> \<and>
    su_redis_server s' = su_redis_server s \<and> su_redis_port s' = su_redis_port s"
proof -
  let ?go = "su_connect tcp (su_redis_server s) (su_redis_port s) (su_connect_callback s)
      (su_connect_timeout_msecs s) (su_max_reconnects s) (su_reconnect_interval_msecs s) s"
  obtain s1 where c: "?go = (s1, Inr ())" "su_client s1 = c"
    using assms(2) by (simp add: su_connect_def Let_def)
  let ?s2 = "su_notify (su_redis_server s1) (su_redis_port s1) CS_ok s1"
  have f: "su_password s1 = su_password s" "su_subscribed_channels s1 = su_subscribed_channels s"
    "su_psubscribed_channels s1 = su_psubscribed_channels s"
    using su_connect_frame [OF c(1)] by simp_all
  have "su_redis_server s1 = su_redis_server s" "su_redis_port s1 = su_redis_port s"
    using c(1) by (auto simp: su_connect_def su_notify_def su_event_def Let_def
        split: prod.splits sum.splits if_splits)
  then have a: "su_redis_server (su_re_auth ?s2) = su_redis_server s"
    "su_redis_port (su_re_auth ?s2) = su_redis_port s"
    by (simp_all add: su_re_auth_def su_auth_def su_notify_def su_event_def)
  have "subscriptions_sorted s1"
    using sorted_connect [OF c(1) assms(1)] .
  then have "subscriptions_sorted (su_re_auth ?s2)" by simp
  from re_subscribe_eq [OF this]
  have "su_commit tcp (re_subscribe (su_re_auth ?s2)) =
      (put_su_client (c\<lparr>cn_client := t, cn_buffer := []\<rparr>) (su_re_auth ?s2), Inr ())"
    using assms(4,5) c(2) f
    by (cases "su_password s = []")
      (simp_all add: su_commit_def conn_commit_def conn_send_def conn_send_all subscribe_commands_def
        psubscribe_commands_def)
  then show ?thesis
    using c f a assms(3) by (simp add: su_reconnect_to_server_def su_is_connected_def)
qed

text \<open>C14: a reconnection restores the subscriptions. From any reachable state, when the
  connection is back, one write carries \<open>AUTH\<close> (if there is a password), then one
  \<open>SUBSCRIBE\<close> for each channel and one \<open>PSUBSCRIBE\<close> for each pattern, in the order of the
  maps; the maps are as before.\<close>

theorem reconnect_restores_subscriptions:
  assumes "subscriber_reachable tcp env s"
    and "conn_connect tcp (su_redis_server s) (su_redis_port s) True True (su_connect_timeout_msecs s)
      (su_client s) = (c, Inr ())"
    and "conn_is_connected tcp c" "cn_buffer c = []"
    and "tcp_async_write tcp (concat (map build_command
        ((if su_password s = [] then [] else [[''AUTH'', su_password s]]) @
         map (\<lambda>(channel, _). [''SUBSCRIBE'', channel]) (su_subscribed_channels s) @
         map (\<lambda>(pattern, _). [''PSUBSCRIBE'', pattern]) (su_psubscribed_channels s))))
      (cn_client c) = (t, Inr ())"
  shows "\<exists>s'. su_reconnect_to_server tcp s = (s', Inr ()) \<and>
    su_subscribed_channels s' = su_subscribed_channels s \<and>
    su_psubscribed_channels s' = su_psubscribed_channels s \<and>
    su_client s' = c\<lparr>cn_client := t, cn_buffer := []\<rparr>"
  using su_reconnect_to_server_ok [OF subscriber_reachable_sorted [OF assms(1)] assms(2-5)] by blast

definition restorable_subscriber :: "(string, nat) subscriber" where
  "restorable_subscriber =
     su_disconnect tape_ops False
       (psubscribe ''x*'' (Some 2) None (subscribe ''a'' (Some 1) None (subscriber_init [] [])))"

lemma restorable_reachable: "subscriber_reachable tape_ops env restorable_subscriber"
  unfolding restorable_subscriber_def by (intro SR_Disconnect SR_Psubscribe SR_Subscribe SR_Init)

lemma restorable_sel:
  "su_password restorable_subscriber = []"
  "map (\<lambda>(channel, _). [''SUBSCRIBE'', channel]) (su_subscribed_channels restorable_subscriber) =
    [[''SUBSCRIBE'', ''a'']]"
  "map (\<lambda>(pattern, _). [''PSUBSCRIBE'', pattern]) (su_psubscribed_channels restorable_subscriber) =
    [[''PSUBSCRIBE'', ''x*'']]"
  "cn_client (su_client restorable_subscriber) = []" "cn_buffer (su_client restorable_subscriber) = []"
  by (simp_all add: restorable_subscriber_def su_disconnect_def conn_disconnect_def psubscribe_def
      subscribe_def unprotected_subscribe_def unprotected_psubscribe_def subscriber_init_def
      conn_send_def connection_init_def tape_ops_def)

theorem reconnect_restores_subscriptions_witness:
  "\<exists>s'. su_reconnect_to_server tape_ops restorable_subscriber = (s', Inr ()) \<and>
    cn_client (su_client s') = concat (map build_command [[''SUBSCRIBE'', ''a''], [''PSUBSCRIBE'', ''x*'']])"
proof -
  let ?c = "(su_client restorable_subscriber)\<lparr>cn_reply_callback := True, cn_disconnection_handler := True\<rparr>"
  let ?bytes = "concat (map build_command [[''SUBSCRIBE'', ''a''], [''PSUBSCRIBE'', ''x*'']])"
  have "conn_connect tape_ops h p True True tm (su_client restorable_subscriber) = (?c, Inr ())" for h p tm
    by (simp add: conn_connect_def tape_ops_def)
  moreover have "conn_is_connected tape_ops ?c" "cn_buffer ?c = []"
    "tcp_async_write tape_ops ?bytes (cn_client ?c) = (?bytes, Inr ())"
    by (simp_all add: conn_is_connected_def tape_ops_def restorable_sel)
  ultimately show ?thesis
    using reconnect_restores_subscriptions [OF restorable_reachable, of ?c ?bytes]
    by (auto simp: restorable_sel)
qed

text \<open>C25: with a bound on the attempts and without a sentinel the handler of a disconnection
  ends, by returning or by an exception, whatever the network does. When it returns normally
  the subscriber is no longer reconnecting, made no more attempts than the bound, and either
  is connected again or has no subscription left. (With the bound \<open>-1\<close> it may go on for ever.)\<close>

theorem subscriber_reconnection_ends:
  assumes "su_master_name s = []" "0 \<le> su_max_reconnects s" "\<not> su_reconnecting s"
  shows "\<exists>s' r. su_disconnection_handler ops env s = Some (s', r) \<and>
    (is_ok r \<longrightarrow> \<not> su_reconnecting s' \<and>
      su_current_reconnect_attempts s' \<le> su_max_reconnects s \<and>
      (su_is_connected ops s' \<or> subscriptions_of s' = (Map.empty, Map.empty)))"
proof -
  let ?s2 = "su_notify (su_redis_server s) (su_redis_port s) CS_dropped
    (s\<lparr>su_reconnecting := True, su_current_reconnect_attempts := 0\<rparr>)"
  have "reconnect_loop (su_should_reconnect ops) (su_reconnect_round ops env) ?s2 \<noteq> None"
    by (rule subscriber_reconnecting.bounded_loop_returns [where P = "\<lambda>s. su_master_name s = []"])
      (use assms in \<open>auto simp: su_reconnect_round_returns dest: su_reconnect_round_loop\<close>)
  then obtain s3 r where l:
    "reconnect_loop (su_should_reconnect ops) (su_reconnect_round ops env) ?s2 = Some (s3, r)"
    by auto
  show ?thesis
  proof (cases r)
    case (Inl e)
    then show ?thesis using l assms(3) by (simp add: su_disconnection_handler_def Let_def)
  next
    case (Inr u)
    have "su_current_reconnect_attempts s3 \<le> su_max_reconnects s"
      using subscriber_reconnecting.loop_result(4) [OF l [unfolded Inr]] assms(2) by simp
    then show ?thesis
      using l Inr assms(3)
      by (simp add: su_disconnection_handler_def Let_def su_is_connected_def su_clear_subscriptions_def
          subscriptions_of_def)
  qed
qed

theorem subscriber_reconnection_ends_witness:
  "\<exists>s' r. su_disconnection_handler flag_ops (\<lambda>_. []) (subscriber_init False False :: (bool, nat) subscriber)
    = Some (s', r)"
  using subscriber_reconnection_ends [of "subscriber_init False False :: (bool, nat) subscriber" flag_ops
      "\<lambda>_. []"]
  by (auto simp: subscriber_init_def)

end
