(* ===== verification/Logger.thy ===== *)
theory Logger
  imports Prelude
begin

text \<open>
  \<open>cpp_redis::logger\<close> (sources/misc/logger.cpp, includes/cpp_redis/misc/logger.hpp): the default
  logger with its level, the interface a user's logger implements, and the free functions
  that go to the active logger if there is one. What is written is a list of lines, each
  for one of the two streams.
\<close>

section \<open>Levels\<close>

datatype log_level =
    Level_error
  | Level_warn
  | Level_info
  | Level_debug

primrec level_value :: "log_level \<Rightarrow> nat" where
  "level_value Level_error = 0"
| "level_value Level_warn = 1"
| "level_value Level_info = 2"
| "level_value Level_debug = 3"

lemma level_value_inj: "level_value a = level_value b \<longleftrightarrow> a = b"
  by (cases a; cases b; simp)

instantiation log_level :: linorder
begin

definition less_eq_log_level :: "log_level \<Rightarrow> log_level \<Rightarrow> bool" where
  "less_eq_log_level a b \<longleftrightarrow> level_value a \<le> level_value b"

definition less_log_level :: "log_level \<Rightarrow> log_level \<Rightarrow> bool" where
  "less_log_level a b \<longleftrightarrow> level_value a < level_value b"

instance
  by standard (auto simp: less_eq_log_level_def less_log_level_def level_value_inj)

end

section \<open>The library's logger\<close>

datatype log_output =
    Cout string
  | Cerr string

record logger =
  lg_level :: log_level

definition logger_init :: "log_level \<Rightarrow> logger" where
  "logger_init level = \<lparr>lg_level = level\<rparr>"

definition default_logger :: logger where
  "default_logger = logger_init Level_info"

definition ESC :: char where "ESC = CHR 0x1B"
definition black :: string where "black = ESC # ''[1;30m''"
definition red :: string where "red = ESC # ''[1;31m''"
definition yellow :: string where "yellow = ESC # ''[1;33m''"
definition blue :: string where "blue = ESC # ''[1;34m''"
definition normal :: string where "normal = ESC # ''[0;39m''"

definition log_line :: "string \<Rightarrow> string \<Rightarrow> string \<Rightarrow> string \<Rightarrow> nat \<Rightarrow> string" where
  "log_line colour tag msg file line =
     ''['' @ colour @ tag @ normal @ ''][cpp_redis]['' @ file @ '':'' @ to_string_nat line @ ''] '' @ msg @ [LF]"

definition logger_debug :: "logger \<Rightarrow> string \<Rightarrow> string \<Rightarrow> nat \<Rightarrow> log_output list" where
  "logger_debug l msg file line =
     (if lg_level l \<ge> Level_debug then [Cout (log_line black ''DEBUG'' msg file line)] else [])"

definition logger_info :: "logger \<Rightarrow> string \<Rightarrow> string \<Rightarrow> nat \<Rightarrow> log_output list" where
  "logger_info l msg file line =
     (if lg_level l \<ge> Level_info then [Cout (log_line blue ''INFO '' msg file line)] else [])"

definition logger_warn :: "logger \<Rightarrow> string \<Rightarrow> string \<Rightarrow> nat \<Rightarrow> log_output list" where
  "logger_warn l msg file line =
     (if lg_level l \<ge> Level_warn then [Cout (log_line yellow ''WARN '' msg file line)] else [])"

definition logger_error :: "logger \<Rightarrow> string \<Rightarrow> string \<Rightarrow> nat \<Rightarrow> log_output list" where
  "logger_error l msg file line =
     (if lg_level l \<ge> Level_error then [Cerr (log_line red ''ERROR'' msg file line)] else [])"

section \<open>The active logger\<close>

text \<open>\<open>logger_iface\<close>: four virtual functions.\<close>

record logger_iface =
  li_debug :: "string \<Rightarrow> string \<Rightarrow> nat \<Rightarrow> log_output list"
  li_info :: "string \<Rightarrow> string \<Rightarrow> nat \<Rightarrow> log_output list"
  li_warn :: "string \<Rightarrow> string \<Rightarrow> nat \<Rightarrow> log_output list"
  li_error :: "string \<Rightarrow> string \<Rightarrow> nat \<Rightarrow> log_output list"

definition iface_of :: "logger \<Rightarrow> logger_iface" where
  "iface_of l =
     \<lparr>li_debug = logger_debug l, li_info = logger_info l, li_warn = logger_warn l,
      li_error = logger_error l\<rparr>"

definition log_debug :: "logger_iface option \<Rightarrow> string \<Rightarrow> string \<Rightarrow> nat \<Rightarrow> log_output list" where
  "log_debug active msg file line = (case active of None \<Rightarrow> [] | Some l \<Rightarrow> li_debug l msg file line)"

definition log_info :: "logger_iface option \<Rightarrow> string \<Rightarrow> string \<Rightarrow> nat \<Rightarrow> log_output list" where
  "log_info active msg file line = (case active of None \<Rightarrow> [] | Some l \<Rightarrow> li_info l msg file line)"

definition log_warn :: "logger_iface option \<Rightarrow> string \<Rightarrow> string \<Rightarrow> nat \<Rightarrow> log_output list" where
  "log_warn active msg file line = (case active of None \<Rightarrow> [] | Some l \<Rightarrow> li_warn l msg file line)"

definition log_error :: "logger_iface option \<Rightarrow> string \<Rightarrow> string \<Rightarrow> nat \<Rightarrow> log_output list" where
  "log_error active msg file line = (case active of None \<Rightarrow> [] | Some l \<Rightarrow> li_error l msg file line)"

section \<open>Properties\<close>

text \<open>A sequence of calls of the free functions.\<close>

record log_call =
  lc_level :: log_level
  lc_message :: string
  lc_file :: string
  lc_line :: nat

definition run_log_call :: "logger_iface option \<Rightarrow> log_call \<Rightarrow> log_output list" where
  "run_log_call active c =
     (case lc_level c of
        Level_error \<Rightarrow> log_error active (lc_message c) (lc_file c) (lc_line c)
      | Level_warn \<Rightarrow> log_warn active (lc_message c) (lc_file c) (lc_line c)
      | Level_info \<Rightarrow> log_info active (lc_message c) (lc_file c) (lc_line c)
      | Level_debug \<Rightarrow> log_debug active (lc_message c) (lc_file c) (lc_line c))"

lemma run_log_call_silent:
  "\<not> lc_level c \<le> level \<Longrightarrow> run_log_call (Some (iface_of (logger_init level))) c = []"
  by (cases "lc_level c")
    (simp_all add: run_log_call_def iface_of_def logger_init_def log_error_def log_warn_def log_info_def
      log_debug_def logger_error_def logger_warn_def logger_info_def logger_debug_def)

lemma run_log_call_level:
  "lc_level c \<le> level \<Longrightarrow> run_log_call (Some (iface_of (logger_init level))) c =
    run_log_call (Some (iface_of (logger_init Level_debug))) c"
  "length (run_log_call (Some (iface_of (logger_init Level_debug))) c) = 1"
  by (cases "lc_level c",
    simp_all add: run_log_call_def iface_of_def logger_init_def log_error_def log_warn_def log_info_def
      log_debug_def logger_error_def logger_warn_def logger_info_def logger_debug_def less_eq_log_level_def)+

lemma concat_map_filter:
  "(\<And>x. p x \<Longrightarrow> f x = g x) \<Longrightarrow> (\<And>x. \<not> p x \<Longrightarrow> f x = []) \<Longrightarrow>
   concat (map f xs) = concat (map g (filter p xs))"
  by (induction xs) auto

lemma run_log_calls_filter:
  "concat (map (run_log_call (Some (iface_of (logger_init level)))) cs) =
    concat (map (run_log_call (Some (iface_of (logger_init Level_debug))))
      (filter (\<lambda>c. lc_level c \<le> level) cs))"
  by (rule concat_map_filter) (erule run_log_call_level(1), erule run_log_call_silent)

text \<open>The level is a threshold. What a logger writes for a sequence of calls is what the
  most verbose one writes for those at or above its importance, one line each, in order;
  without a logger nothing is written.\<close>

lemma log_level_threshold:
  "concat (map (run_log_call (Some (iface_of (logger_init level)))) cs) =
    concat (map (run_log_call (Some (iface_of (logger_init Level_debug))))
      (filter (\<lambda>c. lc_level c \<le> level) cs)) \<and>
   length (concat (map (run_log_call (Some (iface_of (logger_init level)))) cs)) =
    length (filter (\<lambda>c. lc_level c \<le> level) cs) \<and>
   concat (map (run_log_call None) cs) = []"
proof -
  have "length (concat (map (run_log_call (Some (iface_of (logger_init Level_debug)))) ds)) = length ds" for ds
    by (induction ds) (simp_all add: run_log_call_level(2))
  moreover have "run_log_call None c = []" for c
    by (simp add: run_log_call_def log_error_def log_warn_def log_info_def log_debug_def
        split: log_level.splits)
  ultimately show ?thesis by (simp add: run_log_calls_filter [of level cs])
qed

end
