(* ===== verification/Sync_Wait.thy ===== *)
theory Sync_Wait
  imports Client_System
begin

text \<open>
  The thread that waits in \<open>sync_commit\<close> (sources/core/client.cpp 204-207) beside the threads
  that make its predicate true: the receive handler (226-251), which lowers the count and
  notifies while it holds \<open>m_callbacks_mutex\<close>, and the detached threads of
  \<open>clear_callbacks\<close> (264-279), which do neither under the mutex.

  \<open>m_sync_condvar.wait(lock, predicate)\<close> is \<open>while (!predicate()) wait(lock)\<close>: the waiting
  thread looks at the predicate and goes to sleep with the mutex held, and gives it up only
  as it falls asleep. A wake-up without a notification, which the standard permits and does
  not promise, is a step of the environment, not of a thread.
\<close>

section \<open>The waiting thread\<close>

datatype waiter =
    Waiter_Locking
  | Waiter_Checking
  | Waiter_Going_To_Sleep
  | Waiter_Asleep
  | Waiter_Returned

text \<open>\<open>notify_all\<close>: a sleeping thread goes back to locking the mutex.\<close>

fun notify_waiter :: "waiter \<Rightarrow> waiter" where
  "notify_waiter Waiter_Asleep = Waiter_Locking"
| "notify_waiter w = w"

fun holds_mutex :: "waiter \<Rightarrow> bool" where
  "holds_mutex Waiter_Checking = True"
| "holds_mutex Waiter_Going_To_Sleep = True"
| "holds_mutex _ = False"

text \<open>The client, the replies being handled, the waiting thread, and the detached threads
  that have notified at their end.\<close>

record ('t, 'cb) wait_system =
  sw_client :: "('t, 'cb) client"
  sw_active :: "('cb command_request option \<times> reply) list"
  sw_waiter :: waiter
  sw_notified :: "nat list"

definition wait_start :: "('t, 'cb) client \<Rightarrow> ('t, 'cb) wait_system" where
  "wait_start c = \<lparr>sw_client = c, sw_active = [], sw_waiter = Waiter_Locking, sw_notified = []\<rparr>"

text \<open>The steps of the waiting thread; those the threads take on their own; and those that a
  call of the user or a reply from the server begins.\<close>

inductive waiter_step :: "('t, 'cb) wait_system \<Rightarrow> ('t, 'cb) wait_system \<Rightarrow> bool" where
  Lock: "sw_waiter s = Waiter_Locking \<Longrightarrow> waiter_step s (s\<lparr>sw_waiter := Waiter_Checking\<rparr>)"
| Ready: "sw_waiter s = Waiter_Checking \<Longrightarrow> sync_ready (sw_client s) \<Longrightarrow>
    waiter_step s (s\<lparr>sw_waiter := Waiter_Returned\<rparr>)"
| Not_Ready: "sw_waiter s = Waiter_Checking \<Longrightarrow> \<not> sync_ready (sw_client s) \<Longrightarrow>
    waiter_step s (s\<lparr>sw_waiter := Waiter_Going_To_Sleep\<rparr>)"
| Sleep: "sw_waiter s = Waiter_Going_To_Sleep \<Longrightarrow> waiter_step s (s\<lparr>sw_waiter := Waiter_Asleep\<rparr>)"

inductive thread_step :: "('t, 'cb) wait_system \<Rightarrow> ('t, 'cb) wait_system \<Rightarrow> bool" where
  Waiter: "waiter_step s s' \<Longrightarrow> thread_step s s'"
| Finish: "\<not> holds_mutex (sw_waiter s) \<Longrightarrow> sw_active s = a @ (q, r) # b \<Longrightarrow>
    thread_step s (s\<lparr>sw_client := client_finish_request q r (sw_client s), sw_active := a @ b,
      sw_waiter := notify_waiter (sw_waiter s)\<rparr>)"
| Worker: "i < length (cl_workers (sw_client s)) \<Longrightarrow> cl_workers (sw_client s) ! i \<noteq> [] \<Longrightarrow>
    thread_step s (s\<lparr>sw_client := worker_step i (sw_client s)\<rparr>)"
| Worker_End: "i < length (cl_workers (sw_client s)) \<Longrightarrow> cl_workers (sw_client s) ! i = [] \<Longrightarrow>
    i \<notin> set (sw_notified s) \<Longrightarrow>
    thread_step s (s\<lparr>sw_notified := i # sw_notified s, sw_waiter := notify_waiter (sw_waiter s)\<rparr>)"

inductive wait_step :: "('t, 'cb) wait_system \<Rightarrow> ('t, 'cb) wait_system \<Rightarrow> bool" where
  Thread: "thread_step s s' \<Longrightarrow> wait_step s s'"
| Submit: "\<not> holds_mutex (sw_waiter s) \<Longrightarrow>
    wait_step s (s\<lparr>sw_client := client_send ws cb (sw_client s)\<rparr>)"
| Take: "\<not> holds_mutex (sw_waiter s) \<Longrightarrow> client_next_request (sw_client s) = (q, c) \<Longrightarrow>
    wait_step s (s\<lparr>sw_client := c, sw_active := (q, r) # sw_active s\<rparr>)"
| Spurious: "sw_waiter s = Waiter_Asleep \<Longrightarrow> wait_step s (s\<lparr>sw_waiter := Waiter_Locking\<rparr>)"

inductive_cases waiter_stepE: "waiter_step s s'"

inductive_cases thread_stepE: "thread_step s s'"

lemmas waiter_steps = waiter_step.intros [THEN thread_step.Waiter]

inductive wait_reach :: "('t, 'cb) wait_system \<Rightarrow> ('t, 'cb) wait_system \<Rightarrow> bool" where
  Refl: "wait_reach s s"
| Next: "wait_reach s s' \<Longrightarrow> wait_step s' s'' \<Longrightarrow> wait_reach s s''"

lemmas wait_reach_one = wait_reach.Next [OF wait_reach.Refl]

lemma wait_reach_trans: "wait_reach s' s'' \<Longrightarrow> wait_reach s s' \<Longrightarrow> wait_reach s s''"
  by (induction rule: wait_reach.induct) (auto intro: wait_reach.Next)

section \<open>Without detached threads no notification is lost\<close>

text \<open>The waiting thread sleeps, or is about to, only while the predicate is false.\<close>

definition wait_inv :: "('t, 'cb) wait_system \<Rightarrow> bool" where
  "wait_inv s \<longleftrightarrow>
     cl_workers (sw_client s) = [] \<and>
     cl_callbacks_running (sw_client s) = length (sw_active s) \<and>
     (sw_waiter s = Waiter_Asleep \<or> sw_waiter s = Waiter_Going_To_Sleep \<longrightarrow>
       \<not> sync_ready (sw_client s))"

lemma thread_step_inv: "thread_step s s' \<Longrightarrow> wait_inv s \<Longrightarrow> wait_inv s'"
proof (induction rule: thread_step.induct)
  case (Waiter s s')
  then show ?case by (auto simp: wait_inv_def elim!: waiter_stepE)
next
  case (Finish s a q r b)
  then show ?case by (cases "sw_waiter s") (auto simp: wait_inv_def)
qed (auto simp: wait_inv_def)

lemma wait_step_inv: "wait_step s s' \<Longrightarrow> wait_inv s \<Longrightarrow> wait_inv s'"
proof (induction rule: wait_step.induct)
  case (Thread s s')
  then show ?case by (rule thread_step_inv)
next
  case (Submit s ws cb)
  then show ?case by (simp add: wait_inv_def client_send_def unprotected_send_def sync_ready_def)
next
  case (Take s q c r)
  then have "cl_workers c = []" "cl_callbacks_running c = Suc (length (sw_active s))"
    by (auto simp: client_next_request_def wait_inv_def Let_def split: list.splits)
  then show ?case by (simp add: wait_inv_def sync_ready_def)
next
  case (Spurious s)
  then show ?case by (simp add: wait_inv_def)
qed

lemma wait_reach_inv: "wait_reach s s' \<Longrightarrow> wait_inv s \<Longrightarrow> wait_inv s'"
  by (induction rule: wait_reach.induct) (auto dest: wait_step_inv)

lemma wait_inv_returns:
  assumes "wait_inv s" "sync_ready (sw_client s)"
  shows "\<exists>s'. wait_reach s s' \<and> sw_waiter s' = Waiter_Returned"
proof -
  have checked: "\<exists>s'. wait_reach t s' \<and> sw_waiter s' = Waiter_Returned"
    if "sw_waiter t = Waiter_Checking" "sync_ready (sw_client t)" for t :: "('a, 'b) wait_system"
    using wait_reach_one [OF wait_step.Thread [OF waiter_steps(2) [OF that]]] by fastforce
  show ?thesis
  proof (cases "sw_waiter s")
    case Waiter_Locking
    have l: "wait_reach s (s\<lparr>sw_waiter := Waiter_Checking\<rparr>)"
      by (rule wait_reach_one [OF wait_step.Thread [OF waiter_steps(1) [OF Waiter_Locking]]])
    show ?thesis
      using checked [of "s\<lparr>sw_waiter := Waiter_Checking\<rparr>"] assms(2) wait_reach_trans [OF _ l] by auto
  next
    case Waiter_Checking
    then show ?thesis using checked assms(2) by blast
  next
    case Waiter_Returned
    then show ?thesis using wait_reach.Refl by blast
  qed (use assms in \<open>simp_all add: wait_inv_def\<close>)
qed

section \<open>Properties\<close>

text \<open>C12: replies never leave \<open>sync_commit\<close> asleep. While no request was handed to a detached
  thread, in every state the threads can reach where the predicate holds, the waiting thread
  is not asleep and can return by steps of its own; the notification of a receive handler
  cannot come between its look at the predicate and its sleep.\<close>

theorem replies_wake_sync_commit:
  assumes "cl_workers c = []" "cl_callbacks_running c = 0" "wait_reach (wait_start c) s"
    and "sync_ready (sw_client s)"
  shows "sw_waiter s \<noteq> Waiter_Asleep \<and> (\<exists>s'. wait_reach s s' \<and> sw_waiter s' = Waiter_Returned)"
proof -
  have "wait_inv (wait_start c)" using assms(1,2) by (simp add: wait_inv_def wait_start_def)
  then have "wait_inv s" by (rule wait_reach_inv [OF assms(3)])
  then show ?thesis using wait_inv_returns [OF _ assms(4)] assms(4) by (auto simp: wait_inv_def)
qed

text \<open>In a run where a request is answered while the thread sleeps, it returns.\<close>

theorem replies_wake_sync_commit_witness:
  "\<exists>s s'. wait_reach (wait_start (client_send [''PING''] (CC_User (7::nat)) (client_init True False))) s \<and>
    cl_events (sw_client s) = [CE_Callback 7 reply_null] \<and> wait_reach s s' \<and> sw_waiter s' = Waiter_Returned"
proof -
  let ?c = "client_send [''PING''] (CC_User (7::nat)) (client_init True False)"
  let ?q = "\<lparr>cr_command = [''PING''], cr_callback = CC_User (7::nat)\<rparr>"
  note c = client_send_def unprotected_send_def client_init_def
  let ?s2 = "(wait_start ?c)\<lparr>sw_waiter := Waiter_Checking, sw_waiter := Waiter_Going_To_Sleep\<rparr>"
  let ?s3 = "?s2\<lparr>sw_waiter := Waiter_Asleep\<rparr>"
  let ?s4 = "?s3\<lparr>sw_client := snd (client_next_request ?c), sw_active := [(Some ?q, reply_null)]\<rparr>"
  let ?s5 = "?s4\<lparr>sw_client := client_finish_request (Some ?q) reply_null (sw_client ?s4),
    sw_active := [], sw_waiter := Waiter_Locking\<rparr>"
  have n: "client_next_request ?c = (Some ?q, snd (client_next_request ?c))"
    by (simp add: c client_next_request_def)
  have "thread_step (wait_start ?c) ((wait_start ?c)\<lparr>sw_waiter := Waiter_Checking\<rparr>)"
    by (rule waiter_steps(1)) (simp add: wait_start_def)
  moreover have "thread_step ((wait_start ?c)\<lparr>sw_waiter := Waiter_Checking\<rparr>) ?s2"
    by (rule waiter_steps(3)) (simp_all add: wait_start_def sync_ready_def c)
  moreover have "thread_step ?s2 ?s3" by (rule waiter_steps(4)) simp
  moreover have "wait_step ?s3 ?s4"
    using wait_step.Take [of ?s3, OF _ _] n by (simp add: wait_start_def)
  moreover have "thread_step ?s4 ?s5"
    using thread_step.Finish [of ?s4 "[]" "Some ?q" reply_null "[]"] by simp
  ultimately have reach: "wait_reach (wait_start ?c) ?s5"
    by (meson wait_reach.intros wait_step.Thread)
  have "sync_ready (sw_client ?s5)" "cl_events (sw_client ?s5) = [CE_Callback 7 reply_null]"
    by (simp_all add: c client_next_request_def client_finish_request_def run_callback_def sync_ready_def)
  with reach replies_wake_sync_commit [OF _ _ reach] show ?thesis by (auto simp: c)
qed

text \<open>C31: a detached thread can leave it asleep for ever. When the last request of a detached
  thread is answered and its notification sent between the waiting thread's look at the
  predicate and its sleep, a state is reached where the predicate holds, every thread has
  ended and the waiting thread sleeps: only a new call of the user, or a wake-up without a
  notification, could wake it.\<close>

theorem detached_notification_lost:
  assumes "cl_commands c = []" "cl_workers c = [[q]]" "cl_callbacks_running c = 1"
  shows "\<exists>s. wait_reach (wait_start c) s \<and> sync_ready (sw_client s) \<and> sw_waiter s = Waiter_Asleep \<and>
    (\<forall>s'. \<not> thread_step s s')"
proof -
  let ?w = "worker_step 0 c"
  have w: "cl_commands ?w = []" "cl_workers ?w = [[]]" "cl_callbacks_running ?w = 0"
    using assms by (simp_all add: worker_step_def Let_def)
  let ?s1 = "(wait_start c)\<lparr>sw_waiter := Waiter_Checking\<rparr>"
  let ?s2 = "?s1\<lparr>sw_waiter := Waiter_Going_To_Sleep\<rparr>"
  let ?s3 = "?s2\<lparr>sw_client := ?w\<rparr>"
  let ?s4 = "?s3\<lparr>sw_notified := [0]\<rparr>"
  let ?s5 = "?s4\<lparr>sw_waiter := Waiter_Asleep\<rparr>"
  have "thread_step (wait_start c) ?s1" by (rule waiter_steps(1)) (simp add: wait_start_def)
  moreover have "thread_step ?s1 ?s2"
    by (rule waiter_steps(3)) (simp_all add: wait_start_def sync_ready_def assms)
  moreover have "thread_step ?s2 ?s3"
    using thread_step.Worker [of 0 ?s2] assms by (simp add: wait_start_def)
  moreover have "thread_step ?s3 ?s4"
    using thread_step.Worker_End [of 0 ?s3] w by (simp add: wait_start_def)
  moreover have "thread_step ?s4 ?s5" by (rule waiter_steps(4)) simp
  ultimately have "wait_reach (wait_start c) ?s5"
    by (meson wait_reach.intros wait_step.Thread)
  moreover have "sync_ready (sw_client ?s5)" using w by (simp add: sync_ready_def)
  moreover have "sw_waiter ?s5 = Waiter_Asleep" by simp
  moreover have "\<not> thread_step ?s5 s'" for s'
    using w by (auto simp: wait_start_def elim!: thread_stepE waiter_stepE)
  ultimately show ?thesis by blast
qed

theorem detached_notification_lost_witness:
  "\<exists>s. wait_reach (wait_start (client_clear_callbacks
      (client_send [''PING''] (CC_User (7::nat)) (client_init True False)))) s \<and>
    sync_ready (sw_client s) \<and> sw_waiter s = Waiter_Asleep \<and> (\<forall>s'. \<not> thread_step s s')"
  by (rule detached_notification_lost)
    (simp_all add: client_clear_callbacks_def client_send_def unprotected_send_def client_init_def)

end
