(* ===== verification/Alignment.thy ===== *)
theory Alignment
  imports Client_System
begin

text \<open>
  The client and the server at the other end: does a reply reach the callback of the command
  it answers? The TCP client is instrumented with the bytes written since the connection was
  made, and a server is assumed to answer the commands in these bytes one by one, in order,
  which is what a Redis server does outside of subscriptions and of \<open>CLIENT REPLY\<close>. The
  instrumented client only observes: the client's code runs on it unchanged.
\<close>

section \<open>A TCP client that remembers what was written\<close>

text \<open>The state, the number of the connection (a failed write ends a connection: nothing
  written before is answered after it), and the bytes written over it.\<close>

type_synonym 't recorded = "'t \<times> nat \<times> string"

definition recording :: "'t tcp_ops \<Rightarrow> 't recorded tcp_ops" where
  "recording ops =
     \<lparr>tcp_connect = (\<lambda>host port tm (t, n, w).
        case tcp_connect ops host port tm t of (t', r) \<Rightarrow> ((t', Suc n, []), r)),
      tcp_disconnect = (\<lambda>wait (t, n, w). (tcp_disconnect ops wait t, Suc n, [])),
      tcp_is_connected = (\<lambda>(t, n, w). tcp_is_connected ops t),
      tcp_async_read = (\<lambda>sz (t, n, w). case tcp_async_read ops sz t of (t', r) \<Rightarrow> ((t', n, w), r)),
      tcp_async_write = (\<lambda>bytes (t, n, w).
        case tcp_async_write ops bytes t of
          (t', Inl e) \<Rightarrow> ((t', Suc n, []), Inl e)
        | (t', Inr u) \<Rightarrow> ((t', n, w @ bytes), Inr u)),
      tcp_set_on_disconnection_handler = (\<lambda>(t, n, w). (tcp_set_on_disconnection_handler ops t, n, w))\<rparr>"

definition epoch :: "('t recorded, 'cb) client \<Rightarrow> nat" where
  "epoch c = fst (snd (cn_client (cl_client c)))"

definition written :: "('t recorded, 'cb) client \<Rightarrow> string" where
  "written c = snd (snd (cn_client (cl_client c)))"

text \<open>The end of a connection the environment reports: a new TCP state, nothing written.\<close>

definition end_connection :: "'t \<Rightarrow> ('t recorded, 'cb) client \<Rightarrow> ('t recorded, 'cb) client" where
  "end_connection t c =
     put_cl_client ((cl_client c)\<lparr>cn_client := (t, Suc (epoch c), [])\<rparr>) c"

section \<open>Alignment\<close>

text \<open>After \<open>k\<close> replies on this connection: the commands written and not yet answered, then
  those still in the buffer, are the commands of the queue.\<close>

definition aligned :: "('t recorded, 'cb) client \<Rightarrow> nat \<Rightarrow> bool" where
  "aligned c k \<longleftrightarrow>
     (\<exists>sent buffered. list_all command_fits (sent @ buffered) \<and>
        written c = concat (map build_command sent) \<and>
        cn_buffer (cl_client c) = concat (map build_command buffered) \<and>
        k \<le> length sent \<and> drop k sent @ buffered = map cr_command (cl_commands c))"

definition no_credentials :: "('t, 'cb) client \<Rightarrow> bool" where
  "no_credentials c \<longleftrightarrow> cl_password c = [] \<and> cl_database_index c \<le> 0"

definition commands_wire :: "('t, 'cb) client \<Rightarrow> string" where
  "commands_wire c = concat (map build_command (map cr_command (cl_commands c)))"

lemma alignedI:
  "list_all command_fits (sent @ buffered) \<Longrightarrow> written c = concat (map build_command sent) \<Longrightarrow>
   cn_buffer (cl_client c) = concat (map build_command buffered) \<Longrightarrow> k \<le> length sent \<Longrightarrow>
   drop k sent @ buffered = map cr_command (cl_commands c) \<Longrightarrow> aligned c k"
  unfolding aligned_def by blast

lemma aligned_idle:
  "written c = [] \<Longrightarrow> cn_buffer (cl_client c) = [] \<Longrightarrow> cl_commands c = [] \<Longrightarrow> aligned c 0"
  by (rule alignedI [of "[]" "[]"]) simp_all

lemma aligned_fits: "aligned c k \<Longrightarrow> list_all command_fits (map cr_command (cl_commands c))"
proof -
  assume "aligned c k"
  then obtain sent buffered where a: "list_all command_fits (sent @ buffered)"
    "drop k sent @ buffered = map cr_command (cl_commands c)"
    by (auto simp: aligned_def)
  have "list_all command_fits (drop k sent @ buffered)"
    using a(1) by (auto simp: list_all_iff dest: in_set_dropD)
  then show ?thesis by (simp only: a(2))
qed

section \<open>Steps\<close>

text \<open>The threads of the client, as in \<open>client_step\<close>, on the recording TCP client, with the
  number of replies handled on this connection. What is asked of the users and the server:
  commands of a length the reader of commands accepts; no call that submits, commits,
  connects or disconnects while a thread is between a write that failed (or closing the
  connection) and taking the requests off the queue; a new connection only when no answer is
  outstanding; no password and no database set when a connection is lost; the server sends
  only replies to commands it got. A reply is taken off and its callback called in two steps.\<close>

inductive align_step ::
  "'t tcp_ops \<Rightarrow> (int \<Rightarrow> net_event list) \<Rightarrow> ('t recorded, 'cb) client_system \<times> nat \<Rightarrow>
   ('t recorded, 'cb) client_system \<times> nat \<Rightarrow> bool"
  for ops :: "'t tcp_ops" and env :: "int \<Rightarrow> net_event list"
where
  Send: "sy_to_clear s = 0 \<Longrightarrow> command_fits ws \<Longrightarrow>
    align_step ops env (s, k) (s\<lparr>sy_client := client_send ws cb (sy_client s),
      sy_submitted := sy_submitted s + users cb\<rparr>, k)"
| Auth: "sy_to_clear s = 0 \<Longrightarrow> command_fits [''AUTH'', pw] \<Longrightarrow>
    align_step ops env (s, k) (s\<lparr>sy_client := client_auth pw cb (sy_client s),
      sy_submitted := sy_submitted s + users cb\<rparr>, k)"
| Select: "sy_to_clear s = 0 \<Longrightarrow> command_fits [''SELECT'', to_string_int i] \<Longrightarrow>
    align_step ops env (s, k) (s\<lparr>sy_client := client_select i cb (sy_client s),
      sy_submitted := sy_submitted s + users cb\<rparr>, k)"
| Commit_Write: "sy_to_clear s = 0 \<Longrightarrow> \<not> cl_reconnecting (sy_client s) \<Longrightarrow>
    try_commit_write (recording ops) (sy_client s) = (c, r) \<Longrightarrow> is_ok r \<or> must_clear r \<Longrightarrow>
    align_step ops env (s, k) (s\<lparr>sy_client := c, sy_to_clear := (if must_clear r then 1 else 0)\<rparr>,
      if epoch c = epoch (sy_client s) then k else 0)"
| Disconnect_Close: "sy_to_clear s = 0 \<Longrightarrow>
    align_step ops env (s, k) (s\<lparr>sy_client := disconnect_close (recording ops) w (sy_client s),
      sy_to_clear := 1\<rparr>, 0)"
| Clear_Take: "0 < sy_to_clear s \<Longrightarrow> clear_take (sy_client s) = (qs, c) \<Longrightarrow>
    align_step ops env (s, k) (s\<lparr>sy_client := c, sy_to_clear := sy_to_clear s - 1,
      sy_clearing := qs # sy_clearing s\<rparr>, k)"
| Clear_Count: "sy_clearing s = a @ qs # b \<Longrightarrow>
    align_step ops env (s, k)
      (s\<lparr>sy_client := clear_count qs (sy_client s), sy_clearing := a @ b\<rparr>, k)"
| Reply: "written (sy_client s) = concat (map build_command sent) \<Longrightarrow> list_all command_fits sent \<Longrightarrow>
    k < length sent \<Longrightarrow> client_next_request (sy_client s) = (q, c) \<Longrightarrow>
    align_step ops env (s, k) (s\<lparr>sy_client := c, sy_active := (q, r) # sy_active s\<rparr>, Suc k)"
| Finish: "sy_active s = a @ (q, r) # b \<Longrightarrow>
    align_step ops env (s, k)
      (s\<lparr>sy_client := client_finish_request q r (sy_client s), sy_active := a @ b\<rparr>, k)"
| Worker: "align_step ops env (s, k) (s\<lparr>sy_client := worker_step i (sy_client s)\<rparr>, k)"
| Connect: "sy_to_clear s = 0 \<Longrightarrow> commands_wire (sy_client s) = cn_buffer (cl_client (sy_client s)) \<Longrightarrow>
    client_connect (recording ops) host port cc tm mr ri (sy_client s) = (c, r) \<Longrightarrow>
    align_step ops env (s, k) (s\<lparr>sy_client := c\<rparr>, 0)"
| Connect_Master: "sy_to_clear s = 0 \<Longrightarrow> commands_wire (sy_client s) = cn_buffer (cl_client (sy_client s)) \<Longrightarrow>
    client_connect_master (recording ops) evs name cc tm mr ri (sy_client s) = Some (c, r) \<Longrightarrow>
    align_step ops env (s, k) (s\<lparr>sy_client := c\<rparr>, if epoch c = epoch (sy_client s) then k else 0)"
| Add_Sentinel: "align_step ops env (s, k)
    (s\<lparr>sy_client := client_add_sentinel host port tm (sy_client s)\<rparr>, k)"
| Clear_Sentinels: "align_step ops env (s, k) (s\<lparr>sy_client := client_clear_sentinels (sy_client s)\<rparr>, k)"
| Cancel: "align_step ops env (s, k) (s\<lparr>sy_client := client_cancel_reconnect (sy_client s)\<rparr>, k)"
| Lost: "sy_to_clear s = 0 \<Longrightarrow> no_credentials (sy_client s) \<Longrightarrow>
    cn_disconnection_handler (cl_client (sy_client s)) \<Longrightarrow> \<not> cl_reconnecting (sy_client s) \<Longrightarrow>
    \<not> tcp_is_connected ops t \<Longrightarrow>
    client_net_event (recording ops) env Net_Disconnected (end_connection t (sy_client s)) = Some (c, Inr ()) \<Longrightarrow>
    client_is_connected (recording ops) c \<Longrightarrow> align_step ops env (s, k) (s\<lparr>sy_client := c\<rparr>, 0)"
| Lost_For_Good: "sy_to_clear s = 0 \<Longrightarrow> no_credentials (sy_client s) \<Longrightarrow>
    cn_disconnection_handler (cl_client (sy_client s)) \<Longrightarrow> \<not> cl_reconnecting (sy_client s) \<Longrightarrow>
    \<not> tcp_is_connected ops t \<Longrightarrow>
    client_net_event (recording ops) env Net_Disconnected (end_connection t (sy_client s)) = Some (c, Inr ()) \<Longrightarrow>
    \<not> client_is_connected (recording ops) c \<Longrightarrow>
    align_step ops env (s, k) (s\<lparr>sy_client := end_connection t' c\<rparr>, 0)"

inductive align_reachable ::
  "'t tcp_ops \<Rightarrow> (int \<Rightarrow> net_event list) \<Rightarrow> ('t recorded, 'cb) client_system \<times> nat \<Rightarrow> bool"
  for ops :: "'t tcp_ops" and env :: "int \<Rightarrow> net_event list"
where
  Init: "align_reachable ops env (system_init (t, 0, []) (t', 0, []), 0)"
| Step: "align_reachable ops env s \<Longrightarrow> align_step ops env s s' \<Longrightarrow> align_reachable ops env s'"

section \<open>Each step keeps the alignment\<close>

lemma recording_sel:
  "tcp_connect (recording ops) host port tm x =
     (case tcp_connect ops host port tm (fst x) of (t', r) \<Rightarrow> ((t', Suc (fst (snd x)), []), r))"
  "tcp_disconnect (recording ops) wait x = (tcp_disconnect ops wait (fst x), Suc (fst (snd x)), [])"
  "tcp_is_connected (recording ops) x = tcp_is_connected ops (fst x)"
  "tcp_async_read (recording ops) sz x =
     (case tcp_async_read ops sz (fst x) of (t', r) \<Rightarrow> ((t', snd x), r))"
  "tcp_async_write (recording ops) bytes x =
     (case tcp_async_write ops bytes (fst x) of
        (t', Inl e) \<Rightarrow> ((t', Suc (fst (snd x)), []), Inl e)
      | (t', Inr u) \<Rightarrow> ((t', fst (snd x), snd (snd x) @ bytes), Inr u))"
  "tcp_set_on_disconnection_handler (recording ops) x =
     (tcp_set_on_disconnection_handler ops (fst x), snd x)"
  by (simp_all add: recording_def split: prod.splits sum.splits)

text \<open>A new connection starts with nothing written and keeps the buffer.\<close>

lemma conn_connect_recording:
  "conn_connect (recording ops) host port dh rc tm c = (c', r) \<Longrightarrow>
    snd (snd (cn_client c')) = [] \<and> cn_buffer c' = cn_buffer c"
  by (auto simp: conn_connect_def recording_sel split: prod.splits sum.splits)

lemma client_connect_recording:
  assumes "client_connect (recording ops) host port cc tm mr ri c = (c', r)"
  shows "written c' = [] \<and> cn_buffer (cl_client c') = cn_buffer (cl_client c) \<and>
    cl_commands c' = cl_commands c \<and> cl_password c' = cl_password c \<and>
    cl_database_index c' = cl_database_index c"
proof -
  have "written c' = [] \<and> cn_buffer (cl_client c') = cn_buffer (cl_client c)"
    using assms
    by (auto simp: client_connect_def Let_def written_def split: prod.splits sum.splits
        dest!: conn_connect_recording)
  then show ?thesis using client_connect_frame [OF assms] by simp
qed

text \<open>A write moves the buffer to what was written, or ends the connection.\<close>

lemma try_commit_recording:
  assumes "client_try_commit (recording ops) c = (c', r)"
  shows "(is_ok r \<longrightarrow> written c' = written c @ cn_buffer (cl_client c) \<and> epoch c' = epoch c \<and>
      cl_commands c' = cl_commands c \<and> cn_buffer (cl_client c') = []) \<and>
    (\<forall>e. r = Inl e \<and> is_redis_error e \<longrightarrow> written c' = [] \<and> epoch c' \<noteq> epoch c \<and>
      cl_commands c' = [] \<and> cn_buffer (cl_client c') = []) \<and>
    cl_password c' = cl_password c \<and> cl_database_index c' = cl_database_index c"
  using assms
  by (auto simp: client_try_commit_def conn_commit_def recording_sel client_clear_callbacks_def
      written_def epoch_def split: prod.splits sum.splits if_splits)

lemma aligned_send:
  assumes "aligned c k" "command_fits ws"
  shows "aligned (client_send ws cb c) k"
proof -
  obtain sent buffered where a: "list_all command_fits (sent @ buffered)"
    "written c = concat (map build_command sent)"
    "cn_buffer (cl_client c) = concat (map build_command buffered)" "k \<le> length sent"
    "drop k sent @ buffered = map cr_command (cl_commands c)"
    using assms(1) by (auto simp: aligned_def)
  show ?thesis
    by (rule alignedI [of sent "buffered @ [ws]"])
      (use a assms(2) in \<open>simp_all add: client_send_def unprotected_send_def conn_send_def written_def
        flip: append_assoc\<close>)
qed

lemma write_recording:
  assumes "try_commit_write (recording ops) c = (c', r)"
  shows "if is_ok r then written c' = written c @ cn_buffer (cl_client c) \<and> epoch c' = epoch c \<and>
      cl_commands c' = cl_commands c \<and> cn_buffer (cl_client c') = []
    else written c' = [] \<and> epoch c' \<noteq> epoch c \<and> cn_buffer (cl_client c') = []"
  using assms
  by (auto simp: try_commit_write_def conn_commit_def recording_sel written_def epoch_def
      split: prod.splits sum.splits if_splits)

lemma aligned_write:
  assumes "aligned c k" "try_commit_write (recording ops) c = (c', r)" "is_ok r"
  shows "aligned c' k"
proof -
  obtain sent buffered where a: "list_all command_fits (sent @ buffered)"
    "written c = concat (map build_command sent)"
    "cn_buffer (cl_client c) = concat (map build_command buffered)" "k \<le> length sent"
    "drop k sent @ buffered = map cr_command (cl_commands c)"
    using assms(1) by (auto simp: aligned_def)
  show ?thesis
    by (rule alignedI [of "sent @ buffered" "[]"])
      (use a assms(3) write_recording [OF assms(2)] in simp_all)
qed

lemma next_request_recording:
  assumes "client_next_request c = (q, c')"
  shows "cl_client c' = cl_client c \<and> cl_commands c' = tl (cl_commands c)"
  using assms by (auto simp: client_next_request_def Let_def split: list.splits)

lemma finish_recording: "cl_client (client_finish_request q r c) = cl_client c"
  by (simp add: client_finish_request_def Let_def split: option.splits)

text \<open>The bytes written determine the commands, so that the reply is one to the first command
  of the queue.\<close>

lemma aligned_next:
  assumes "aligned c k" "written c = concat (map build_command sent)" "list_all command_fits sent"
    "k < length sent"
  shows "\<exists>q qs buffered. cl_commands c = q # qs \<and> cr_command q = sent ! k \<and>
    list_all command_fits (sent @ buffered) \<and>
    cn_buffer (cl_client c) = concat (map build_command buffered) \<and>
    drop (Suc k) sent @ buffered = map cr_command qs"
proof -
  obtain sent' buffered where a: "list_all command_fits (sent' @ buffered)"
    "written c = concat (map build_command sent')"
    "cn_buffer (cl_client c) = concat (map build_command buffered)" "k \<le> length sent'"
    "drop k sent' @ buffered = map cr_command (cl_commands c)"
    using assms(1) by (auto simp: aligned_def)
  have s: "sent' = sent"
    using build_commands_inj [of sent' sent] a(1,2) assms(2,3) by simp
  have "sent ! k # drop (Suc k) sent @ buffered = map cr_command (cl_commands c)"
    using a(5) assms(4) s Cons_nth_drop_Suc [of k sent] by (metis append_Cons)
  then show ?thesis using a(1,3) s by (cases "cl_commands c") auto
qed

lemma aligned_reply:
  assumes "aligned c k" "written c = concat (map build_command sent)" "list_all command_fits sent"
    "k < length sent" "client_next_request c = (q, c')"
  shows "aligned c' (Suc k)"
proof -
  obtain q qs buffered where n: "cl_commands c = q # qs" "list_all command_fits (sent @ buffered)"
    "cn_buffer (cl_client c) = concat (map build_command buffered)"
    "drop (Suc k) sent @ buffered = map cr_command qs"
    using aligned_next [OF assms(1-4)] by blast
  show ?thesis
    by (rule alignedI [of sent buffered])
      (use n assms(2,4) next_request_recording [OF assms(5)] in \<open>simp_all add: written_def\<close>)
qed

lemma aligned_connect:
  assumes "aligned c k" "commands_wire c = cn_buffer (cl_client c)"
    "client_connect (recording ops) host port cc tm mr ri c = (c', r)"
  shows "aligned c' 0"
  by (rule alignedI [of "[]" "map cr_command (cl_commands c)"])
    (use client_connect_recording [OF assms(3)] aligned_fits [OF assms(1)] assms(2) in
      \<open>simp_all add: commands_wire_def\<close>)

lemma client_connect_epoch:
  "client_connect (recording ops) host port cc tm mr ri c = (c', r) \<Longrightarrow> epoch c' = Suc (epoch c)"
  by (auto simp: client_connect_def conn_connect_def recording_sel epoch_def Let_def
      split: prod.splits sum.splits)

text \<open>A lookup leaves the connection as it is; a master that was found is connected to.\<close>

lemma connect_master_cases:
  assumes "client_connect_master ops evs name cc tm mr ri c = Some (c', r)"
  obtains se h p where "c' = c\<lparr>cl_master_name := name, cl_sentinel := se, cl_redis_server := h, cl_redis_port := p\<rparr>"
  | se h p where "client_connect ops h p cc tm mr ri
      (c\<lparr>cl_master_name := name, cl_sentinel := se, cl_redis_server := h, cl_redis_port := p\<rparr>) = (c', r)"
  using assms
  by (auto simp: client_connect_master_def client_lookup_def split: option.splits sum.splits if_splits)

lemma aligned_connect_master:
  assumes "aligned c k" "commands_wire c = cn_buffer (cl_client c)"
    "client_connect_master (recording ops) evs name cc tm mr ri c = Some (c', r)"
  shows "aligned c' (if epoch c' = epoch c then k else 0)"
  using assms(3)
proof (cases rule: connect_master_cases)
  case (1 se h p)
  then show ?thesis
    using assms(1) by (simp add: aligned_def written_def epoch_def)
next
  case (2 se h p)
  let ?c = "c\<lparr>cl_master_name := name, cl_sentinel := se, cl_redis_server := h, cl_redis_port := p\<rparr>"
  have "aligned ?c k" "commands_wire ?c = cn_buffer (cl_client ?c)"
    using assms(1,2) by (simp_all add: aligned_def written_def commands_wire_def)
  from aligned_connect [OF this 2] client_connect_epoch [OF 2]
  show ?thesis by (simp add: epoch_def)
qed

lemma closed_recording:
  "written (disconnect_close (recording ops) w c) = []"
  "cn_buffer (cl_client (disconnect_close (recording ops) w c)) = []"
  by (simp_all add: disconnect_close_def conn_disconnect_def recording_sel written_def)

lemma worker_step_frame:
  "cl_client (worker_step i c) = cl_client c" "cl_commands (worker_step i c) = cl_commands c"
  "cl_password (worker_step i c) = cl_password c"
  "cl_database_index (worker_step i c) = cl_database_index c"
  by (auto simp: worker_step_def Let_def run_callback_def split: list.splits client_callback.splits)

lemma aligned_frame:
  "aligned c k \<Longrightarrow> cl_client c' = cl_client c \<Longrightarrow> cl_commands c' = cl_commands c \<Longrightarrow> aligned c' k"
  by (simp add: aligned_def written_def)

section \<open>Reconnecting\<close>

text \<open>In the reconnection loop: the pending requests stay, the buffer is empty between the
  rounds, and once the connection is back everything pending was written over it, once.\<close>

definition resent :: "'t tcp_ops \<Rightarrow> 'cb command_request list \<Rightarrow> ('t recorded, 'cb) client \<Rightarrow> bool" where
  "resent ops qs c \<longleftrightarrow>
     cl_commands c = qs \<and> no_credentials c \<and> cn_buffer (cl_client c) = [] \<and>
     (client_is_connected (recording ops) c \<longrightarrow> written c = commands_wire c)"

lemma notify_recording [simp]:
  "written (notify_connect h p st c) = written c"
  "no_credentials (notify_connect h p st c) = no_credentials c"
  "commands_wire (notify_connect h p st c) = commands_wire c"
  "client_is_connected ops (notify_connect h p st c) = client_is_connected ops c"
  by (simp_all add: written_def no_credentials_def commands_wire_def client_is_connected_def)

lemma resent_notify [simp]: "resent ops qs (notify_connect h p st c) = resent ops qs c"
  by (simp add: resent_def)

lemma no_credentials_restore:
  "no_credentials c \<Longrightarrow> re_select (re_auth c) = c"
  by (simp add: no_credentials_def re_auth_def re_select_def)

lemma resent_attempts [simp]:
  "resent ops qs (c\<lparr>cl_current_reconnect_attempts := n\<rparr>) = resent ops qs c"
  by (simp add: resent_def no_credentials_def client_is_connected_def written_def commands_wire_def)

lemma resent_reconnect_to_server:
  assumes "reconnect_to_server (recording ops) c = (c', Inr u)" "resent ops qs c"
  shows "resent ops qs c'"
proof -
  obtain c1 r1 where k: "client_connect (recording ops) (cl_redis_server c) (cl_redis_port c)
      (cl_connect_callback c) (cl_connect_timeout_msecs c) (cl_max_reconnects c)
      (cl_reconnect_interval_msecs c) c = (c1, r1)"
    by (metis surj_pair)
  have c1: "written c1 = []" "cn_buffer (cl_client c1) = []" "cl_commands c1 = qs" "no_credentials c1"
    using client_connect_recording [OF k] assms(2) by (simp_all add: resent_def no_credentials_def)
  have no_ub: "\<not> (case r1 of Inl e \<Rightarrow> \<not> is_exception e | Inr u \<Rightarrow> False)"
    using assms(1) k by (auto simp: reconnect_to_server_def split: sum.splits if_splits)
  show ?thesis
  proof (cases "client_is_connected (recording ops) c1")
    case False
    then have "c' = notify_connect (cl_redis_server c1) (cl_redis_port c1) CS_failed c1"
      using assms(1) k no_ub by (simp add: reconnect_to_server_def)
    then show ?thesis using c1 False by (simp add: resent_def)
  next
    case True
    let ?c2 = "notify_connect (cl_redis_server c1) (cl_redis_port c1) CS_ok c1"
    have n: "no_credentials ?c2" using c1(4) by simp
    have t: "client_try_commit (recording ops) (resend_failed_commands ?c2) = (c', Inr u)"
      using assms(1) k no_ub True no_credentials_restore [OF n] by (simp add: reconnect_to_server_def)
    have r: "cn_buffer (cl_client (resend_failed_commands ?c2)) = commands_wire c1"
      "written (resend_failed_commands ?c2) = []" "cl_commands (resend_failed_commands ?c2) = qs"
      "no_credentials (resend_failed_commands ?c2)"
      using c1 by (simp_all add: resend_failed_commands_eq commands_wire_def written_def comp_def
          no_credentials_def)
    show ?thesis
      using try_commit_recording [OF t] r c1(3)
      by (simp add: resent_def no_credentials_def commands_wire_def)
  qed
qed

lemma resent_lookup:
  assumes "client_lookup ops' evs c = Some (c', r)" "resent ops qs c"
  shows "resent ops qs c'"
  using assms
  by (auto simp: client_lookup_def resent_def no_credentials_def client_is_connected_def written_def
      commands_wire_def split: option.splits)

lemma resent_round:
  assumes "reconnect_round (recording ops) env c = Some (c', Inr u)" "resent ops qs c"
  shows "resent ops qs c'"
proof -
  let ?c0 = "sleep_before_next_reconnect_attempt c"
  let ?c1 = "?c0\<lparr>cl_current_reconnect_attempts := cl_current_reconnect_attempts ?c0 + 1\<rparr>"
  have c1: "resent ops qs ?c1"
    using assms(2) by (simp add: sleep_before_next_reconnect_attempt_def)
  show ?thesis
  proof (cases "cl_master_name ?c1 = []")
    case True
    then have "reconnect_to_server (recording ops) ?c1 = (c', Inr u)"
      using assms(1) by (simp add: reconnect_round_def client_reconnect_def Let_def split: if_splits)
    then show ?thesis using c1 by (rule resent_reconnect_to_server)
  next
    case False
    then obtain c2 found where l: "client_lookup (recording ops)
        (env (cl_current_reconnect_attempts ?c1)) ?c1 = Some (c2, Inr found)"
      using assms(1)
      by (auto simp: reconnect_round_def client_reconnect_def Let_def
          split: if_splits option.splits sum.splits)
    have c2: "resent ops qs c2" by (rule resent_lookup [OF l c1])
    show ?thesis
      using assms(1) False l c2 resent_reconnect_to_server [of ops c2 c' u qs]
      by (auto simp: reconnect_round_def client_reconnect_def Let_def split: if_splits)
  qed
qed

lemma lost_recording:
  assumes "cn_disconnection_handler (cl_client c)" "\<not> cl_reconnecting c" "\<not> tcp_is_connected ops t"
    and "no_credentials c"
    and "client_net_event (recording ops) env Net_Disconnected (end_connection t c) = Some (c', Inr ())"
  shows "cn_buffer (cl_client c') = [] \<and> no_credentials c' \<and>
    (if client_is_connected (recording ops) c'
     then cl_commands c' = cl_commands c \<and> written c' = commands_wire c' else cl_commands c' = [])"
proof -
  let ?c0 = "end_connection t c"
  let ?c1 = "put_cl_client ((cl_client ?c0)\<lparr>cn_buffer := [], cn_builder := rb_reset (cn_builder (cl_client ?c0))\<rparr>) ?c0"
  let ?c2 = "notify_connect (cl_redis_server ?c1) (cl_redis_port ?c1) CS_dropped
    (?c1\<lparr>cl_reconnecting := True, cl_current_reconnect_attempts := 0\<rparr>)"
  have h: "client_disconnection_handler (recording ops) env ?c1 = Some (c', Inr ())"
    using assms(1,5)
    by (simp add: tcp_client_disconnection_handler_def call_disconnection_handler_def Let_def
        end_connection_def)
  then obtain c3 where
    l: "reconnect_loop (should_reconnect (recording ops)) (reconnect_round (recording ops) env) ?c2 =
      Some (c3, Inr ())"
    and c': "c' = (if \<not> client_is_connected (recording ops) c3
        then notify_connect (cl_redis_server (client_clear_callbacks c3))
               (cl_redis_port (client_clear_callbacks c3)) CS_stopped (client_clear_callbacks c3)
        else c3)\<lparr>cl_reconnecting := False\<rparr>"
    using assms(2)
    by (auto simp: client_disconnection_handler_def Let_def end_connection_def
        split: option.splits sum.splits)
  have "resent ops (cl_commands c) ?c2"
    using assms(3,4)
    by (simp add: resent_def no_credentials_def client_is_connected_def conn_is_connected_def
        recording_sel end_connection_def)
  then have "resent ops (cl_commands c) c3"
    by (rule reconnect_loop_ok_invariant [OF l]) (rule resent_round)
  then show ?thesis
    by (auto simp: c' resent_def no_credentials_def client_clear_callbacks_def client_is_connected_def
        written_def commands_wire_def)
qed

text \<open>Every step keeps the alignment; while a thread is about to clear the queue the
  connection has ended and nothing is buffered.\<close>

definition align_inv :: "('t recorded, 'cb) client_system \<Rightarrow> nat \<Rightarrow> bool" where
  "align_inv s k \<longleftrightarrow>
     (if sy_to_clear s = 0 then aligned (sy_client s) k
      else k = 0 \<and> sy_to_clear s = 1 \<and> written (sy_client s) = [] \<and>
        cn_buffer (cl_client (sy_client s)) = [])"

lemma align_inv_frame:
  "align_inv s k \<Longrightarrow> sy_to_clear s' = sy_to_clear s \<Longrightarrow>
    cl_client (sy_client s') = cl_client (sy_client s) \<Longrightarrow>
    cl_commands (sy_client s') = cl_commands (sy_client s) \<Longrightarrow> align_inv s' k"
  using aligned_frame [of "sy_client s" k "sy_client s'"]
  by (auto simp: align_inv_def written_def split: if_splits)

lemma no_answer_while_clearing:
  assumes "align_inv s k" "written (sy_client s) = concat (map build_command sent)"
    "list_all command_fits sent" "k < length sent"
  shows "sy_to_clear s = 0" "aligned (sy_client s) k"
proof -
  show "sy_to_clear s = 0"
  proof (rule ccontr)
    assume "sy_to_clear s \<noteq> 0"
    then have "concat (map build_command sent) = concat (map build_command [])"
      using assms(1,2) by (simp add: align_inv_def)
    then have "sent = []" using build_commands_inj [of sent "[]"] assms(3) by simp
    then show False using assms(4) by simp
  qed
  then show "aligned (sy_client s) k" using assms(1) by (simp add: align_inv_def)
qed

lemma align_step_inv:
  "align_step ops env s s' \<Longrightarrow> align_inv (fst s) (snd s) \<Longrightarrow> align_inv (fst s') (snd s')"
proof (induction rule: align_step.induct)
  case (Send s ws k cb)
  then show ?case using aligned_send [of "sy_client s" k ws cb] by (simp add: align_inv_def)
next
  case (Auth s pw k cb)
  then have "aligned ((sy_client s)\<lparr>cl_password := pw\<rparr>) k"
    by (auto simp: align_inv_def intro: aligned_frame)
  from aligned_send [OF this Auth(2), of cb] Auth(1) show ?case
    by (simp add: align_inv_def client_auth_def unprotected_auth_def client_send_def)
next
  case (Select s i k cb)
  then have "aligned ((sy_client s)\<lparr>cl_database_index := i\<rparr>) k"
    by (auto simp: align_inv_def intro: aligned_frame)
  from aligned_send [OF this Select(2), of cb] Select(1) show ?case
    by (simp add: align_inv_def client_select_def unprotected_select_def client_send_def)
next
  case (Commit_Write s c r k)
  have a: "aligned (sy_client s) k" using Commit_Write(1,5) by (simp add: align_inv_def)
  show ?case
  proof (cases "is_ok r")
    case True
    then have "\<not> must_clear r" by (cases r) simp_all
    then show ?thesis
      using True aligned_write [OF a Commit_Write(3) True] write_recording [OF Commit_Write(3)]
      by (simp add: align_inv_def)
  next
    case False
    then show ?thesis
      using write_recording [OF Commit_Write(3)] Commit_Write(4) by (simp add: align_inv_def)
  qed
next
  case (Disconnect_Close s k w)
  show ?case by (simp add: align_inv_def closed_recording)
next
  case (Clear_Take s qs c k)
  then have "written c = [] \<and> cn_buffer (cl_client c) = [] \<and> cl_commands c = [] \<and> k = 0
      \<and> sy_to_clear s = 1"
    by (auto simp: align_inv_def clear_take_def written_def split: if_splits)
  then show ?case using aligned_idle [of c] by (simp add: align_inv_def)
next
  case (Reply s sent k q c r)
  note a = no_answer_while_clearing [OF Reply(5) [unfolded fst_conv snd_conv] Reply(1-3)]
  show ?case using aligned_reply [OF a(2) Reply(1-4)] a(1) by (simp add: align_inv_def)
next
  case (Connect s host port cc tm mr ri c r k)
  then show ?case using aligned_connect [OF _ Connect(2,3), of k] by (simp add: align_inv_def)
next
  case (Connect_Master s evs name cc tm mr ri c r k)
  then show ?case using aligned_connect_master [OF _ Connect_Master(2,3), of k] by (simp add: align_inv_def)
next
  case (Lost s t c k)
  have f: "cn_buffer (cl_client c) = []" "cl_commands c = cl_commands (sy_client s)"
    "written c = commands_wire c"
    using lost_recording [OF Lost(3-5,2,6)] Lost(7) by simp_all
  have "aligned (sy_client s) k" using Lost(1,8) by (simp add: align_inv_def)
  then have "aligned c 0"
    using f aligned_fits [of "sy_client s" k]
    by (intro alignedI [of "map cr_command (cl_commands c)" "[]"]) (simp_all add: commands_wire_def)
  then show ?case using Lost(1) by (simp add: align_inv_def)
next
  case (Lost_For_Good s t c k t')
  then show ?case
    using lost_recording [OF Lost_For_Good(3-5,2,6)] aligned_idle [of "end_connection t' c"]
    by (simp add: align_inv_def end_connection_def written_def)
qed (auto intro: align_inv_frame simp: finish_recording worker_step_frame clear_count_def
    client_add_sentinel_def client_clear_sentinels_def client_cancel_reconnect_def)

lemma align_reachable_inv: "align_reachable ops env s \<Longrightarrow> align_inv (fst s) (snd s)"
proof (induction rule: align_reachable.induct)
  case (Init t t')
  show ?case
    using aligned_idle [of "client_init (t, 0, []) (t', 0, [])"]
    by (simp add: align_inv_def system_init_def client_init_def connection_init_def written_def)
next
  case (Step s s')
  then show ?case using align_step_inv by blast
qed

section \<open>Properties\<close>

text \<open>C7: each reply reaches the callback of the command it answers, in every state reached by
  these steps: through commits that fail, disconnections, and reconnections without a
  password and a database. The steps leave out: a request submitted, a commit or a connection
  between a failing write (or closing the connection) and taking the requests off the queue;
  a password or a database set when a connection is lost; a call of \<open>connect\<close> while an answer is
  outstanding; writes that fail with anything but a \<open>redis_error\<close>
  (\<open>failed_commit_race\<close> and \<open>reconnect_auth_misaligned\<close> show what happens otherwise). If the bytes written over the present connection are the commands
  \<open>sent\<close> and \<open>k\<close> of them have been answered, then the request the next reply goes to is the
  one that sent \<open>sent ! k\<close>.\<close>

theorem replies_match_commands:
  assumes "align_reachable ops env (s, k)" "written (sy_client s) = concat (map build_command sent)"
    and "list_all command_fits sent" "k < length sent"
  shows "\<exists>q. fst (client_next_request (sy_client s)) = Some q \<and> cr_command q = sent ! k"
proof -
  have "align_inv s k" using align_reachable_inv [OF assms(1)] by simp
  from aligned_next [OF no_answer_while_clearing(2) [OF this assms(2-4)] assms(2-4)] show ?thesis
    by (auto simp: client_next_request_def Let_def)
qed

text \<open>A run for the witness: a request is submitted, the client connects and commits.\<close>

definition recorded_system :: "(bool recorded, nat) client_system" where
  "recorded_system =
     (system_init (False, 0, []) (False, 0, []))
       \<lparr>sy_client := fst (try_commit_write (recording flag_ops)
         (fst (client_connect (recording flag_ops) ''h'' 6379 False 0 0 0
           (client_send [''PING''] (CC_User 7) (client_init (False, 0, []) (False, 0, [])))))),
        sy_submitted := {#7#}\<rparr>"

lemma recorded_system_reachable: "align_reachable flag_ops env (recorded_system, 0)"
proof -
  let ?i = "system_init (False, 0, []) (False, 0, []) :: (bool recorded, nat) client_system"
  let ?c1 = "client_send [''PING''] (CC_User 7) (sy_client ?i)"
  let ?s1 = "?i\<lparr>sy_client := ?c1, sy_submitted := sy_submitted ?i + users (CC_User 7)\<rparr>"
  let ?k = "client_connect (recording flag_ops) ''h'' 6379 False 0 0 0 ?c1"
  let ?s2 = "?s1\<lparr>sy_client := fst ?k\<rparr>"
  let ?m = "try_commit_write (recording flag_ops) (fst ?k)"
  let ?s3 = "?s2\<lparr>sy_client := fst ?m, sy_to_clear := (if must_clear (snd ?m) then 1 else 0)\<rparr>"
  note sel = client_send_def unprotected_send_def conn_send_def client_init_def connection_init_def
    client_connect_def conn_connect_def recording_sel flag_ops_def notify_connect_def
    try_commit_write_def conn_commit_def system_init_def
  have "align_reachable flag_ops env (?s1, 0)"
    by (rule align_reachable.Step [OF align_reachable.Init align_step.Send])
      (simp_all add: command_fits_def system_init_def)
  moreover have "align_step flag_ops env (?s1, 0) (?s2, 0)"
  proof (rule align_step.Connect [where r = "snd ?k"])
    show "client_connect (recording flag_ops) ''h'' 6379 False 0 0 0 (sy_client ?s1) = (fst ?k, snd ?k)"
      by simp
  qed (simp_all add: commands_wire_def client_send_def unprotected_send_def conn_send_def client_init_def
      connection_init_def system_init_def)
  ultimately have r: "align_reachable flag_ops env (?s2, 0)" by (rule align_reachable.Step)
  have "align_step flag_ops env (?s2, 0) (?s3, if epoch (fst ?m) = epoch (sy_client ?s2) then 0 else 0)"
  proof (rule align_step.Commit_Write [where r = "snd ?m"])
    show "try_commit_write (recording flag_ops) (sy_client ?s2) = (fst ?m, snd ?m)" by simp
  qed (simp_all add: sel)
  from align_reachable.Step [OF r this] show ?thesis
    by (simp add: recorded_system_def sel)
qed

theorem replies_match_commands_witness:
  "\<exists>q. fst (client_next_request (sy_client recorded_system)) = Some q \<and> cr_command q = [''PING'']"
proof -
  have "written (sy_client recorded_system) = concat (map build_command [[''PING'']])"
    by (simp add: recorded_system_def written_def client_send_def unprotected_send_def conn_send_def
        client_init_def connection_init_def client_connect_def conn_connect_def recording_sel flag_ops_def
        notify_connect_def try_commit_write_def conn_commit_def)
  from replies_match_commands [OF recorded_system_reachable this] show ?thesis
    by (simp add: command_fits_def)
qed

end
