(* ===== verification/Reentrancy.thy ===== *)
theory Reentrancy
  imports Subscriber Client_System
begin

text \<open>
  User callbacks that call the object back. The subscriber calls its callbacks with the mutex
  of the channels or of the patterns locked (sources/core/subscriber.cpp 263-351), and
  \<open>subscribe\<close>, \<open>unsubscribe\<close> and their pattern versions lock the same mutexes; locking a
  \<open>std::mutex\<close> the thread already owns is undefined (it blocks for ever, or throws). The
  client takes a request off its queue in a critical section and calls the callback outside
  of it (sources/core/client.cpp 226-251), so that callbacks may send. A callback's body is
  the list of the calls it makes, a parameter.
\<close>

section \<open>Subscriber callbacks\<close>

datatype subscriber_mutex = Channels_Mutex | Patterns_Mutex

primrec op_mutex :: "'cb subscription_op \<Rightarrow> subscriber_mutex" where
  "op_mutex (Subscribe c cb ack) = Channels_Mutex"
| "op_mutex (Psubscribe p cb ack) = Patterns_Mutex"
| "op_mutex (Unsubscribe c) = Channels_Mutex"
| "op_mutex (Punsubscribe p) = Patterns_Mutex"

text \<open>The calls of a callback, made by a thread that holds the mutexes \<open>held\<close>.\<close>

fun run_body ::
  "subscriber_mutex list \<Rightarrow> 'cb subscription_op list \<Rightarrow> ('t, 'cb) subscriber \<Rightarrow>
   ('t, 'cb) subscriber \<times> unit result"
where
  "run_body held [] s = (s, Inr ())"
| "run_body held (op # ops) s =
     (if op_mutex op \<in> set held then (s, Inl (Undefined_Behaviour Mutex_Relocked))
      else run_body held ops (run_subscription op s))"

text \<open>The mutex a handler holds while it calls a callback for the array \<open>r\<close>.\<close>

definition handler_mutexes :: "reply \<Rightarrow> subscriber_mutex list" where
  "handler_mutexes r =
     (case as_array r of
        Inl e \<Rightarrow> []
      | Inr [] \<Rightarrow> []
      | Inr (title # rest) \<Rightarrow>
          (case as_string title of
             Inl e \<Rightarrow> []
           | Inr t \<Rightarrow>
               (if t = ''subscribe'' \<or> t = ''message'' then [Channels_Mutex]
                else if t = ''psubscribe'' \<or> t = ''pmessage'' then [Patterns_Mutex] else [])))"

text \<open>Calling the callback is the last thing a handler does under its mutex.\<close>

definition reentrant_receive ::
  "('cb subscriber_event \<Rightarrow> 'cb subscription_op list) \<Rightarrow> reply \<Rightarrow> ('t, 'cb) subscriber \<Rightarrow>
   ('t, 'cb) subscriber \<times> unit result"
where
  "reentrant_receive body r s =
     (case su_receive_handler r s of
        (s', Inl e) \<Rightarrow> (s', Inl e)
      | (s', Inr u) \<Rightarrow>
          run_body (handler_mutexes r)
            (concat (map body (drop (length (su_events s)) (su_events s')))) s')"

lemma run_body_free:
  "\<forall>op \<in> set ops. op_mutex op \<notin> set held \<Longrightarrow> run_body held ops s = (fold run_subscription ops s, Inr ())"
  by (induction ops arbitrary: s) simp_all

lemma run_body_relocks:
  "op \<in> set ops \<Longrightarrow> op_mutex op \<in> set held \<Longrightarrow>
   snd (run_body held ops s) = Inl (Undefined_Behaviour Mutex_Relocked)"
  by (induction ops arbitrary: s) auto

lemma reentrant_message:
  assumes "fst (subscriptions_of s) c = Some h" "ch_subscribe_callback h = Some cb"
  shows "reentrant_receive body
      (reply_array [reply_string ''message'' t1, reply_string c t2, reply_string m t3]) s =
    run_body [Channels_Mutex] (body (SU_Message cb c m)) (su_event (SU_Message cb c m) s)"
  using assms
  by (simp add: reentrant_receive_def receive_message deliver_to_def handler_mutexes_def su_event_def)

lemma reentrant_pmessage:
  assumes "snd (subscriptions_of s) p = Some h" "ch_subscribe_callback h = Some cb"
  shows "reentrant_receive body (reply_array
      [reply_string ''pmessage'' t1, reply_string p t2, reply_string c t3, reply_string m t4]) s =
    run_body [Patterns_Mutex] (body (SU_Message cb c m)) (su_event (SU_Message cb c m) s)"
  using assms
  by (simp add: reentrant_receive_def receive_pmessage deliver_to_def handler_mutexes_def su_event_def)

text \<open>The \<open>AUTH\<close> callback is reset after it was called: a callback that authenticates again,
  with another password, sends the command, but its new callback is erased.\<close>

definition reentrant_auth_receive ::
  "('cb \<Rightarrow> (string \<times> 'cb auth_callback) list) \<Rightarrow> reply \<Rightarrow> ('t, 'cb) subscriber \<Rightarrow> ('t, 'cb) subscriber"
where
  "reentrant_auth_receive body r s =
     (case su_auth_reply_callback s of
        AC_Null \<Rightarrow> s
      | AC_User cb \<Rightarrow>
          (fold (\<lambda>(pw, cb'). su_auth pw cb') (body cb) (su_event (SU_Auth cb r) s))
            \<lparr>su_auth_reply_callback := AC_Null\<rparr>
      | AC_Reauth \<Rightarrow> s\<lparr>su_auth_reply_callback := AC_Null\<rparr>)"

lemma reentrant_auth_no_calls: "reentrant_auth_receive (\<lambda>cb. []) r s = call_auth_callback r s"
  by (simp add: reentrant_auth_receive_def call_auth_callback_def split: auth_callback.split)

lemma auth_retry_lost:
  assumes "su_auth_reply_callback s = AC_User cb" "body cb = [(pw, AC_User cb')]"
  shows "su_auth_reply_callback (reentrant_auth_receive body r s) = AC_Null \<and>
    su_password (reentrant_auth_receive body r s) = pw \<and>
    cn_buffer (su_client (reentrant_auth_receive body r s)) =
      cn_buffer (su_client s) @ build_command [''AUTH'', pw]"
  using assms by (simp add: reentrant_auth_receive_def su_auth_def su_event_def conn_send_def)

section \<open>Client callbacks\<close>

text \<open>The receive handler with a callback that sends: no mutex is held.\<close>

definition reentrant_client_receive ::
  "('cb \<Rightarrow> (string list \<times> 'cb client_callback) list) \<Rightarrow> reply \<Rightarrow> ('t, 'cb) client \<Rightarrow> ('t, 'cb) client"
where
  "reentrant_client_receive body r s =
     (let (request, s1) = client_next_request s;
          calls = (case request of
              Some q \<Rightarrow> (case cr_callback q of CC_User cb \<Rightarrow> body cb | _ \<Rightarrow> [])
            | None \<Rightarrow> []);
          s2 = (case request of None \<Rightarrow> s1 | Some q \<Rightarrow> run_callback (cr_callback q) r s1);
          s3 = fold (\<lambda>(ws, cb). client_send ws cb) calls s2
      in s3\<lparr>cl_callbacks_running := cl_callbacks_running s3 - 1\<rparr>)"

lemma fold_client_send:
  "cl_commands (fold (\<lambda>(ws, cb). client_send ws cb) calls s) =
    cl_commands s @ map (\<lambda>(ws, cb). \<lparr>cr_command = ws, cr_callback = cb\<rparr>) calls"
  "cl_client (fold (\<lambda>(ws, cb). client_send ws cb) calls s) =
    fold conn_send (map fst calls) (cl_client s)"
  "cl_callbacks_running (fold (\<lambda>(ws, cb). client_send ws cb) calls s) = cl_callbacks_running s"
  "cl_events (fold (\<lambda>(ws, cb). client_send ws cb) calls s) = cl_events s"
  by (induction calls arbitrary: s) (auto simp: client_send_def unprotected_send_def)

section \<open>Properties\<close>

text \<open>C32: what message callbacks do to the mutex their thread holds. Called for a message on a
  channel, a callback can subscribe to and unsubscribe from patterns, which takes effect at
  once; if it calls \<open>subscribe\<close> or \<open>unsubscribe\<close>, on any channel, it locks the mutex its thread
  holds. Called for a message on a pattern the two kinds change places. This is about the
  thread of the callback alone: beside a disconnection handler in another thread a pattern's
  callback that subscribes to a channel can block (\<open>callbacks_can_deadlock\<close> in the theory
  Locks).\<close>

theorem callback_must_not_change_its_kind:
  assumes "fst (subscriptions_of s) c = Some h" "ch_subscribe_callback h = Some cb"
    and "snd (subscriptions_of s) p = Some h'" "ch_subscribe_callback h' = Some cb'"
  shows "((\<forall>op \<in> set (body (SU_Message cb c m)). op_mutex op = Patterns_Mutex) \<longrightarrow>
      reentrant_receive body
        (reply_array [reply_string ''message'' t1, reply_string c t2, reply_string m t3]) s =
      (fold run_subscription (body (SU_Message cb c m)) (su_event (SU_Message cb c m) s), Inr ())) \<and>
    ((\<exists>op \<in> set (body (SU_Message cb c m)). op_mutex op = Channels_Mutex) \<longrightarrow>
      snd (reentrant_receive body
        (reply_array [reply_string ''message'' t1, reply_string c t2, reply_string m t3]) s) =
      Inl (Undefined_Behaviour Mutex_Relocked)) \<and>
    ((\<forall>op \<in> set (body (SU_Message cb' c m)). op_mutex op = Channels_Mutex) \<longrightarrow>
      reentrant_receive body (reply_array
        [reply_string ''pmessage'' t1, reply_string p t2, reply_string c t3, reply_string m t4]) s =
      (fold run_subscription (body (SU_Message cb' c m)) (su_event (SU_Message cb' c m) s), Inr ())) \<and>
    ((\<exists>op \<in> set (body (SU_Message cb' c m)). op_mutex op = Patterns_Mutex) \<longrightarrow>
      snd (reentrant_receive body (reply_array
        [reply_string ''pmessage'' t1, reply_string p t2, reply_string c t3, reply_string m t4]) s) =
      Inl (Undefined_Behaviour Mutex_Relocked))"
  using run_body_free [of "body (SU_Message cb c m)" "[Channels_Mutex]"]
    run_body_free [of "body (SU_Message cb' c m)" "[Patterns_Mutex]"]
    run_body_relocks [of _ "body (SU_Message cb c m)" "[Channels_Mutex]"]
    run_body_relocks [of _ "body (SU_Message cb' c m)" "[Patterns_Mutex]"]
  by (auto simp: reentrant_message [OF assms(1,2)] reentrant_pmessage [OF assms(3,4)])

theorem callback_must_not_change_its_kind_witness:
  "snd (reentrant_receive (\<lambda>_. [Unsubscribe ''a''])
      (reply_array [reply_string ''message'' String_bulk_string, reply_string ''a'' String_bulk_string,
        reply_string ''hi'' String_bulk_string])
      (psubscribe ''x*'' (Some (2::nat)) None (subscribe ''a'' (Some 1) None (subscriber_init () ())))) =
    Inl (Undefined_Behaviour Mutex_Relocked)"
proof -
  let ?s = "psubscribe ''x*'' (Some (2::nat)) None (subscribe ''a'' (Some 1) None (subscriber_init () ()))"
  have "fst (subscriptions_of ?s) ''a'' =
      Some \<lparr>ch_subscribe_callback = Some 1, ch_acknowledgement_callback = None\<rparr>"
    "snd (subscriptions_of ?s) ''x*'' =
      Some \<lparr>ch_subscribe_callback = Some 2, ch_acknowledgement_callback = None\<rparr>"
    by (simp_all add: subscriptions_of_def psubscribe_def subscribe_def unprotected_subscribe_def
        unprotected_psubscribe_def subscriber_init_def)
  from callback_must_not_change_its_kind [OF this(1) _ this(2)] show ?thesis by simp
qed

text \<open>Callbacks of the client may send. The commands a callback sends go behind all
  pending ones, in the queue and in the buffer, the callback itself is called once, and the
  count of running callbacks is restored.\<close>

lemma client_callback_may_send:
  assumes "cl_commands s = \<lparr>cr_command = ws, cr_callback = CC_User cb\<rparr> # qs"
  shows "cl_commands (reentrant_client_receive body r s) =
      qs @ map (\<lambda>(ws, cb). \<lparr>cr_command = ws, cr_callback = cb\<rparr>) (body cb) \<and>
    cn_buffer (cl_client (reentrant_client_receive body r s)) =
      cn_buffer (cl_client s) @ concat (map (build_command \<circ> fst) (body cb)) \<and>
    cl_events (reentrant_client_receive body r s) = cl_events s @ [CE_Callback cb r] \<and>
    cl_callbacks_running (reentrant_client_receive body r s) = cl_callbacks_running s"
  using assms
  by (simp add: reentrant_client_receive_def client_next_request_def Let_def fold_client_send
      run_callback_def conn_send_all_buffer)

end
