(* ===== verification/Hazards.thy ===== *)
theory Hazards
  imports Subscriber Client_System
begin

text \<open>
  What the client does without its mutex. The destructors of the connection, the sentinel,
  the client and the subscriber (sources/network/redis_connection.cpp 48-51,
  sources/core/sentinel.cpp 43-48, sources/core/client.cpp 47-64,
  sources/core/subscriber.cpp 49-66) do not wait for the detached threads of
  \<open>clear_callbacks\<close>. And \<open>try_commit\<close> (sources/core/client.cpp 211-224) writes, and clears the
  queue when the write throws, in two separate moments (defined in Client_System).
\<close>

section \<open>Destructors\<close>

definition conn_destroy :: "'t tcp_ops \<Rightarrow> 't connection \<Rightarrow> 't connection" where
  "conn_destroy ops c = c\<lparr>cn_client := tcp_disconnect ops True (cn_client c)\<rparr>"

definition sentinel_destroy :: "'t tcp_ops \<Rightarrow> ('t, 'cb) sentinel \<Rightarrow> ('t, 'cb) sentinel" where
  "sentinel_destroy ops s =
     (let s1 = s\<lparr>se_sentinels := []\<rparr>;
          s2 = (if conn_is_connected ops (se_client s1)
                then put_se_client (conn_disconnect ops True (se_client s1)) s1 else s1)
      in put_se_client (conn_destroy ops (se_client s2)) s2)"

text \<open>The body of the destructor, then the members, the sentinel before the connection.\<close>

definition client_destroy :: "'t tcp_ops \<Rightarrow> ('t, 'cb) client \<Rightarrow> ('t, 'cb) client" where
  "client_destroy ops s =
     (let s1 = (if \<not> cl_cancel s then client_cancel_reconnect s else s);
          s2 = (if sentinel_is_connected ops (cl_sentinel s1)
                then s1\<lparr>cl_sentinel := sentinel_disconnect ops True (cl_sentinel s1)\<rparr> else s1);
          s3 = (if conn_is_connected ops (cl_client s2)
                then put_cl_client (conn_disconnect ops True (cl_client s2)) s2 else s2);
          s4 = s3\<lparr>cl_sentinel := sentinel_destroy ops (cl_sentinel s3)\<rparr>
      in put_cl_client (conn_destroy ops (cl_client s4)) s4)"

definition subscriber_destroy :: "'t tcp_ops \<Rightarrow> ('t, 'cb) subscriber \<Rightarrow> ('t, 'cb) subscriber" where
  "subscriber_destroy ops s =
     (let s1 = (if \<not> su_cancel s then su_cancel_reconnect s else s);
          s2 = (if sentinel_is_connected ops (su_sentinel s1)
                then s1\<lparr>su_sentinel := sentinel_disconnect ops True (su_sentinel s1)\<rparr> else s1);
          s3 = (if conn_is_connected ops (su_client s2)
                then put_su_client (conn_disconnect ops True (su_client s2)) s2 else s2);
          s4 = s3\<lparr>su_sentinel := sentinel_destroy ops (su_sentinel s3)\<rparr>
      in put_su_client (conn_destroy ops (su_client s4)) s4)"

lemma destroy_disconnects:
  assumes "\<And>w t. \<not> tcp_is_connected ops (tcp_disconnect ops w t)"
  shows "\<not> conn_is_connected ops (conn_destroy ops c)"
    "\<not> conn_is_connected ops (se_client (sentinel_destroy ops se))"
  using assms by (simp_all add: conn_destroy_def sentinel_destroy_def conn_is_connected_def Let_def)

section \<open>Properties\<close>

text \<open>The destructor of the client cancels the reconnection and closes both connections,
  but the detached threads go on: the requests they still have to answer are those of before,
  and each of their rounds writes the destroyed object's count of running callbacks.\<close>

lemma destructor_outlived:
  assumes "\<And>w t. \<not> tcp_is_connected ops (tcp_disconnect ops w t)"
    and "i < length (cl_workers s)" "cl_workers s ! i = q # qs" "0 < cl_callbacks_running s"
  shows "cl_cancel (client_destroy ops s) \<and>
    \<not> client_is_connected ops (client_destroy ops s) \<and>
    \<not> sentinel_is_connected ops (cl_sentinel (client_destroy ops s)) \<and>
    cl_workers (client_destroy ops s) = cl_workers s \<and>
    cl_callbacks_running (worker_step i (client_destroy ops s)) \<noteq>
      cl_callbacks_running (client_destroy ops s)"
proof -
  have f: "cl_workers (client_destroy ops s) = cl_workers s"
    "cl_callbacks_running (client_destroy ops s) = cl_callbacks_running s"
    by (simp_all add: client_destroy_def Let_def client_cancel_reconnect_def)
  have "cl_cancel (client_destroy ops s)" "\<not> client_is_connected ops (client_destroy ops s)"
    "\<not> sentinel_is_connected ops (cl_sentinel (client_destroy ops s))"
    using assms(1)
    by (simp_all add: client_destroy_def Let_def client_cancel_reconnect_def client_is_connected_def
        sentinel_is_connected_def destroy_disconnects)
  moreover have "cl_callbacks_running (worker_step i (client_destroy ops s)) = cl_callbacks_running s - 1"
    using assms(2,3) f by (simp add: worker_step_def Let_def)
  ultimately show ?thesis using f assms(4) by simp
qed

text \<open>C33: a request submitted while a commit fails loses its callback and keeps its bytes. If
  another thread sends \<open>ws\<close> between the write that throws and the clearing of the queue, its
  request is cleared with the others while its bytes are in the buffer: the next request
  \<open>ws'\<close> is at the head of the queue when the reply to \<open>ws\<close> comes.\<close>

theorem failed_commit_race:
  assumes "try_commit_write ops s = (s1, Inl e)" "is_redis_error e"
    and "s2 = try_commit_handle (Inl e) (client_send ws cb s1)"
    and "s3 = client_send ws' cb' s2"
  shows "cl_commands s2 = [] \<and>
    cn_buffer (cl_client s3) = build_command ws @ build_command ws' \<and>
    cl_commands s3 = [\<lparr>cr_command = ws', cr_callback = cb'\<rparr>]"
  using assms
  by (auto simp: try_commit_write_def try_commit_handle_def conn_commit_def client_send_def
      unprotected_send_def conn_send_def client_clear_callbacks_def split: prod.splits sum.splits)

theorem failed_commit_race_witness:
  "cl_commands (try_commit_handle (Inl (Redis_Error ''not connected''))
      (client_send [''GET'', ''k''] (CC_User (7::nat))
        (fst (try_commit_write flag_ops (client_init False False))))) = []"
proof -
  have "try_commit_write flag_ops (client_init False False :: (bool, nat) client) =
      (fst (try_commit_write flag_ops (client_init False False)), Inl (Redis_Error ''not connected''))"
    by (simp add: try_commit_write_def conn_commit_def flag_ops_def client_init_def connection_init_def)
  from failed_commit_race [OF this _ refl refl] show ?thesis by simp
qed

end
