(* ===== verification/End_To_End.thy ===== *)
theory End_To_End
  imports Client_Calls Alignment
begin

text \<open>
  The whole way: method calls become bytes, a server reads them and answers, its bytes come
  back in packets, and \<open>sync_commit\<close> returns when every callback has been called. The server
  is a function from the words of a command to its reply, a parameter; it reads commands
  with the library's own reader, in the bytes the client has written over its connection so
  far (the TCP client of Alignment records them): what was not written is not answered.
\<close>

section \<open>A server\<close>

definition command_of_reply :: "reply \<Rightarrow> string list" where
  "command_of_reply r =
     (case as_array r of
        Inl e \<Rightarrow> []
      | Inr rows \<Rightarrow> map (\<lambda>row. case as_string row of Inl e \<Rightarrow> [] | Inr w \<Rightarrow> w) rows)"

definition serve :: "(string list \<Rightarrow> resp) \<Rightarrow> string \<Rightarrow> string" where
  "serve respond bytes =
     concat (map (encode \<circ> respond \<circ> command_of_reply)
       (rb_available_replies (fst (rb_append reply_builder_init bytes))))"

lemma command_of_reply_command: "command_of_reply (reply_of (Array (map Bulk ws))) = ws"
  by (simp add: command_of_reply_def reply_array_def reply_string_def observer_defs comp_def)

lemma serve_commands:
  assumes "list_all command_fits cmds"
  shows "serve respond (concat (map build_command cmds)) = concat (map encode (map respond cmds))"
  using pipeline_decode [OF assms, of "[concat (map build_command cmds)]"]
  by (simp add: serve_def comp_def command_of_reply_command del: reply_of.simps
      split: prod.splits sum.splits)

section \<open>The client's handler on many replies\<close>

definition reply_events :: "'cb command_request list \<Rightarrow> reply list \<Rightarrow> 'cb client_event list" where
  "reply_events qs rs = concat (map2 (\<lambda>q r. reply_event (cr_callback q) r) qs rs)"

lemma client_receive_handler_request:
  assumes "cl_commands s = q # qs"
  shows "client_receive_handler r s =
    (s\<lparr>cl_commands := qs, cl_events := cl_events s @ reply_event (cr_callback q) r\<rparr>, Inr ())"
  using assms
  by (cases s) (simp add: client_receive_handler_def client_next_request_def client_finish_request_def
      run_callback_event)

lemma client_run_replies:
  "length rs \<le> length (cl_commands s) \<Longrightarrow>
   run_replies client_receive_handler rs s =
    (s\<lparr>cl_commands := drop (length rs) (cl_commands s),
       cl_events := cl_events s @ reply_events (cl_commands s) rs\<rparr>, Inr ())"
proof (induction rs arbitrary: s)
  case Nil
  then show ?case by (simp add: reply_events_def)
next
  case (Cons r rs)
  then obtain q qs where q: "cl_commands s = q # qs" by (cases "cl_commands s") auto
  show ?case
    using Cons.IH [of "s\<lparr>cl_commands := qs, cl_events := cl_events s @ reply_event (cr_callback q) r\<rparr>"]
      Cons.prems q
    by (simp add: client_receive_handler_request [OF q] reply_events_def)
qed

lemma run_events_map: "run_events handle (map f evs) s = run_events (\<lambda>ev. handle (f ev)) evs s"
  by (induction evs arbitrary: s) (auto split: option.splits sum.splits prod.splits)

abbreviation network_packets :: "string list \<Rightarrow> thread_event list" where
  "network_packets packets \<equiv> map (\<lambda>p. From_Network (Net_Read (packet p))) packets"

text \<open>The packets of the replies to the oldest requests, whole or with a reply begun.\<close>

lemma run_events_packets:
  "run_events (client_thread_event ops env) (network_packets packets) s =
    run_events (\<lambda>res. tcp_client_receive_handler ops cl_client put_cl_client client_receive_handler
      (client_disconnection_handler ops env) res) (map packet packets) s"
proof -
  have h: "client_thread_event ops env (From_Network (Net_Read (packet p))) s' =
      tcp_client_receive_handler ops cl_client put_cl_client client_receive_handler
        (client_disconnection_handler ops env) (packet p) s'" for p and s' :: "('a, 'b) client"
    by simp
  show ?thesis unfolding run_events_map h ..
qed

lemma client_packets_keeping:
  assumes "\<And>n t. f (fst (tcp_async_read ops n t)) = f t"
    and "reads_throw ops" "cn_reply_callback (cl_client s)" "rb_available_replies (cn_builder (cl_client s)) = []"
    and "rb_append_all (cn_builder (cl_client s)) packets = (rb, Inr u)"
    and "length (rb_available_replies rb) \<le> length (cl_commands s)"
  shows "\<exists>t. f t = f (cn_client (cl_client s)) \<and>
    run_events (client_thread_event ops env) (network_packets packets) s =
    Some (s\<lparr>cl_client := (cl_client s)\<lparr>cn_client := t, cn_builder := rb\<lparr>rb_available_replies := []\<rparr>\<rparr>,
      cl_commands := drop (length (rb_available_replies rb)) (cl_commands s),
      cl_events := cl_events s @ reply_events (cl_commands s) (rb_available_replies rb)\<rparr>, Inr ())"
proof -
  obtain t where t: "f t = f (cn_client (cl_client s))"
    "run_events (\<lambda>res. tcp_client_receive_handler ops cl_client put_cl_client
      client_receive_handler (client_disconnection_handler ops env) res) (map packet packets) s =
    Some (put_cl_client ((cl_client s)\<lparr>cn_client := t, cn_builder := rb\<lparr>rb_available_replies := []\<rparr>\<rparr>)
      (s\<lparr>cl_commands := drop (length (rb_available_replies rb)) (cl_commands s),
         cl_events := cl_events s @ reply_events (cl_commands s) (rb_available_replies rb)\<rparr>), Inr ())"
    using client_quiet.receive_packets_keeping [where f = f, OF assms(1-5) client_run_replies [OF assms(6)]]
    by blast
  show ?thesis unfolding run_events_packets using t by (cases s) auto
qed

lemmas client_packets = client_packets_keeping [where f = "\<lambda>_. ()", simplified]

text \<open>Waiting for as many replies as there are requests.\<close>

lemma client_wait:
  assumes "reads_throw ops" "cn_reply_callback (cl_client s)" "cn_builder (cl_client s) = reply_builder_init"
    and "cl_callbacks_running s = 0" "list_all sendable rs" "length rs = length (cl_commands s)"
    and "concat packets = concat (map encode rs)"
  shows "\<exists>c. wait_until sync_ready (client_thread_event ops env) (network_packets packets) s =
    Some (s\<lparr>cl_client := c, cl_commands := [],
      cl_events := cl_events s @ reply_events (cl_commands s) (map reply_of rs)\<rparr>, Inr ())"
proof -
  let ?s' = "s\<lparr>cl_commands := [], cl_events := cl_events s @ reply_events (cl_commands s) (map reply_of rs)\<rparr>"
  have "\<exists>c. wait_until sync_ready (client_thread_event ops env) (network_packets packets) s =
      Some (put_cl_client c ?s', Inr ())"
  proof (rule client_quiet.wait_for_replies [where ready = sync_ready and
        ev = "\<lambda>p. From_Network (Net_Read (packet p))" and step = "client_thread_event ops env" and
        on_disconnection = "client_disconnection_handler ops env", OF assms(1-3,5,7)])
    show "run_replies client_receive_handler (map reply_of rs) s = (?s', Inr ())"
      using client_run_replies [of "map reply_of rs" s] assms(6) by simp
    show "sync_ready (put_cl_client c ?s')" for c using assms(4) by (simp add: sync_ready_def)
    fix k s'' c
    assume k: "k < length rs"
      "run_replies client_receive_handler (map reply_of (take k rs)) s = (s'', Inr ())"
    then have "cl_commands s'' = drop k (cl_commands s)"
      using client_run_replies [of "map reply_of (take k rs)" s] assms(6) by auto
    then show "\<not> sync_ready (put_cl_client c s'')" using k(1) assms(6) by (simp add: sync_ready_def)
  qed simp
  then obtain c where "wait_until sync_ready (client_thread_event ops env) (network_packets packets) s =
      Some (put_cl_client c ?s', Inr ())" ..
  then show ?thesis by (cases s) auto
qed

section \<open>A server that answers what was written\<close>

text \<open>A packet is a stretch of the server's answers to all that was written over the present
  connection: where it starts and its size. The network delivers the stretches one behind
  the other; if the answers do not reach that far yet, the packet is short or empty.\<close>

definition server_sends ::
  "(string list \<Rightarrow> resp) \<Rightarrow> nat \<times> nat \<Rightarrow> ('t recorded, 'cb) client \<Rightarrow> string"
where
  "server_sends respond stretch c = take (snd stretch) (drop (fst stretch) (serve respond (written c)))"

definition served_event ::
  "(string list \<Rightarrow> resp) \<Rightarrow> 't tcp_ops \<Rightarrow> (int \<Rightarrow> net_event list) \<Rightarrow> nat \<times> nat \<Rightarrow>
   ('t recorded, 'cb) client \<Rightarrow> (('t recorded, 'cb) client \<times> unit result) option"
where
  "served_event respond ops env stretch c =
     client_thread_event (recording ops) env
       (From_Network (Net_Read (packet (server_sends respond stretch c)))) c"

fun stretches :: "nat \<Rightarrow> nat list \<Rightarrow> (nat \<times> nat) list" where
  "stretches start [] = []"
| "stretches start (n # ns) = (start, n) # stretches (start + n) ns"

abbreviation pieces :: "string \<Rightarrow> (nat \<times> nat) list \<Rightarrow> string list" where
  "pieces bytes \<equiv> map (\<lambda>st. take (snd st) (drop (fst st) bytes))"

lemma concat_pieces:
  "concat (pieces bytes (stretches start sizes)) = take (sum_list sizes) (drop start bytes)"
  by (induction sizes arbitrary: start) (simp_all add: take_add add.commute)

lemma reads_throw_recording: "reads_throw ops \<Longrightarrow> reads_throw (recording ops)"
  unfolding reads_throw_def recording_sel by (auto split: prod.splits) (metis snd_conv)

lemma recording_read_keeps: "snd (fst (tcp_async_read (recording ops) n t)) = snd t"
  by (simp add: recording_sel split: prod.splits)

text \<open>While packets that the builder accepts come in, nothing more is written: what the server
  sends are the pieces of its answers to what was written at the start.\<close>

lemma run_replies_returns: "\<exists>s'. run_replies client_receive_handler rs s = (s', Inr ())"
proof (induction rs arbitrary: s)
  case (Cons r rs)
  obtain s1 where h: "client_receive_handler r s = (s1, Inr ())"
    using client_receive_handler_ok [of r s] by (metis prod.collapse)
  obtain s' where "run_replies client_receive_handler rs s1 = (s', Inr ())"
    using Cons.IH by blast
  then show ?case by (simp add: h)
qed simp

lemma packet_keeps_written:
  assumes "reads_throw ops" "cn_reply_callback (cl_client c)" "rb_available_replies (cn_builder (cl_client c)) = []"
    and "rb_append (cn_builder (cl_client c)) p = (rb, Inr u)"
  obtains c' where "client_thread_event (recording ops) env (From_Network (Net_Read (packet p))) c = Some (c', Inr ())"
    "written c' = written c" "cn_reply_callback (cl_client c')"
    "cn_builder (cl_client c') = rb\<lparr>rb_available_replies := []\<rparr>"
proof -
  obtain s1 where r: "run_replies client_receive_handler (rb_available_replies rb) c = (s1, Inr ())"
    using run_replies_returns by blast
  have a: "rb_append_all (cn_builder (cl_client c)) [p] = (rb, Inr ())" using assms(4) by simp
  obtain t where t: "snd t = snd (cn_client (cl_client c))"
    "run_events (client_thread_event (recording ops) env) (network_packets [p]) c =
      Some (put_cl_client ((cl_client c)\<lparr>cn_client := t, cn_builder := rb\<lparr>rb_available_replies := []\<rparr>\<rparr>) s1, Inr ())"
    using client_quiet.receive_packets_keeping [where f = snd, OF recording_read_keeps
        reads_throw_recording [OF assms(1)] assms(2,3) a r]
    unfolding run_events_packets by blast
  then show ?thesis
    using that assms(2) by (auto simp: written_def split: option.splits sum.splits prod.splits)
qed

lemma served_as_packets:
  assumes "reads_throw ops" "cn_reply_callback (cl_client c)" "rb_available_replies (cn_builder (cl_client c)) = []"
    and "rb_append_all (cn_builder (cl_client c)) (pieces (serve respond (written c)) sts) = (rb, Inr u)"
  shows "wait_until ready (served_event respond ops env) sts c =
      wait_until ready (client_thread_event (recording ops) env)
        (network_packets (pieces (serve respond (written c)) sts)) c \<and>
    run_events (served_event respond ops env) sts c =
      run_events (client_thread_event (recording ops) env)
        (network_packets (pieces (serve respond (written c)) sts)) c"
  using assms(2-)
proof (induction sts arbitrary: c rb)
  case (Cons st sts)
  let ?p = "take (snd st) (drop (fst st) (serve respond (written c)))"
  obtain rb1 where a: "rb_append (cn_builder (cl_client c)) ?p = (rb1, Inr ())"
    using Cons.prems(3) by (auto split: prod.splits sum.splits)
  obtain rb2 where d: "rb_append_all (rb1\<lparr>rb_available_replies := []\<rparr>)
      (pieces (serve respond (written c)) sts) = (rb2, Inr u)"
    using rb_append_all_drained [OF a, of "pieces (serve respond (written c)) sts" rb u] Cons.prems(3)
    by auto
  obtain c' where c': "client_thread_event (recording ops) env (From_Network (Net_Read (packet ?p))) c = Some (c', Inr ())"
    "written c' = written c" "cn_reply_callback (cl_client c')"
    "cn_builder (cl_client c') = rb1\<lparr>rb_available_replies := []\<rparr>"
    by (rule packet_keeps_written [OF assms(1) Cons.prems(1,2) a])
  have e: "served_event respond ops env st c = Some (c', Inr ())"
    using c'(1) by (simp add: served_event_def server_sends_def)
  have i: "rb_available_replies (cn_builder (cl_client c')) = []"
    "rb_append_all (cn_builder (cl_client c')) (pieces (serve respond (written c')) sts) = (rb2, Inr u)"
    using d c'(2,4) by simp_all
  show ?case using Cons.IH [OF c'(3) i] e c'(1,2) by (simp del: client_thread_event.simps)
qed simp

section \<open>Calls, commit, replies\<close>

definition idle_client :: "('t, 'cb) client \<Rightarrow> bool" where
  "idle_client s \<longleftrightarrow>
     cl_commands s = [] \<and> cl_callbacks_running s = 0 \<and> \<not> cl_reconnecting s \<and>
     cn_reply_callback (cl_client s) \<and> cn_builder (cl_client s) = reply_builder_init \<and>
     cn_buffer (cl_client s) = []"

definition writes_succeed :: "'t tcp_ops \<Rightarrow> bool" where
  "writes_succeed ops \<longleftrightarrow> (\<forall>bytes t. \<exists>t'. tcp_async_write ops bytes t = (t', Inr ()))"

lemma client_call_keeps [simp]:
  "cl_callbacks_running (client_call c cb s) = cl_callbacks_running s"
  "cl_reconnecting (client_call c cb s) = cl_reconnecting s"
  "cl_events (client_call c cb s) = cl_events s"
  by (simp_all add: client_call_eq client_send_def unprotected_send_def)

lemma client_calls_keep:
  "cl_callbacks_running (fold (\<lambda>(c, cb). client_call c cb) cs s) = cl_callbacks_running s"
  "cl_reconnecting (fold (\<lambda>(c, cb). client_call c cb) cs s) = cl_reconnecting s"
  "cl_events (fold (\<lambda>(c, cb). client_call c cb) cs s) = cl_events s"
  by (induction cs arbitrary: s) (auto split: prod.splits)

text \<open>The bytes the calls leave in the buffer, and what the server makes of them once they are
  written behind commands it has answered.\<close>

definition answers :: "(string list \<Rightarrow> resp) \<Rightarrow> string list list \<Rightarrow> string" where
  "answers respond cmds = concat (map encode (map respond cmds))"

lemma client_calls_buffer:
  assumes "idle_client s"
  shows "cn_buffer (cl_client (fold (\<lambda>(c, cb). client_call c cb) cs s)) =
    concat (map build_command (map (\<lambda>(c, cb). command_words c) cs))"
  using assms by (simp add: client_calls_frame conn_send_all idle_client_def)

lemma served_answers:
  assumes "list_all command_fits old" "list_all command_fits cmds"
    and "length (answers respond cmds) \<le> sum_list sizes"
  shows "concat (pieces (serve respond (concat (map build_command (old @ cmds))))
      (stretches (length (answers respond old)) sizes)) = answers respond cmds"
proof -
  have "serve respond (concat (map build_command (old @ cmds))) = answers respond old @ answers respond cmds"
    using serve_commands [of "old @ cmds" respond] assms(1,2) by (simp add: answers_def)
  then show ?thesis unfolding concat_pieces using assms(3) by simp
qed

lemma reply_events_calls:
  "reply_events (map (\<lambda>(c, cb). \<lparr>cr_command = w c, cr_callback = cb\<rparr>) cs) (map (\<lambda>(c, cb). f c) cs) =
    concat (map (\<lambda>(c, cb). reply_event cb (f c)) cs)"
  by (induction cs) (auto simp: reply_events_def)

lemma sync_commit_serves:
  assumes "idle_client s" "list_all (\<lambda>(c, cb). command_fits (command_words c)) cs"
    and "written s = concat (map build_command old)" "list_all command_fits old"
    and "\<And>ws. sendable (respond ws)" "writes_succeed ops" "reads_throw ops"
    and "length (answers respond (map (\<lambda>(c, cb). command_words c) cs)) \<le> sum_list sizes"
  shows "\<exists>s'. client_sync_commit_by (served_event respond ops env) (recording ops)
      (stretches (length (answers respond old)) sizes) (fold (\<lambda>(c, cb). client_call c cb) cs s) =
      Some (s', Inr ()) \<and>
    cl_events s' = cl_events s @
      concat (map (\<lambda>(c, cb). reply_event cb (reply_of (respond (command_words c)))) cs) \<and>
    cl_commands s' = [] \<and> cl_callbacks_running s' = 0"
proof -
  let ?s = "fold (\<lambda>(c, cb). client_call c cb) cs s"
  let ?ws = "map (\<lambda>(c, cb). command_words c) cs"
  let ?rs = "map respond ?ws"
  let ?sts = "stretches (length (answers respond old)) sizes"
  obtain t where t: "tcp_async_write ops (cn_buffer (cl_client ?s)) (fst (cn_client (cl_client ?s))) = (t, Inr ())"
    using assms(6) unfolding writes_succeed_def by blast
  let ?w = "written ?s @ cn_buffer (cl_client ?s)"
  let ?c = "(cl_client ?s)\<lparr>cn_client := (t, epoch ?s, ?w), cn_buffer := []\<rparr>"
  let ?s1 = "put_cl_client ?c ?s"
  have cm: "client_try_commit (recording ops) ?s = (?s1, Inr ())"
    using t by (simp add: client_try_commit_def conn_commit_def recording_sel written_def epoch_def)
  have q: "cl_commands ?s1 = map (\<lambda>(c, cb). \<lparr>cr_command = command_words c, cr_callback = cb\<rparr>) cs"
    using assms(1) by (simp add: client_calls_frame idle_client_def)
  have c: "cn_reply_callback ?c" "cn_builder ?c = reply_builder_init"
    using assms(1) by (simp_all add: client_calls_frame conn_send_all idle_client_def)
  have "written ?s = written s" by (simp add: written_def client_calls_frame conn_send_all)
  then have w1: "written ?s1 = concat (map build_command (old @ ?ws))"
    using assms(3) client_calls_buffer [OF assms(1)] by (simp add: written_def)
  let ?packets = "pieces (serve respond (written ?s1)) ?sts"
  have fits: "list_all command_fits ?ws" using assms(2) by (auto simp: list_all_iff)
  have p: "concat ?packets = concat (map encode ?rs)"
    unfolding w1 using served_answers [OF assms(4) fits assms(8)] by (simp add: answers_def)
  have sd: "list_all sendable ?rs" using assms(5) by (auto simp: list_all_iff)
  have len: "length ?rs = length (cl_commands ?s1)" unfolding q by simp
  have run: "cl_callbacks_running ?s1 = 0" "\<not> cl_reconnecting ?s"
    using assms(1) by (simp_all add: client_calls_keep idle_client_def)
  note reads = reads_throw_recording [OF assms(7)]
  have "rb_append_all (cn_builder (cl_client ?s1)) ?packets =
      (reply_builder_init\<lparr>rb_available_replies := map reply_of ?rs\<rparr>, Inr ())"
    using rb_append_all_decode [OF sd p] c(2) by simp
  then have same: "wait_until sync_ready (served_event respond ops env) ?sts ?s1 =
      wait_until sync_ready (client_thread_event (recording ops) env) (network_packets ?packets) ?s1"
    using served_as_packets [OF assms(7), of ?s1] c by (simp add: reply_builder_init_def)
  obtain c' where w: "wait_until sync_ready (client_thread_event (recording ops) env) (network_packets ?packets) ?s1 =
      Some (?s1\<lparr>cl_client := c', cl_commands := [],
        cl_events := cl_events ?s1 @ reply_events (cl_commands ?s1) (map reply_of ?rs)\<rparr>, Inr ())"
    using client_wait [of "recording ops" ?s1, OF reads _ _ run(1) sd len p] c by auto
  have m: "map reply_of ?rs = map (\<lambda>(c, cb). reply_of (respond (command_words c))) cs"
    by (simp add: case_prod_unfold)
  have "cl_events ?s1 @ reply_events (cl_commands ?s1) (map reply_of ?rs) = cl_events s @
      concat (map (\<lambda>(c, cb). reply_event cb (reply_of (respond (command_words c)))) cs)"
    unfolding q m reply_events_calls by (simp add: client_calls_keep)
  then show ?thesis
    using w run same by (simp add: client_sync_commit_by_def cm)
qed

section \<open>Futures\<close>

primrec future_calls ::
  "command list \<Rightarrow> nat \<times> ('t, 'u future_callback) client \<Rightarrow>
   nat list \<times> nat \<times> ('t, 'u future_callback) client"
where
  "future_calls [] st = ([], st)"
| "future_calls (c # cs) st =
     (case future_call c st of (p, st') \<Rightarrow> case future_calls cs st' of (ps, st'') \<Rightarrow> (p # ps, st''))"

lemma upt_length_Cons: "[n..<n + length (c # cs)] = n # [Suc n..<Suc n + length cs]"
  by (subst upt_conv_Cons) simp_all

lemma future_calls_eq:
  "future_calls cs (n, s) =
    ([n..<n + length cs], n + length cs,
     fold (\<lambda>(c, cb). client_call c cb) (zip cs (map (CC_User \<circ> FC_Promise) [n..<n + length cs])) s)"
proof (induction cs arbitrary: n s)
  case (Cons c cs)
  then show ?case unfolding upt_length_Cons by (simp add: Cons [of "Suc n"] future_call_eq exec_cmd_def)
qed simp

text \<open>The values a list of answers gives to consecutive promises.\<close>

lemma promise_values_answers:
  assumes "p < length cs"
  shows "concat (map (promise_value (n + p))
      (concat (map (\<lambda>(c, cb). reply_event cb (f c)) (zip cs (map (CC_User \<circ> FC_Promise) [n..<n + length cs]))))) =
    [f (cs ! p)]"
  using assms
proof (induction cs arbitrary: n p)
  case (Cons c cs)
  have other: "concat (map (promise_value n)
      (concat (map (\<lambda>(c, cb). reply_event cb (f c)) (zip ds (map (CC_User \<circ> FC_Promise) ps))))) = []"
    if "n \<notin> set ps" for ds :: "'a list" and ps
    using that by (induction ds ps rule: list_induct2') auto
  show ?case
  proof (cases p)
    case 0
    have "concat (map (promise_value n) (concat (map (\<lambda>(c, cb). reply_event cb (f c))
        (zip cs (map (CC_User \<circ> FC_Promise) [Suc n..<Suc n + length cs]))))) = []"
      by (rule other) (simp del: upt_Suc)
    then show ?thesis
      unfolding 0 upt_length_Cons by (auto simp: comp_def simp del: upt_Suc concat_eq_Nil_conv)
  next
    case (Suc q)
    then show ?thesis using Cons.IH [of q "Suc n"] Cons.prems unfolding upt_length_Cons by simp
  qed
qed simp

section \<open>Properties\<close>

text \<open>C1: from method calls to answers. On an idle connected client, whose earlier commands have
  all been answered, call any methods with any arguments and callbacks, then \<open>sync_commit\<close>.
  The server reads the bytes the client has written and answers each command as it likes; its
  bytes come in packets cut anywhere, until all are there. Then \<open>sync_commit\<close> returns, each
  callback has been called once, in the order of the calls, with the server's answer to its
  own command, and nothing is pending.\<close>

theorem sync_commit_end_to_end:
  assumes "idle_client s" "list_all (\<lambda>(c, cb). command_fits (command_words c)) cs"
    and "written s = concat (map build_command old)" "list_all command_fits old"
    and "\<And>ws. sendable (respond ws)" "writes_succeed ops" "reads_throw ops"
    and "length (answers respond (map (\<lambda>(c, cb). command_words c) cs)) \<le> sum_list sizes"
  shows "\<exists>s'. client_sync_commit_by (served_event respond ops env) (recording ops)
      (stretches (length (answers respond old)) sizes) (fold (\<lambda>(c, cb). client_call c cb) cs s) =
      Some (s', Inr ()) \<and>
    cl_events s' = cl_events s @
      concat (map (\<lambda>(c, cb). reply_event cb (reply_of (respond (command_words c)))) cs) \<and>
    cl_commands s' = [] \<and> cl_callbacks_running s' = 0"
  by (rule sync_commit_serves [OF assms])

text \<open>Two commands on a fresh connection, and a server that answers with the last word; its
  answers come one byte at a time.\<close>

abbreviation last_word :: "string list \<Rightarrow> resp" where
  "last_word ws \<equiv> (if length (last ws) < 9 then Bulk (last ws) else Null_Bulk)"

theorem sync_commit_end_to_end_witness:
  "\<exists>s' :: (string recorded, nat) client. \<exists>s sizes.
    client_sync_commit_by (served_event last_word tape_ops (\<lambda>_. [])) (recording tape_ops)
      (stretches 0 sizes)
      (client_call (String_Client (C_append ''k'' ''v'')) (CC_User 1)
        (client_call (Get_Hash (C_get ''k'')) (CC_User 2) s)) = Some (s', Inr ()) \<and>
    cl_events s' = [CE_Callback 2 (reply_string ''k'' String_bulk_string),
      CE_Callback 1 (reply_string ''v'' String_bulk_string)]"
proof -
  let ?cs = "[(Get_Hash (C_get ''k''), CC_User 2), (String_Client (C_append ''k'' ''v''), CC_User (1::nat))]"
  let ?s = "(client_init ([], 0, []) ([], 0, []) :: (string recorded, nat) client)
    \<lparr>cl_client := (connection_init ([], 0, []))\<lparr>cn_reply_callback := True\<rparr>\<rparr>"
  let ?sizes = "replicate (length (answers last_word (map (\<lambda>(c, cb). command_words c) ?cs))) (1::nat)"
  have i: "idle_client ?s" "written ?s = concat (map build_command [])" "list_all command_fits []"
    by (simp_all add: idle_client_def client_init_def connection_init_def written_def)
  have f: "list_all (\<lambda>(c, cb). command_fits (command_words c)) ?cs" by (simp add: command_fits_def)
  have r: "sendable (last_word ws)" for ws by simp
  have o: "writes_succeed tape_ops" "reads_throw tape_ops"
    by (simp_all add: writes_succeed_def reads_throw_def tape_ops_def)
  have "length (answers last_word (map (\<lambda>(c, cb). command_words c) ?cs)) \<le> sum_list ?sizes"
    by (simp add: sum_list_replicate)
  from sync_commit_end_to_end [where respond = last_word, OF i(1) f i(2,3) r o this, of "\<lambda>_. []"] obtain s' where
    "client_sync_commit_by (served_event last_word tape_ops (\<lambda>_. [])) (recording tape_ops)
        (stretches (length (answers last_word [])) ?sizes)
        (fold (\<lambda>(c, cb). client_call c cb) ?cs ?s) = Some (s', Inr ())"
    "cl_events s' = cl_events ?s @
      concat (map (\<lambda>(c, cb). reply_event cb (reply_of (last_word (command_words c)))) ?cs)"
    by blast
  moreover have "cl_events ?s @
      concat (map (\<lambda>(c, cb). reply_event cb (reply_of (last_word (command_words c)))) ?cs) =
    [CE_Callback 2 (reply_string ''k'' String_bulk_string), CE_Callback 1 (reply_string ''v'' String_bulk_string)]"
    by (simp add: client_init_def)
  moreover have "length (answers last_word []) = 0" by (simp add: answers_def)
  ultimately show ?thesis by (intro exI conjI) (simp_all only: fold_simps prod.case)
qed

text \<open>C16: futures hold the answers. The same for the methods that return futures: after
  \<open>sync_commit\<close> each future handed out has exactly one value, the answer the server gave to the
  command it was returned for, as it read it in the bytes written.\<close>

theorem futures_hold_answers:
  fixes s :: "('t recorded, 'u future_callback) client"
  assumes "idle_client s" "list_all (\<lambda>c. command_fits (command_words c)) cs"
    and "written s = concat (map build_command old)" "list_all command_fits old"
    and "\<And>ws. sendable (respond ws)" "writes_succeed ops" "reads_throw ops"
    and "\<And>p. n \<le> p \<Longrightarrow> promise_values p s = []"
    and "future_calls cs (n, s) = (ps, n', s1)"
    and "length (answers respond (map command_words cs)) \<le> sum_list sizes"
  shows "\<exists>s'. client_sync_commit_by (served_event respond ops env) (recording ops)
      (stretches (length (answers respond old)) sizes) s1 = Some (s', Inr ()) \<and>
    map (\<lambda>p. promise_values p s') ps = map (\<lambda>c. [reply_of (respond (command_words c))]) cs"
proof -
  let ?cs = "zip cs (map (CC_User \<circ> FC_Promise) [n..<n + length cs])
    :: (command \<times> 'u future_callback client_callback) list"
  have "(ps, n', s1) = ([n..<n + length cs], n + length cs, fold (\<lambda>(c, cb). client_call c cb) ?cs s)"
    using assms(9) unfolding future_calls_eq by (rule sym)
  then have f: "ps = [n..<n + length cs]" "s1 = fold (\<lambda>(c, cb). client_call c cb) ?cs s"
    by (simp_all only: prod.inject)
  have fits: "list_all (\<lambda>(c, cb). command_fits (command_words c)) ?cs"
    using assms(2) by (auto simp: list_all_iff dest: set_zip_leftD)
  have m: "map fst ?cs = cs" by simp
  have "map (\<lambda>(c, cb). command_words c) ?cs = map command_words (map fst ?cs)"
    by (simp only: map_map comp_def case_prod_unfold)
  then have "map (\<lambda>(c, cb). command_words c) ?cs = map command_words cs"
    by (simp only: m)
  then have sizes: "length (answers respond (map (\<lambda>(c, cb). command_words c) ?cs)) \<le> sum_list sizes"
    using assms(10) by (simp only:)
  obtain s' where s': "client_sync_commit_by (served_event respond ops env) (recording ops)
      (stretches (length (answers respond old)) sizes) s1 = Some (s', Inr ())"
    "cl_events s' = cl_events s @
      concat (map (\<lambda>(c, cb). reply_event cb (reply_of (respond (command_words c)))) ?cs)"
    using sync_commit_serves [OF assms(1) fits assms(3-7) sizes] f(2) by blast
  have "promise_values (n + i) s' = [reply_of (respond (command_words (cs ! i)))]" if "i < length cs" for i
  proof -
    have "promise_values (n + i) s' = promise_values (n + i) s @ concat (map (promise_value (n + i))
        (concat (map (\<lambda>(c, cb). reply_event cb (reply_of (respond (command_words c)))) ?cs)))"
      unfolding promise_values_def s'(2) by simp
    then show ?thesis
      unfolding promise_values_answers [OF that] using assms(8) [of "n + i"] by simp
  qed
  then have "map (\<lambda>p. promise_values p s') ps = map (\<lambda>c. [reply_of (respond (command_words c))]) cs"
    by (intro nth_equalityI) (simp_all add: f(1))
  then show ?thesis using s'(1) by blast
qed

theorem futures_hold_answers_witness:
  "\<exists>s' :: (string recorded, nat future_callback) client. \<exists>s sizes.
    client_sync_commit_by (served_event last_word tape_ops (\<lambda>_. [])) (recording tape_ops) (stretches 0 sizes)
      (snd (snd (future_calls [Get_Hash (C_get ''k''), String_Client (C_append ''k'' ''v'')] (0, s)))) =
      Some (s', Inr ()) \<and>
    promise_values 0 s' = [reply_string ''k'' String_bulk_string] \<and>
    promise_values 1 s' = [reply_string ''v'' String_bulk_string]"
proof -
  let ?cs = "[Get_Hash (C_get ''k''), String_Client (C_append ''k'' ''v'')]"
  let ?s = "(client_init ([], 0, []) ([], 0, []))
    \<lparr>cl_client := (connection_init ([], 0, []))\<lparr>cn_reply_callback := True\<rparr>\<rparr>
    :: (string recorded, nat future_callback) client"
  let ?s1 = "snd (snd (future_calls ?cs (0, ?s)))"
  let ?sizes = "[length (answers last_word (map command_words ?cs))]"
  have i: "idle_client ?s" "written ?s = concat (map build_command [])" "list_all command_fits []"
    by (simp_all add: idle_client_def client_init_def connection_init_def written_def)
  have f: "list_all (\<lambda>c. command_fits (command_words c)) ?cs" by (simp add: command_fits_def)
  have r: "sendable (last_word ws)" for ws by simp
  have o: "writes_succeed tape_ops" "reads_throw tape_ops"
    by (simp_all add: writes_succeed_def reads_throw_def tape_ops_def)
  have v: "promise_values p ?s = []" for p by (simp add: promise_values_def client_init_def)
  have fc: "future_calls ?cs (0, ?s) = ([0, 1], 2, ?s1)"
    by (simp add: future_call_eq exec_cmd_def)
  have "length (answers last_word (map command_words ?cs)) \<le> sum_list ?sizes" by simp
  from futures_hold_answers [where respond = last_word, OF i(1) f i(2,3) r o v fc this, of "\<lambda>_. []"]
  obtain s' where
    "client_sync_commit_by (served_event last_word tape_ops (\<lambda>_. [])) (recording tape_ops)
      (stretches (length (answers last_word [])) ?sizes) ?s1 = Some (s', Inr ())"
    "map (\<lambda>p. promise_values p s') [0, 1] = map (\<lambda>c. [reply_of (last_word (command_words c))]) ?cs"
    by blast
  moreover have "length (answers last_word []) = 0" by (simp add: answers_def)
  ultimately show ?thesis by (intro exI conjI) (simp only: | simp)+
qed

end
