(* ===== verification/Survival.thy ===== *)
theory Survival
  imports End_To_End
begin

text \<open>
  The same over two connections: the first is lost in the middle of the replies, perhaps
  of one reply, the client reconnects by itself, and the requests without an answer are
  answered over the second.
\<close>

section \<open>The calls of callbacks among the events\<close>

fun is_call :: "'cb client_event \<Rightarrow> bool" where
  "is_call (CE_Callback cb r) = True"
| "is_call (CE_Connect h p st) = False"

definition calls_of :: "('t, 'cb) client \<Rightarrow> 'cb client_event list" where
  "calls_of s = filter is_call (cl_events s)"

lemma calls_of_same: "cl_events s' = cl_events s \<Longrightarrow> calls_of s' = calls_of s"
  by (simp add: calls_of_def)

lemma calls_of_notify [simp]: "calls_of (notify_connect h p st s) = calls_of s"
  by (simp add: calls_of_def notify_connect_def)

lemma filter_reply_event [simp]: "filter is_call (reply_event cb r) = reply_event cb r"
  by (cases cb) simp_all

lemma filter_reply_events [simp]: "filter is_call (reply_events qs rs) = reply_events qs rs"
  by (simp add: reply_events_def filter_concat comp_def case_prod_unfold)

lemma reply_events_append:
  "length qs = length rs \<Longrightarrow> reply_events (qs @ qs') (rs @ rs') = reply_events qs rs @ reply_events qs' rs'"
  by (simp add: reply_events_def)

lemma reply_events_map:
  "reply_events qs (map f qs) = concat (map (\<lambda>q. reply_event (cr_callback q) (f q)) qs)"
  by (induction qs) (simp_all add: reply_events_def)

lemma reply_events_take: "reply_events qs rs = reply_events (take (length rs) qs) rs"
  unfolding reply_events_def by (induction qs rs rule: list_induct2') simp_all

text \<open>What a reconnection keeps besides the queue.\<close>

lemma unprotected_send_keeps [simp]:
  "cl_events (unprotected_send ws cb s) = cl_events s"
  "cl_callbacks_running (unprotected_send ws cb s) = cl_callbacks_running s"
  "cl_reconnecting (unprotected_send ws cb s) = cl_reconnecting s"
  by (simp_all add: unprotected_send_def)

lemma restore_keeps [simp]:
  "cl_events (resend_failed_commands (re_select (re_auth s))) = cl_events s"
  "cl_callbacks_running (resend_failed_commands (re_select (re_auth s))) = cl_callbacks_running s"
  by (simp_all add: resend_failed_commands_eq re_auth_def re_select_def unprotected_auth_def
      unprotected_select_def)

lemma client_connect_calls:
  "client_connect ops h p cc tm mr ri s = (s', r) \<Longrightarrow> calls_of s' = calls_of s"
  by (auto simp: client_connect_def Let_def calls_of_def notify_connect_def
      split: prod.splits sum.splits if_splits)

lemma client_try_commit_keeps:
  "client_try_commit ops s = (s', Inr u) \<Longrightarrow>
    cl_events s' = cl_events s \<and> cl_callbacks_running s' = cl_callbacks_running s"
  by (auto simp: client_try_commit_def split: prod.splits sum.splits)

lemma reconnect_to_server_keeps:
  assumes "reconnect_to_server ops s = (s', Inr u)"
  shows "calls_of s' = calls_of s \<and> cl_callbacks_running s' = cl_callbacks_running s"
proof -
  obtain s1 r where c: "client_connect ops (cl_redis_server s) (cl_redis_port s) (cl_connect_callback s)
      (cl_connect_timeout_msecs s) (cl_max_reconnects s) (cl_reconnect_interval_msecs s) s = (s1, r)"
    by fastforce
  let ?s2 = "resend_failed_commands (re_select (re_auth
    (notify_connect (cl_redis_server s1) (cl_redis_port s1) CS_ok s1)))"
  have k: "calls_of s1 = calls_of s" "cl_callbacks_running s1 = cl_callbacks_running s"
    using client_connect_calls [OF c] client_connect_frame [OF c] by simp_all
  have k2: "calls_of ?s2 = calls_of s1"
    using calls_of_same [of ?s2 "notify_connect (cl_redis_server s1) (cl_redis_port s1) CS_ok s1"] by simp
  show ?thesis
  proof (cases "client_is_connected ops s1")
    case True
    then have "client_try_commit ops ?s2 = (s', Inr u)"
      using assms c by (auto simp: reconnect_to_server_def split: if_splits sum.splits)
    from client_try_commit_keeps [OF this] show ?thesis
      using k k2 calls_of_same [of s' ?s2] by simp
  next
    case False
    then show ?thesis
      using assms c k by (auto simp: reconnect_to_server_def split: if_splits sum.splits)
  qed
qed

section \<open>A reconnection at the first attempt\<close>

definition always_connects :: "'t tcp_ops \<Rightarrow> bool" where
  "always_connects ops \<longleftrightarrow>
     (\<forall>host port tm t. \<exists>t1 t2. tcp_connect ops host port tm t = (t1, Inr ()) \<and>
       tcp_async_read ops read_size (tcp_set_on_disconnection_handler ops t1) = (t2, Inr ()) \<and>
       tcp_is_connected ops t2 \<and>
       (\<forall>bytes. \<exists>t3. tcp_async_write ops bytes t2 = (t3, Inr ()) \<and> tcp_is_connected ops t3))"

text \<open>What the theorem is about: no credentials to restore, a server address, reconnections
  allowed and none under way, no reply being handled.\<close>

definition restorable_client :: "('t, 'cb) client \<Rightarrow> bool" where
  "restorable_client s \<longleftrightarrow>
     cl_password s = [] \<and> cl_database_index s \<le> 0 \<and> cl_master_name s = [] \<and>
     \<not> cl_cancel s \<and> \<not> cl_reconnecting s \<and> (cl_max_reconnects s = -1 \<or> 0 < cl_max_reconnects s) \<and>
     cl_callbacks_running s = 0 \<and> cn_disconnection_handler (cl_client s)"

lemma reconnects_at_once:
  assumes "always_connects ops" "cl_password s = []" "cl_database_index s \<le> 0" "cn_buffer (cl_client s) = []"
  shows "\<exists>s' t. reconnect_to_server ops s = (s', Inr ()) \<and> cl_commands s' = cl_commands s \<and>
    cl_client s' = (cl_client s)\<lparr>cn_client := t, cn_reply_callback := True, cn_disconnection_handler := True\<rparr> \<and>
    tcp_is_connected ops t"
proof -
  obtain t1 t2 where t: "tcp_connect ops (cl_redis_server s) (cl_redis_port s mod 2 ^ 32)
      (cl_connect_timeout_msecs s) (cn_client (cl_client s)) = (t1, Inr ())"
    "tcp_async_read ops read_size (tcp_set_on_disconnection_handler ops t1) = (t2, Inr ())"
    "tcp_is_connected ops t2"
    and w: "\<And>bytes. \<exists>t3. tcp_async_write ops bytes t2 = (t3, Inr ()) \<and> tcp_is_connected ops t3"
    using assms(1) unfolding always_connects_def by metis
  let ?c = "(cl_client s)\<lparr>cn_client := t2, cn_reply_callback := True, cn_disconnection_handler := True\<rparr>"
  have c: "conn_connect ops (cl_redis_server s) (cl_redis_port s) True True (cl_connect_timeout_msecs s)
      (cl_client s) = (?c, Inr ())"
    using t by (simp add: conn_connect_def)
  obtain t3 where t3: "tcp_async_write ops (wire (restored_requests s) @ wire (cl_commands s @ restored_requests s))
      t2 = (t3, Inr ())" "tcp_is_connected ops t3"
    using w by blast
  have r: "restored_requests s = []" using assms(2,3) by (simp add: restored_requests_def)
  obtain s' where "reconnect_to_server ops s = (s', Inr ())" "cl_commands s' = cl_commands s"
    "cl_client s' = ?c\<lparr>cn_client := t3, cn_buffer := []\<rparr>"
    using reconnect_to_server_ok [OF c, of t3] t(3) t3(1) assms(4) r by (auto simp: conn_is_connected_def)
  moreover have "?c\<lparr>cn_client := t3, cn_buffer := []\<rparr> =
      (cl_client s)\<lparr>cn_client := t3, cn_reply_callback := True, cn_disconnection_handler := True\<rparr>"
    using assms(4) by (cases "cl_client s") simp
  ultimately show ?thesis using t3(2) by auto
qed

lemma disconnection_restored:
  assumes "always_connects ops" "restorable_client s" "\<not> tcp_is_connected ops (cn_client (cl_client s))"
    and "cn_buffer (cl_client s) = []"
  shows "\<exists>s' t. client_disconnection_handler ops env s = Some (s', Inr ()) \<and>
    cl_commands s' = cl_commands s \<and> calls_of s' = calls_of s \<and> cl_callbacks_running s' = 0 \<and>
    cl_client s' = (cl_client s)\<lparr>cn_client := t, cn_reply_callback := True, cn_disconnection_handler := True\<rparr> \<and>
    tcp_is_connected ops t"
proof -
  let ?s2 = "notify_connect (cl_redis_server s) (cl_redis_port s) CS_dropped
    (s\<lparr>cl_reconnecting := True, cl_current_reconnect_attempts := 0\<rparr>)"
  let ?s3 = "(sleep_before_next_reconnect_attempt ?s2)\<lparr>cl_current_reconnect_attempts := 1\<rparr>"
  have p: "cl_client ?s3 = cl_client s" "cl_commands ?s3 = cl_commands s" "cl_password ?s3 = []"
    "cl_database_index ?s3 \<le> 0" "cl_master_name ?s3 = []" "calls_of ?s3 = calls_of s"
    "cl_callbacks_running ?s3 = 0"
    using assms(2) calls_of_same [of ?s3 "sleep_before_next_reconnect_attempt ?s2"]
      calls_of_same [of "s\<lparr>cl_reconnecting := True, cl_current_reconnect_attempts := 0\<rparr>" s]
    by (simp_all add: sleep_before_next_reconnect_attempt_def restorable_client_def)
  obtain s4 t where s4: "reconnect_to_server ops ?s3 = (s4, Inr ())" "cl_commands s4 = cl_commands s"
    "cl_client s4 = (cl_client s)\<lparr>cn_client := t, cn_reply_callback := True, cn_disconnection_handler := True\<rparr>"
    "tcp_is_connected ops t"
    using reconnects_at_once [OF assms(1) p(3,4)] p(1,2) assms(4) by auto
  have k: "calls_of s4 = calls_of s" "cl_callbacks_running s4 = 0"
    using reconnect_to_server_keeps [OF s4(1)] p(6,7) by simp_all
  have "should_reconnect ops ?s2"
    using assms(2,3) by (auto simp: should_reconnect_def restorable_client_def client_is_connected_def
        conn_is_connected_def)
  moreover have "reconnect_round ops env ?s2 = Some (s4, Inr ())"
  proof -
    have "cl_current_reconnect_attempts (sleep_before_next_reconnect_attempt ?s2) = 0"
      by (simp add: sleep_before_next_reconnect_attempt_def)
    then show ?thesis using p(5) s4(1) by (simp add: reconnect_round_def client_reconnect_def in_int32_def)
  qed
  moreover have cn: "client_is_connected ops s4"
    using s4(3,4) by (simp add: client_is_connected_def conn_is_connected_def)
  then have "reconnect_loop (should_reconnect ops) (reconnect_round ops env) s4 = Some (s4, Inr ())"
    by (simp add: reconnect_loop.simps [of "should_reconnect ops" _ s4] should_reconnect_def)
  ultimately have "reconnect_loop (should_reconnect ops) (reconnect_round ops env) ?s2 = Some (s4, Inr ())"
    by (simp add: reconnect_loop.simps [of "should_reconnect ops" _ ?s2])
  then have "client_disconnection_handler ops env s = Some (s4\<lparr>cl_reconnecting := False\<rparr>, Inr ())"
    using assms(2) cn by (simp add: client_disconnection_handler_def restorable_client_def Let_def)
  then show ?thesis using s4(2-4) k calls_of_same [of "s4\<lparr>cl_reconnecting := False\<rparr>" s4] by auto
qed

lemma always_connects_recording: "always_connects ops \<Longrightarrow> always_connects (recording ops)"
proof -
  assume a: "always_connects ops"
  show ?thesis
    unfolding always_connects_def
  proof (intro allI)
    fix host port tm and t :: "'a recorded"
    obtain t1 t2 where t: "tcp_connect ops host port tm (fst t) = (t1, Inr ())"
      "tcp_async_read ops read_size (tcp_set_on_disconnection_handler ops t1) = (t2, Inr ())"
      "tcp_is_connected ops t2"
      and w: "\<And>bytes. \<exists>t3. tcp_async_write ops bytes t2 = (t3, Inr ()) \<and> tcp_is_connected ops t3"
      using a unfolding always_connects_def by metis
    have "\<exists>t3. tcp_async_write (recording ops) bytes (t2, Suc (fst (snd t)), []) = (t3, Inr ()) \<and>
        tcp_is_connected (recording ops) t3" for bytes
      using w [of bytes] by (auto simp: recording_sel)
    then show "\<exists>t1 t2. tcp_connect (recording ops) host port tm t = (t1, Inr ()) \<and>
       tcp_async_read (recording ops) read_size (tcp_set_on_disconnection_handler (recording ops) t1) = (t2, Inr ()) \<and>
       tcp_is_connected (recording ops) t2 \<and>
       (\<forall>bytes. \<exists>t3. tcp_async_write (recording ops) bytes t2 = (t3, Inr ()) \<and> tcp_is_connected (recording ops) t3)"
      using t by (intro exI [of _ "(t1, Suc (fst (snd t)), [])"] exI [of _ "(t2, Suc (fst (snd t)), [])"])
        (simp add: recording_sel)
  qed
qed

section \<open>Two connections\<close>

text \<open>The answers to the requests of a queue.\<close>

abbreviation answer_calls ::
  "(string list \<Rightarrow> resp) \<Rightarrow> 'cb command_request list \<Rightarrow> 'cb client_event list"
where
  "answer_calls respond qs \<equiv>
     concat (map (\<lambda>q. reply_event (cr_callback q) (reply_of (respond (cr_command q)))) qs)"

text \<open>The first connection: after any part of the answers to what was written the requests
  they answer are off the queue, and nothing more was written.\<close>

lemma first_connection:
  assumes "reads_throw ops" "aligned s 0" "cn_reply_callback (cl_client s)"
    and "cn_builder (cl_client s) = reply_builder_init" "\<And>ws. sendable (respond ws)"
  obtains k t rb where "rb_available_replies rb = []" "run_events (served_event respond ops env) (stretches 0 sizes) s =
      Some (s\<lparr>cl_client := (cl_client s)\<lparr>cn_client := t, cn_builder := rb\<rparr>, cl_commands := drop k (cl_commands s),
        cl_events := cl_events s @ answer_calls respond (take k (cl_commands s))\<rparr>, Inr ())"
proof -
  let ?qs = "cl_commands s"
  let ?answer = "\<lambda>q. respond (cr_command q)"
  obtain sent buffered where a: "list_all command_fits (sent @ buffered)"
    "written s = concat (map build_command sent)" "sent @ buffered = map cr_command ?qs"
    using assms(2) unfolding aligned_def drop_0 by blast
  have sv: "serve respond (written s) = concat (map encode (map respond sent))"
    unfolding a(2) using a(1) by (intro serve_commands) (simp add: list_all_append)
  let ?ps = "pieces (serve respond (written s)) (stretches 0 sizes)"
  have sd: "list_all sendable (map respond sent)" using assms(5) by (simp add: list_all_iff)
  have "prefix (concat ?ps) (concat (map encode (map respond sent)))"
    unfolding concat_pieces sv by (simp add: take_is_prefix)
  then obtain rb where rb: "rb_append_all reply_builder_init ?ps = (rb, Inr ())"
    "prefix (rb_available_replies rb) (map reply_of (map respond sent))"
    using partial_stream [OF sd, of ?ps] by blast
  let ?k = "length (rb_available_replies rb)"
  have n: "?k \<le> length sent" "length sent \<le> length ?qs"
    using prefix_length_le [OF rb(2)] arg_cong [OF a(3), of length] by simp_all
  have "take ?k sent = take ?k (map cr_command ?qs)"
    using n(1) by (simp add: a(3) [symmetric])
  then have tk: "map respond (take ?k sent) = map ?answer (take ?k ?qs)"
    by (simp add: take_map comp_def)
  have "rb_available_replies rb = map reply_of (map respond (take ?k sent))"
    using rb(2) by (auto simp: prefix_def take_map [symmetric])
  then have k: "rb_available_replies rb = map reply_of (map ?answer (take ?k ?qs))"
    by (simp only: tk)
  have ev: "reply_events ?qs (rb_available_replies rb) = answer_calls respond (take ?k ?qs)"
    using reply_events_take [of ?qs "rb_available_replies rb"] k
      reply_events_map [of "take ?k ?qs" "\<lambda>q. reply_of (?answer q)"] by (simp add: comp_def)
  have av: "rb_available_replies (cn_builder (cl_client s)) = []"
    using assms(4) by (simp add: reply_builder_init_def)
  have "run_events (served_event respond ops env) (stretches 0 sizes) s =
      run_events (client_thread_event (recording ops) env) (network_packets ?ps) s"
    using served_as_packets [OF assms(1,3) av, of respond "stretches 0 sizes" rb "()"] rb(1) assms(4) by simp
  moreover obtain t where "run_events (client_thread_event (recording ops) env) (network_packets ?ps) s =
      Some (s\<lparr>cl_client := (cl_client s)\<lparr>cn_client := t, cn_builder := rb\<lparr>rb_available_replies := []\<rparr>\<rparr>,
      cl_commands := drop ?k ?qs, cl_events := cl_events s @ reply_events ?qs (rb_available_replies rb)\<rparr>, Inr ())"
    using client_packets [OF reads_throw_recording [OF assms(1)] assms(3) av, of ?ps rb env] rb(1)
      assms(4) n by auto
  ultimately show thesis
    using that [of "rb\<lparr>rb_available_replies := []\<rparr>" ?k t] by (simp add: ev)
qed

text \<open>The second: all that is still in the queue was written over it, and is answered.\<close>

lemma second_connection:
  assumes "reads_throw ops" "cn_reply_callback (cl_client s)" "cn_builder (cl_client s) = reply_builder_init"
    and "cl_callbacks_running s = 0" "written s = commands_wire s"
    and "list_all command_fits (map cr_command (cl_commands s))" "\<And>ws. sendable (respond ws)"
    and "length (answers respond (map cr_command (cl_commands s))) \<le> sum_list sizes"
  obtains s' where "wait_until sync_ready (served_event respond ops env) (stretches 0 sizes) s = Some (s', Inr ())"
    "cl_events s' = cl_events s @ answer_calls respond (cl_commands s)"
    "cl_commands s' = []" "cl_callbacks_running s' = 0"
proof -
  let ?qs = "cl_commands s"
  let ?rs = "map respond (map cr_command ?qs)"
  let ?ps = "pieces (serve respond (written s)) (stretches 0 sizes)"
  have sv: "serve respond (written s) = answers respond (map cr_command ?qs)"
    unfolding assms(5) commands_wire_def answers_def by (rule serve_commands [OF assms(6)])
  have p: "concat ?ps = concat (map encode ?rs)"
    unfolding concat_pieces sv using assms(8) by (simp add: answers_def)
  have sd: "list_all sendable ?rs" using assms(7) by (simp add: list_all_iff)
  have av: "rb_available_replies (cn_builder (cl_client s)) = []"
    using assms(3) by (simp add: reply_builder_init_def)
  have "rb_append_all (cn_builder (cl_client s)) ?ps =
      (reply_builder_init\<lparr>rb_available_replies := map reply_of ?rs\<rparr>, Inr ())"
    using rb_append_all_decode [OF sd p] assms(3) by simp
  then have same: "wait_until sync_ready (served_event respond ops env) (stretches 0 sizes) s =
      wait_until sync_ready (client_thread_event (recording ops) env) (network_packets ?ps) s"
    using served_as_packets [OF assms(1,2) av] by blast
  obtain c where w: "wait_until sync_ready (client_thread_event (recording ops) env) (network_packets ?ps) s =
      Some (s\<lparr>cl_client := c, cl_commands := [],
        cl_events := cl_events s @ reply_events ?qs (map reply_of ?rs)\<rparr>, Inr ())"
    using client_wait [OF reads_throw_recording [OF assms(1)] assms(2-4) sd _ p] by auto
  have "reply_events ?qs (map reply_of ?rs) = answer_calls respond ?qs"
    using reply_events_map [of ?qs "\<lambda>q. reply_of (respond (cr_command q))"] by (simp add: comp_def)
  then show thesis
    using that [of "s\<lparr>cl_client := c, cl_commands := [],
        cl_events := cl_events s @ reply_events ?qs (map reply_of ?rs)\<rparr>"] w same assms(4) by simp
qed

text \<open>Between them: the disconnection handler writes the queue again.\<close>

lemma connection_restored:
  assumes "always_connects ops" "restorable_client s" "\<not> tcp_is_connected ops t"
  obtains s' where
    "client_net_event (recording ops) env Net_Disconnected (end_connection t s) = Some (s', Inr ())"
    "cl_commands s' = cl_commands s" "calls_of s' = calls_of s" "cl_callbacks_running s' = 0"
    "written s' = commands_wire s'" "cn_reply_callback (cl_client s')"
    "cn_builder (cl_client s') = rb_reset (cn_builder (cl_client s))"
proof -
  let ?e = "end_connection t s"
  let ?l = "put_cl_client ((cl_client ?e)\<lparr>cn_buffer := [], cn_builder := rb_reset (cn_builder (cl_client ?e))\<rparr>) ?e"
  have l: "restorable_client ?l" "\<not> tcp_is_connected (recording ops) (cn_client (cl_client ?l))"
    "cn_buffer (cl_client ?l) = []" "cl_commands ?l = cl_commands s" "calls_of ?l = calls_of s"
    "cn_builder (cl_client ?l) = rb_reset (cn_builder (cl_client s))"
    using assms(2,3) by (simp_all add: restorable_client_def calls_of_def end_connection_def recording_sel)
  have h: "cn_disconnection_handler (cl_client ?e)"
    using assms(2) by (simp add: restorable_client_def end_connection_def)
  obtain s' t' where s': "client_disconnection_handler (recording ops) env ?l = Some (s', Inr ())"
    "cl_commands s' = cl_commands ?l" "calls_of s' = calls_of ?l" "cl_callbacks_running s' = 0"
    "cl_client s' = (cl_client ?l)\<lparr>cn_client := t', cn_reply_callback := True, cn_disconnection_handler := True\<rparr>"
    "tcp_is_connected (recording ops) t'"
    using disconnection_restored [OF always_connects_recording [OF assms(1)] l(1-3), of env] by blast
  have d: "client_net_event (recording ops) env Net_Disconnected ?e = Some (s', Inr ())"
    using s'(1) h by (simp add: tcp_client_disconnection_handler_def call_disconnection_handler_def Let_def)
  have "client_is_connected (recording ops) s'"
    using s'(5,6) by (simp add: client_is_connected_def conn_is_connected_def)
  then have "written s' = commands_wire s'"
    using lost_recording [OF _ _ assms(3) _ d] assms(2)
    by (simp add: restorable_client_def no_credentials_def)
  then show thesis
    using that d s'(2-5) l(4-6) by simp
qed

lemma survives:
  assumes "reads_throw ops" "always_connects ops" "restorable_client s" "\<not> tcp_is_connected ops t"
    and "aligned s 0" "cn_reply_callback (cl_client s)" "cn_builder (cl_client s) = reply_builder_init"
    and "\<And>ws. sendable (respond ws)"
    and "length (answers respond (map cr_command (cl_commands s))) \<le> sum_list sizes'"
  shows "\<exists>s1 s2 s3. run_events (served_event respond ops env) (stretches 0 sizes) s = Some (s1, Inr ()) \<and>
    client_net_event (recording ops) env Net_Disconnected (end_connection t s1) = Some (s2, Inr ()) \<and>
    wait_until sync_ready (served_event respond ops env) (stretches 0 sizes') s2 = Some (s3, Inr ()) \<and>
    calls_of s3 = calls_of s @ answer_calls respond (cl_commands s) \<and>
    cl_commands s3 = [] \<and> cl_callbacks_running s3 = 0"
proof -
  let ?qs = "cl_commands s"
  obtain k t1 rb where b: "rb_available_replies rb = []" and r1: "run_events (served_event respond ops env) (stretches 0 sizes) s =
      Some (s\<lparr>cl_client := (cl_client s)\<lparr>cn_client := t1, cn_builder := rb\<rparr>, cl_commands := drop k ?qs,
        cl_events := cl_events s @ answer_calls respond (take k ?qs)\<rparr>, Inr ())"
    by (rule first_connection [OF assms(1,5-8), where env = env and sizes = sizes])
  let ?s1 = "s\<lparr>cl_client := (cl_client s)\<lparr>cn_client := t1, cn_builder := rb\<rparr>, cl_commands := drop k ?qs,
    cl_events := cl_events s @ answer_calls respond (take k ?qs)\<rparr>"
  have is_call: "filter is_call (answer_calls respond qs) = answer_calls respond qs" for qs
    by (simp add: filter_concat comp_def)
  have c1: "calls_of ?s1 = calls_of s @ answer_calls respond (take k ?qs)"
    by (simp add: calls_of_def is_call)
  have "restorable_client ?s1" using assms(3) by (simp add: restorable_client_def)
  then obtain s2 where s2: "client_net_event (recording ops) env Net_Disconnected (end_connection t ?s1) = Some (s2, Inr ())"
    "cl_commands s2 = drop k ?qs" "calls_of s2 = calls_of ?s1" "cl_callbacks_running s2 = 0"
    "written s2 = commands_wire s2" "cn_reply_callback (cl_client s2)"
    "cn_builder (cl_client s2) = rb_reset rb"
    using connection_restored [OF assms(2) _ assms(4), where s = ?s1 and env = env] by auto
  have fits: "list_all command_fits (map cr_command (cl_commands s2))"
    using aligned_fits [OF assms(5)] s2(2) by (auto simp: list_all_iff dest: in_set_dropD)
  have "answers respond (map cr_command ?qs) =
      answers respond (map cr_command (take k ?qs)) @ answers respond (map cr_command (drop k ?qs))"
    by (simp add: answers_def flip: concat_append map_append)
  then have sizes: "length (answers respond (map cr_command (cl_commands s2))) \<le> sum_list sizes'"
    using assms(9) s2(2) by simp
  have builder: "cn_builder (cl_client s2) = reply_builder_init"
    using s2(7) b by (simp add: rb_reset_def reply_builder_init_def)
  obtain s3 where s3: "wait_until sync_ready (served_event respond ops env) (stretches 0 sizes') s2 = Some (s3, Inr ())"
    "cl_events s3 = cl_events s2 @ answer_calls respond (cl_commands s2)"
    "cl_commands s3 = []" "cl_callbacks_running s3 = 0"
    by (rule second_connection [OF assms(1) s2(6) builder s2(4,5) fits assms(8) sizes, where env = env])
  have "calls_of s3 = calls_of s2 @ answer_calls respond (drop k ?qs)"
    by (simp add: calls_of_def s3(2) s2(2) is_call)
  moreover have "answer_calls respond ?qs = answer_calls respond (take k ?qs) @ answer_calls respond (drop k ?qs)"
    by (metis append_take_drop_id concat_append map_append)
  ultimately have "calls_of s3 = calls_of s @ answer_calls respond ?qs"
    by (simp only: s2(3) c1 append_assoc)
  with r1 s2(1) s3 show ?thesis by blast
qed

section \<open>Properties\<close>

text \<open>C3: a lost connection loses no request and answers none twice. A client without password
  and selected database has written some of the requests of its queue, and buffered the
  others. The server answers what was written, in packets cut anywhere, and the connection
  ends after any part of the answers; the server accepts the next connection. Then the
  disconnection handler returns, the server answers what the client wrote over the new
  connection, and the wait of \<open>sync_commit\<close> ends: each callback was called exactly once, in the
  order of the requests, with the answer to its own command.\<close>

theorem lost_connection_survived:
  assumes "reads_throw ops" "always_connects ops" "restorable_client s" "\<not> tcp_is_connected ops t"
    and "aligned s 0" "cn_reply_callback (cl_client s)" "cn_builder (cl_client s) = reply_builder_init"
    and "\<And>ws. sendable (respond ws)"
    and "length (answers respond (map cr_command (cl_commands s))) \<le> sum_list sizes'"
  shows "\<exists>s1 s2 s3. run_events (served_event respond ops env) (stretches 0 sizes) s = Some (s1, Inr ()) \<and>
    client_net_event (recording ops) env Net_Disconnected (end_connection t s1) = Some (s2, Inr ()) \<and>
    wait_until sync_ready (served_event respond ops env) (stretches 0 sizes') s2 = Some (s3, Inr ()) \<and>
    calls_of s3 = calls_of s @
      concat (map (\<lambda>q. reply_event (cr_callback q) (reply_of (respond (cr_command q)))) (cl_commands s)) \<and>
    cl_commands s3 = [] \<and> cl_callbacks_running s3 = 0"
  by (rule survives [OF assms])

text \<open>Two requests written; the connection ends in the middle of the reply to the second.\<close>

definition waiting_client :: "(bool recorded, nat) client" where
  "waiting_client =
     (client_init (False, 0, []) (False, 0, []))
       \<lparr>cl_client := (connection_init
          (True, 1, build_command [''GET'', ''a''] @ build_command [''GET'', ''b'']))
          \<lparr>cn_reply_callback := True, cn_disconnection_handler := True\<rparr>,
        cl_max_reconnects := 3,
        cl_commands := [\<lparr>cr_command = [''GET'', ''a''], cr_callback = CC_User 1\<rparr>,
          \<lparr>cr_command = [''GET'', ''b''], cr_callback = CC_User 2\<rparr>]\<rparr>"

abbreviation one :: "string list \<Rightarrow> resp" where
  "one ws \<equiv> Integer 1"

theorem lost_connection_survived_witness:
  "\<exists>s1 s2 s3 sizes'. run_events (served_event one flag_ops (\<lambda>_. [])) (stretches 0 [4, 1]) waiting_client =
      Some (s1, Inr ()) \<and>
    client_net_event (recording flag_ops) (\<lambda>_. []) Net_Disconnected (end_connection False s1) = Some (s2, Inr ()) \<and>
    wait_until sync_ready (served_event one flag_ops (\<lambda>_. [])) (stretches 0 sizes') s2 = Some (s3, Inr ()) \<and>
    calls_of s3 = [CE_Callback 1 (reply_integer 1), CE_Callback 2 (reply_integer 1)]"
proof -
  let ?sizes = "[length (answers one (map cr_command (cl_commands waiting_client)))]"
  have "always_connects flag_ops"
    unfolding always_connects_def by (intro allI exI [of _ True] conjI) (simp_all add: flag_ops_def)
  then have o: "reads_throw flag_ops" "always_connects flag_ops" "\<not> tcp_is_connected flag_ops False"
    by (simp_all add: reads_throw_def flag_ops_def)
  have r: "restorable_client waiting_client" "cn_reply_callback (cl_client waiting_client)"
    "cn_builder (cl_client waiting_client) = reply_builder_init" "calls_of waiting_client = []"
    by (simp_all add: restorable_client_def waiting_client_def client_init_def connection_init_def calls_of_def)
  have al: "aligned waiting_client 0"
    by (rule alignedI [of "[[''GET'', ''a''], [''GET'', ''b'']]" "[]"])
      (simp_all add: waiting_client_def written_def connection_init_def command_fits_def)
  have "sendable (one ws)" for ws by simp
  moreover have "length (answers one (map cr_command (cl_commands waiting_client))) \<le> sum_list ?sizes" by simp
  ultimately obtain s1 s2 s3 where w:
    "run_events (served_event one flag_ops (\<lambda>_. [])) (stretches 0 [4, 1]) waiting_client = Some (s1, Inr ())"
    "client_net_event (recording flag_ops) (\<lambda>_. []) Net_Disconnected (end_connection False s1) = Some (s2, Inr ())"
    "wait_until sync_ready (served_event one flag_ops (\<lambda>_. [])) (stretches 0 ?sizes) s2 = Some (s3, Inr ())"
    "calls_of s3 = calls_of waiting_client @ concat (map (\<lambda>q. reply_event (cr_callback q)
      (reply_of (one (cr_command q)))) (cl_commands waiting_client))"
    using lost_connection_survived [OF o(1,2) r(1) o(3) al r(2,3), of one ?sizes "\<lambda>_. []" "[4, 1]"] by blast
  have "calls_of s3 = [CE_Callback 1 (reply_integer 1), CE_Callback 2 (reply_integer 1)]"
    unfolding w(4) r(4) by (simp add: waiting_client_def)
  with w(1-3) show ?thesis by blast
qed

end
