(* ===== verification/Failover.thy ===== *)
theory Failover
  imports Survival
begin

text \<open>
  The reason a client has a sentinel: the connection to the master is lost, the sentinel
  names another master, and the client goes on there. The reconnection is written over the
  lookup it uses, so that a client that shares its TCP client with its sentinel
  (Shared_Tcp) has the same one.
\<close>

section \<open>Reconnecting with a given lookup\<close>

definition reconnect_by ::
  "(net_event list \<Rightarrow> ('t, 'cb) client \<Rightarrow> (('t, 'cb) client \<times> bool result) option) \<Rightarrow>
   't tcp_ops \<Rightarrow> (int \<Rightarrow> net_event list) \<Rightarrow> ('t, 'cb) client \<Rightarrow> (('t, 'cb) client \<times> unit result) option"
where
  "reconnect_by lookup ops env s0 =
     (let n = cl_current_reconnect_attempts s0 + 1; s = s0\<lparr>cl_current_reconnect_attempts := n\<rparr>
      in if \<not> in_int32 n then Some (s0, Inl (Undefined_Behaviour Signed_Overflow))
         else if cl_master_name s = [] then Some (reconnect_to_server ops s)
         else case lookup (env n) s of
           None \<Rightarrow> None
         | Some (s', Inl e) \<Rightarrow> Some (s', Inl e)
         | Some (s', Inr found) \<Rightarrow>
             (if \<not> found
              then Some (notify_connect (cl_redis_server s') (cl_redis_port s') CS_lookup_failed s', Inr ())
              else Some (reconnect_to_server ops s')))"

definition disconnection_handler_by ::
  "(net_event list \<Rightarrow> ('t, 'cb) client \<Rightarrow> (('t, 'cb) client \<times> bool result) option) \<Rightarrow>
   't tcp_ops \<Rightarrow> (int \<Rightarrow> net_event list) \<Rightarrow> ('t, 'cb) client \<Rightarrow> (('t, 'cb) client \<times> unit result) option"
where
  "disconnection_handler_by lookup ops env s =
     (if cl_reconnecting s then Some (s, Inr ())
      else let s1 = s\<lparr>cl_reconnecting := True, cl_current_reconnect_attempts := 0\<rparr>;
               s2 = notify_connect (cl_redis_server s1) (cl_redis_port s1) CS_dropped s1
        in case reconnect_loop (should_reconnect ops)
               (\<lambda>s. reconnect_by lookup ops env (sleep_before_next_reconnect_attempt s)) s2 of
             None \<Rightarrow> None
           | Some (s3, Inl e) \<Rightarrow> Some (s3, Inl e)
           | Some (s3, Inr u) \<Rightarrow>
               let s4 = (if \<not> client_is_connected ops s3
                         then let s' = client_clear_callbacks s3
                              in notify_connect (cl_redis_server s') (cl_redis_port s') CS_stopped s'
                         else s3)
               in Some (s4\<lparr>cl_reconnecting := False\<rparr>, Inr ()))"

lemma client_reconnect_by: "client_reconnect ops env = reconnect_by (client_lookup ops) ops env"
  by (rule ext) (simp add: client_reconnect_def reconnect_by_def)

lemma client_disconnection_handler_by:
  "client_disconnection_handler ops env = disconnection_handler_by (client_lookup ops) ops env"
  by (rule ext)
    (simp add: client_disconnection_handler_def disconnection_handler_by_def reconnect_round_def [abs_def]
      client_reconnect_by [symmetric])

section \<open>A lookup that is answered\<close>

lemma ask_master_closes:
  "ask_master ops evs name False s = Some (s', Inr b) \<Longrightarrow>
   ask_master ops evs name True s = Some (sentinel_disconnect ops True s', Inr b)"
  by (auto simp: ask_master_def sentinel_disconnect_def split: option.splits sum.splits)

definition idle_sentinel :: "('t, 'cb) sentinel \<Rightarrow> bool" where
  "idle_sentinel s \<longleftrightarrow>
     se_sentinels s \<noteq> [] \<and> se_callbacks s = [] \<and> se_callbacks_running s = 0 \<and>
     cn_builder (se_client s) = reply_builder_init"

lemma lookup_answered:
  assumes "always_connects ops" "reads_throw ops" "idle_sentinel s"
    and "length host + 2 < 2 ^ 31" "0 < port" "port < 2 ^ 16"
    and "concat packets = encode (master_reply host port)"
  shows "\<exists>c. get_master_addr_by_name ops (read_packets packets @ evs) name True s =
    Some (s\<lparr>se_client := c, se_host := host, se_port := port, se_disconnect_handler := False\<rparr>, Inr True)"
proof -
  obtain d ds where d: "se_sentinels s = d # ds" using assms(3) by (auto simp: idle_sentinel_def neq_Nil_conv)
  obtain t1 t2 where t: "tcp_connect ops (sd_host d) (sd_port d mod 2 ^ 32) (sd_timeout_msecs d)
      (cn_client (se_client s)) = (t1, Inr ())"
    "tcp_async_read ops read_size (tcp_set_on_disconnection_handler ops t1) = (t2, Inr ())"
    "tcp_is_connected ops t2"
    and w: "\<And>bytes. \<exists>t3. tcp_async_write ops bytes t2 = (t3, Inr ())"
    using assms(1) unfolding always_connects_def by metis
  let ?c = "(se_client s)\<lparr>cn_client := t2, cn_reply_callback := True, cn_disconnection_handler := True\<rparr>"
  let ?s1 = "s\<lparr>se_host := [], se_port := 0, se_client := ?c, se_disconnect_handler := False\<rparr>"
  have c: "connect_sentinel ops False (s\<lparr>se_host := [], se_port := 0\<rparr>) = (?s1, Inr ())"
    using d t by (simp add: connect_sentinel_def conn_connect_def sentinel_is_connected_def conn_is_connected_def)
  obtain t3 where "tcp_async_write ops (cn_buffer (conn_send
      [''SENTINEL'', ''get-master-addr-by-name'', name] (se_client ?s1))) (cn_client (se_client ?s1)) = (t3, Inr ())"
    using w by auto
  from ask_master_answered [OF assms(4,6) _ _ _ _ this assms(2,7)]
  obtain c' where "ask_master ops (read_packets packets @ evs) name False ?s1 =
      Some (?s1\<lparr>se_client := c', se_host := host, se_port := port\<rparr>, Inr (port \<noteq> 0))"
    using assms(3) by (auto simp: idle_sentinel_def)
  from ask_master_closes [OF this]
  have "get_master_addr_by_name ops (read_packets packets @ evs) name True s =
      Some (sentinel_disconnect ops True (?s1\<lparr>se_client := c', se_host := host, se_port := port\<rparr>), Inr True)"
    using c d t(3) assms(5)
    by (simp add: get_master_addr_by_name_def sentinel_is_connected_def conn_is_connected_def Let_def)
  moreover have "sentinel_disconnect ops True (?s1\<lparr>se_client := c', se_host := host, se_port := port\<rparr>) =
      s\<lparr>se_client := conn_disconnect ops True c', se_host := host, se_port := port, se_disconnect_handler := False\<rparr>"
    by (cases s) (simp add: sentinel_disconnect_def)
  ultimately show ?thesis by auto
qed

section \<open>The reconnection to the master found\<close>

text \<open>The TCP state \<open>t\<close> of a connection to a server over which \<open>bytes\<close> was written.\<close>

definition tcp_reaches :: "'t tcp_ops \<Rightarrow> string \<Rightarrow> nat \<Rightarrow> nat \<Rightarrow> string \<Rightarrow> 't \<Rightarrow> bool" where
  "tcp_reaches ops host port tm bytes t \<longleftrightarrow>
     (\<exists>t0 t1 t2. tcp_connect ops host (port mod 2 ^ 32) tm t0 = (t1, Inr ()) \<and>
        tcp_async_read ops read_size (tcp_set_on_disconnection_handler ops t1) = (t2, Inr ()) \<and>
        tcp_async_write ops bytes t2 = (t, Inr ()) \<and> tcp_is_connected ops t)"

lemma reconnect_to_server_address:
  assumes "reconnect_to_server ops s = (s', Inr u)"
  shows "cl_redis_server s' = cl_redis_server s \<and> cl_redis_port s' = cl_redis_port s"
  using assms
  by (auto simp: reconnect_to_server_def client_connect_def client_try_commit_def notify_connect_def
      resend_failed_commands_eq re_auth_def re_select_def unprotected_auth_def unprotected_select_def
      unprotected_send_def Let_def split: prod.splits sum.splits if_splits)

lemma reconnects_to:
  assumes "always_connects ops" "cl_password s = []" "cl_database_index s \<le> 0" "cn_buffer (cl_client s) = []"
  shows "\<exists>s'. reconnect_to_server ops s = (s', Inr ()) \<and> cl_commands s' = cl_commands s \<and>
    tcp_reaches ops (cl_redis_server s) (cl_redis_port s) (cl_connect_timeout_msecs s) (wire (cl_commands s))
      (cn_client (cl_client s'))"
proof -
  obtain t1 t2 where t: "tcp_connect ops (cl_redis_server s) (cl_redis_port s mod 2 ^ 32)
      (cl_connect_timeout_msecs s) (cn_client (cl_client s)) = (t1, Inr ())"
    "tcp_async_read ops read_size (tcp_set_on_disconnection_handler ops t1) = (t2, Inr ())"
    "tcp_is_connected ops t2"
    and w: "\<And>bytes. \<exists>t3. tcp_async_write ops bytes t2 = (t3, Inr ()) \<and> tcp_is_connected ops t3"
    using assms(1) unfolding always_connects_def by metis
  let ?c = "(cl_client s)\<lparr>cn_client := t2, cn_reply_callback := True, cn_disconnection_handler := True\<rparr>"
  have c: "conn_connect ops (cl_redis_server s) (cl_redis_port s) True True (cl_connect_timeout_msecs s)
      (cl_client s) = (?c, Inr ())"
    using t by (simp add: conn_connect_def)
  have r: "restored_requests s = []" using assms(2,3) by (simp add: restored_requests_def)
  obtain t3 where t3: "tcp_async_write ops (wire (cl_commands s)) t2 = (t3, Inr ())" "tcp_is_connected ops t3"
    using w by blast
  obtain s' where "reconnect_to_server ops s = (s', Inr ())" "cl_commands s' = cl_commands s"
    "cl_client s' = ?c\<lparr>cn_client := t3, cn_buffer := []\<rparr>"
    using reconnect_to_server_ok [OF c, of t3] t(3) t3(1) assms(4) r by (auto simp: conn_is_connected_def)
  then show ?thesis using t(1,2) t3 unfolding tcp_reaches_def by auto
qed

text \<open>What a lookup does that finds the master: it changes the sentinel, the address, and (if
  the TCP client is shared) the TCP state.\<close>

definition finds_master :: "string \<Rightarrow> nat \<Rightarrow> ('t, 'cb) client \<Rightarrow> (('t, 'cb) client \<times> bool result) option \<Rightarrow> bool" where
  "finds_master host port s out \<longleftrightarrow>
     (\<exists>se t. out = Some (s\<lparr>cl_sentinel := se, cl_redis_server := host, cl_redis_port := port,
        cl_client := (cl_client s)\<lparr>cn_client := t\<rparr>\<rparr>, Inr True))"

definition failover_client :: "('t, 'cb) client \<Rightarrow> bool" where
  "failover_client s \<longleftrightarrow>
     cl_password s = [] \<and> cl_database_index s \<le> 0 \<and> cl_master_name s \<noteq> [] \<and>
     \<not> cl_cancel s \<and> \<not> cl_reconnecting s \<and> (cl_max_reconnects s = -1 \<or> 0 < cl_max_reconnects s) \<and>
     cn_buffer (cl_client s) = []"

lemma failover_by:
  assumes "always_connects ops" "failover_client s" "\<not> tcp_is_connected ops (cn_client (cl_client s))"
    and look: "\<And>s0. cl_master_name s0 = cl_master_name s \<Longrightarrow> cl_sentinel s0 = cl_sentinel s \<Longrightarrow>
      cl_client s0 = cl_client s \<Longrightarrow> finds_master host port s0 (lookup (env 1) s0)"
  shows "\<exists>s'. disconnection_handler_by lookup ops env s = Some (s', Inr ()) \<and>
    cl_redis_server s' = host \<and> cl_redis_port s' = port \<and> cl_commands s' = cl_commands s \<and>
    calls_of s' = calls_of s \<and> \<not> cl_reconnecting s' \<and>
    tcp_reaches ops host port (cl_connect_timeout_msecs s) (wire (cl_commands s)) (cn_client (cl_client s'))"
proof -
  let ?s2 = "notify_connect (cl_redis_server s) (cl_redis_port s) CS_dropped
    (s\<lparr>cl_reconnecting := True, cl_current_reconnect_attempts := 0\<rparr>)"
  let ?s3 = "(sleep_before_next_reconnect_attempt ?s2)\<lparr>cl_current_reconnect_attempts := 1\<rparr>"
  have p: "cl_client ?s3 = cl_client s" "cl_commands ?s3 = cl_commands s" "cl_password ?s3 = []"
    "cl_database_index ?s3 \<le> 0" "cl_master_name ?s3 = cl_master_name s" "calls_of ?s3 = calls_of s"
    "cl_sentinel ?s3 = cl_sentinel s" "cl_connect_timeout_msecs ?s3 = cl_connect_timeout_msecs s"
    using assms(2) calls_of_same [of ?s3 "sleep_before_next_reconnect_attempt ?s2"]
      calls_of_same [of "s\<lparr>cl_reconnecting := True, cl_current_reconnect_attempts := 0\<rparr>" s]
    by (simp_all add: sleep_before_next_reconnect_attempt_def failover_client_def)
      (simp_all add: notify_connect_def)
  obtain se t where l: "lookup (env 1) ?s3 = Some (?s3\<lparr>cl_sentinel := se, cl_redis_server := host,
      cl_redis_port := port, cl_client := (cl_client ?s3)\<lparr>cn_client := t\<rparr>\<rparr>, Inr True)"
    using look [OF p(5,7,1)] unfolding finds_master_def by blast
  let ?s4 = "?s3\<lparr>cl_sentinel := se, cl_redis_server := host, cl_redis_port := port,
    cl_client := (cl_client ?s3)\<lparr>cn_client := t\<rparr>\<rparr>"
  have "cn_buffer (cl_client ?s4) = []" using assms(2) p(1) by (simp add: failover_client_def)
  then obtain s5 where s5: "reconnect_to_server ops ?s4 = (s5, Inr ())" "cl_commands s5 = cl_commands s"
    "tcp_reaches ops host port (cl_connect_timeout_msecs s) (wire (cl_commands s)) (cn_client (cl_client s5))"
    using reconnects_to [OF assms(1), of ?s4] p(2,3,4,8) by auto
  have k: "calls_of s5 = calls_of s" "cl_redis_server s5 = host" "cl_redis_port s5 = port"
    using reconnect_to_server_keeps [OF s5(1)] reconnect_to_server_address [OF s5(1)] p(6)
      calls_of_same [of ?s4 ?s3] by simp_all
  have "should_reconnect ops ?s2"
    using assms(2,3) by (auto simp: should_reconnect_def failover_client_def client_is_connected_def
        conn_is_connected_def)
  moreover have "reconnect_by lookup ops env (sleep_before_next_reconnect_attempt ?s2) = Some (s5, Inr ())"
  proof -
    have "cl_current_reconnect_attempts (sleep_before_next_reconnect_attempt ?s2) = 0"
      by (simp add: sleep_before_next_reconnect_attempt_def)
    then show ?thesis
      using p(5) l s5(1) assms(2) by (simp add: reconnect_by_def in_int32_def failover_client_def)
  qed
  moreover have cn: "client_is_connected ops s5"
    using s5(3) by (auto simp: client_is_connected_def conn_is_connected_def tcp_reaches_def)
  then have "reconnect_loop (should_reconnect ops)
      (\<lambda>s. reconnect_by lookup ops env (sleep_before_next_reconnect_attempt s)) s5 = Some (s5, Inr ())"
    by (simp add: reconnect_loop.simps [of "should_reconnect ops" _ s5] should_reconnect_def)
  ultimately have "reconnect_loop (should_reconnect ops)
      (\<lambda>s. reconnect_by lookup ops env (sleep_before_next_reconnect_attempt s)) ?s2 = Some (s5, Inr ())"
    by (simp add: reconnect_loop.simps [of "should_reconnect ops" _ ?s2])
  then have "disconnection_handler_by lookup ops env s = Some (s5\<lparr>cl_reconnecting := False\<rparr>, Inr ())"
    using assms(2) cn by (simp add: disconnection_handler_by_def failover_client_def Let_def)
  then show ?thesis using s5(2,3) k calls_of_same [of "s5\<lparr>cl_reconnecting := False\<rparr>" s5] by auto
qed

lemma client_lookup_finds_master:
  assumes "always_connects ops" "reads_throw ops" "idle_sentinel (cl_sentinel s)"
    and "length host + 2 < 2 ^ 31" "0 < port" "port < 2 ^ 16"
    and "concat packets = encode (master_reply host port)"
  shows "finds_master host port s (client_lookup ops (read_packets packets @ evs) s)"
proof -
  obtain c where "get_master_addr_by_name ops (read_packets packets @ evs) (cl_master_name s) True (cl_sentinel s) =
      Some ((cl_sentinel s)\<lparr>se_client := c, se_host := host, se_port := port, se_disconnect_handler := False\<rparr>, Inr True)"
    using lookup_answered [OF assms] by blast
  then have "client_lookup ops (read_packets packets @ evs) s = Some (s\<lparr>
      cl_sentinel := (cl_sentinel s)\<lparr>se_client := c, se_host := host, se_port := port, se_disconnect_handler := False\<rparr>,
      cl_redis_server := host, cl_redis_port := port\<rparr>, Inr True)"
    by (simp add: client_lookup_def)
  moreover have "s\<lparr>cl_sentinel := se, cl_redis_server := host, cl_redis_port := port\<rparr> =
      s\<lparr>cl_sentinel := se, cl_redis_server := host, cl_redis_port := port,
        cl_client := (cl_client s)\<lparr>cn_client := cn_client (cl_client s)\<rparr>\<rparr>" for se
    by (cases s) simp
  ultimately show ?thesis unfolding finds_master_def by metis
qed

section \<open>Properties\<close>

text \<open>The disconnection event of a client that follows a master, with the given lookup.\<close>

lemma lost_master_by:
  assumes "always_connects ops" "failover_client (s\<lparr>cl_client := (cl_client s)\<lparr>cn_buffer := []\<rparr>\<rparr>)"
    and "\<not> tcp_is_connected ops (cn_client (cl_client s))" "cn_disconnection_handler (cl_client s)"
    and look: "\<And>s0. cl_master_name s0 = cl_master_name s \<Longrightarrow> cl_sentinel s0 = cl_sentinel s \<Longrightarrow>
      cn_client (cl_client s0) = cn_client (cl_client s) \<Longrightarrow> finds_master host port s0 (lookup (env 1) s0)"
  shows "\<exists>s'. tcp_client_disconnection_handler cl_client put_cl_client
      (disconnection_handler_by lookup ops env) s = Some (s', Inr ()) \<and>
    cl_redis_server s' = host \<and> cl_redis_port s' = port \<and> cl_commands s' = cl_commands s \<and>
    calls_of s' = calls_of s \<and> \<not> cl_reconnecting s' \<and>
    tcp_reaches ops host port (cl_connect_timeout_msecs s) (wire (cl_commands s)) (cn_client (cl_client s'))"
proof -
  let ?s = "put_cl_client ((cl_client s)\<lparr>cn_buffer := [], cn_builder := rb_reset (cn_builder (cl_client s))\<rparr>) s"
  have f: "failover_client ?s" "\<not> tcp_is_connected ops (cn_client (cl_client ?s))"
    using assms(2,3) by (simp_all add: failover_client_def)
  have "finds_master host port s0 (lookup (env 1) s0)"
    if "cl_master_name s0 = cl_master_name ?s" "cl_sentinel s0 = cl_sentinel ?s" "cl_client s0 = cl_client ?s" for s0
    using look [of s0] that by simp
  from failover_by [OF assms(1) f, of host port lookup env, OF this] calls_of_same [of ?s s]
  show ?thesis
    using assms(4) by (simp add: tcp_client_disconnection_handler_def call_disconnection_handler_def Let_def)
qed

text \<open>C5: the client follows its master. The connection of a client that found its server
  through a sentinel, with no password and no selected database and with reconnections
  allowed, ends; connections are accepted and writes succeed; the first sentinel, asked again, answers (in any packets) with the
  address of a master, which may be another one. Then the disconnection handler returns, the
  client is connected to that address, all pending requests were written over the new
  connection, in order and nothing else, they are still pending, and no callback was called.\<close>

theorem failover_follows_master:
  assumes "always_connects ops" "reads_throw ops" "idle_sentinel (cl_sentinel s)"
    and "failover_client (s\<lparr>cl_client := (cl_client s)\<lparr>cn_buffer := []\<rparr>\<rparr>)"
    and "\<not> tcp_is_connected ops (cn_client (cl_client s))" "cn_disconnection_handler (cl_client s)"
    and "length host + 2 < 2 ^ 31" "0 < port" "port < 2 ^ 16"
    and "env 1 = read_packets packets @ evs" "concat packets = encode (master_reply host port)"
  shows "\<exists>s'. client_net_event ops env Net_Disconnected s = Some (s', Inr ()) \<and>
    cl_redis_server s' = host \<and> cl_redis_port s' = port \<and> cl_commands s' = cl_commands s \<and>
    calls_of s' = calls_of s \<and> \<not> cl_reconnecting s' \<and>
    tcp_reaches ops host port (cl_connect_timeout_msecs s) (concat (map (build_command \<circ> cr_command) (cl_commands s)))
      (cn_client (cl_client s'))"
  unfolding client_net_event.simps client_disconnection_handler_by wire_def [symmetric]
proof (rule lost_master_by [OF assms(1,4-6)])
  fix s0 :: "('a, 'b) client"
  assume "cl_sentinel s0 = cl_sentinel s"
  then have "idle_sentinel (cl_sentinel s0)" using assms(3) by simp
  then show "finds_master host port s0 (client_lookup ops (env 1) s0)"
    unfolding assms(10) by (rule client_lookup_finds_master [OF assms(1,2) _ assms(7-9,11)])
qed

text \<open>The master moves to the host \<open>db2\<close> while a request waits.\<close>

definition orphan_client :: "(bool, nat) client" where
  "orphan_client =
     (client_add_sentinel ''s1'' 26379 0 (client_init False False))
       \<lparr>cl_client := (connection_init False)\<lparr>cn_reply_callback := True, cn_disconnection_handler := True\<rparr>,
        cl_master_name := ''mymaster'', cl_redis_server := ''db1'', cl_redis_port := 6379,
        cl_max_reconnects := 3, cl_commands := [\<lparr>cr_command = [''GET'', ''a''], cr_callback = CC_User 1\<rparr>]\<rparr>"

lemma always_connects_flag: "always_connects flag_ops"
  unfolding always_connects_def by (intro allI exI [of _ True] conjI) (simp_all add: flag_ops_def)

theorem failover_follows_master_witness:
  "\<exists>s'. client_net_event flag_ops (\<lambda>_. read_packets (map (\<lambda>b. [b]) (encode (master_reply ''db2'' 6380))))
      Net_Disconnected orphan_client = Some (s', Inr ()) \<and>
    cl_redis_server s' = ''db2'' \<and> cl_redis_port s' = 6380 \<and>
    map cr_command (cl_commands s') = [[''GET'', ''a'']]"
proof -
  let ?packets = "map (\<lambda>b. [b]) (encode (master_reply ''db2'' 6380))"
  have o: "reads_throw flag_ops" "\<not> tcp_is_connected flag_ops (cn_client (cl_client orphan_client))"
    by (simp_all add: reads_throw_def flag_ops_def orphan_client_def connection_init_def)
  have i: "idle_sentinel (cl_sentinel orphan_client)"
    by (simp add: orphan_client_def client_add_sentinel_def add_sentinel_def client_init_def
        sentinel_init_def idle_sentinel_def connection_init_def)
  have f: "failover_client (orphan_client\<lparr>cl_client := (cl_client orphan_client)\<lparr>cn_buffer := []\<rparr>\<rparr>)"
    "cn_disconnection_handler (cl_client orphan_client)"
    "map cr_command (cl_commands orphan_client) = [[''GET'', ''a'']]"
    by (simp_all add: orphan_client_def client_add_sentinel_def client_init_def failover_client_def connection_init_def)
  have h: "length ''db2'' + 2 < (2::nat) ^ 31" "0 < (6380::nat)" "(6380::nat) < 2 ^ 16" by simp_all
  have "concat (map (\<lambda>b. [b]) bs) = bs" for bs :: string by (induction bs) simp_all
  then have p: "concat ?packets = encode (master_reply ''db2'' 6380)" .
  have "(\<lambda>_ :: int. read_packets ?packets) 1 = read_packets ?packets @ []" by (rule append_Nil2 [symmetric])
  from failover_follows_master [OF always_connects_flag o(1) i f(1) o(2) f(2) h this p]
  show ?thesis using f(3) by auto
qed

end
