(* ===== verification/Subscriber_Failover.thy ===== *)
theory Subscriber_Failover
  imports Failover Subscriber
begin

text \<open>
  The same for the subscriber: the sentinel names another master, and the subscriptions are
  made there.
\<close>

section \<open>Reconnecting with a given lookup\<close>

definition su_reconnect_by ::
  "(net_event list \<Rightarrow> ('t, 'cb) subscriber \<Rightarrow> (('t, 'cb) subscriber \<times> bool result) option) \<Rightarrow>
   't tcp_ops \<Rightarrow> (int \<Rightarrow> net_event list) \<Rightarrow> ('t, 'cb) subscriber \<Rightarrow>
   (('t, 'cb) subscriber \<times> unit result) option"
where
  "su_reconnect_by lookup ops env s0 =
     (let n = su_current_reconnect_attempts s0 + 1; s = s0\<lparr>su_current_reconnect_attempts := n\<rparr>
      in if \<not> in_int32 n then Some (s0, Inl (Undefined_Behaviour Signed_Overflow))
         else if su_master_name s = [] then Some (su_reconnect_to_server ops s)
         else case lookup (env n) s of
           None \<Rightarrow> None
         | Some (s', Inl e) \<Rightarrow> Some (s', Inl e)
         | Some (s', Inr found) \<Rightarrow>
             (if \<not> found
              then Some (su_notify (su_redis_server s') (su_redis_port s') CS_lookup_failed s', Inr ())
              else Some (su_reconnect_to_server ops s')))"

definition su_disconnection_handler_by ::
  "(net_event list \<Rightarrow> ('t, 'cb) subscriber \<Rightarrow> (('t, 'cb) subscriber \<times> bool result) option) \<Rightarrow>
   't tcp_ops \<Rightarrow> (int \<Rightarrow> net_event list) \<Rightarrow> ('t, 'cb) subscriber \<Rightarrow>
   (('t, 'cb) subscriber \<times> unit result) option"
where
  "su_disconnection_handler_by lookup ops env s =
     (if su_reconnecting s then Some (s, Inr ())
      else let s1 = s\<lparr>su_reconnecting := True, su_current_reconnect_attempts := 0\<rparr>;
               s2 = su_notify (su_redis_server s1) (su_redis_port s1) CS_dropped s1
        in case reconnect_loop (su_should_reconnect ops)
               (\<lambda>s. su_reconnect_by lookup ops env (su_sleep s)) s2 of
             None \<Rightarrow> None
           | Some (s3, Inl e) \<Rightarrow> Some (s3, Inl e)
           | Some (s3, Inr u) \<Rightarrow>
               let s4 = (if \<not> su_is_connected ops s3
                         then let s' = su_clear_subscriptions s3
                              in su_notify (su_redis_server s') (su_redis_port s') CS_stopped s'
                         else s3)
               in Some (s4\<lparr>su_reconnecting := False\<rparr>, Inr ()))"

lemma su_reconnect_by: "su_reconnect ops env = su_reconnect_by (su_lookup ops) ops env"
  by (rule ext) (simp add: su_reconnect_def su_reconnect_by_def)

lemma su_disconnection_handler_by:
  "su_disconnection_handler ops env = su_disconnection_handler_by (su_lookup ops) ops env"
  by (rule ext)
    (simp add: su_disconnection_handler_def su_disconnection_handler_by_def su_reconnect_round_def [abs_def]
      su_reconnect_by [symmetric])

section \<open>The reconnection to the master found\<close>

definition resubscription :: "('t, 'cb) subscriber \<Rightarrow> string" where
  "resubscription s = concat (map build_command
     ((if su_password s = [] then [] else [[''AUTH'', su_password s]]) @
      map (\<lambda>(channel, _). [''SUBSCRIBE'', channel]) (su_subscribed_channels s) @
      map (\<lambda>(pattern, _). [''PSUBSCRIBE'', pattern]) (su_psubscribed_channels s)))"

lemma su_reconnects_to:
  assumes "always_connects ops" "subscriptions_sorted s" "cn_buffer (su_client s) = []"
  shows "\<exists>s'. su_reconnect_to_server ops s = (s', Inr ()) \<and> subscriptions_of s' = subscriptions_of s \<and>
    su_redis_server s' = su_redis_server s \<and> su_redis_port s' = su_redis_port s \<and>
    tcp_reaches ops (su_redis_server s) (su_redis_port s) (su_connect_timeout_msecs s) (resubscription s)
      (cn_client (su_client s'))"
proof -
  obtain t1 t2 where t: "tcp_connect ops (su_redis_server s) (su_redis_port s mod 2 ^ 32)
      (su_connect_timeout_msecs s) (cn_client (su_client s)) = (t1, Inr ())"
    "tcp_async_read ops read_size (tcp_set_on_disconnection_handler ops t1) = (t2, Inr ())"
    "tcp_is_connected ops t2"
    and w: "\<And>bytes. \<exists>t3. tcp_async_write ops bytes t2 = (t3, Inr ()) \<and> tcp_is_connected ops t3"
    using assms(1) unfolding always_connects_def by metis
  let ?c = "(su_client s)\<lparr>cn_client := t2, cn_reply_callback := True, cn_disconnection_handler := True\<rparr>"
  have c: "conn_connect ops (su_redis_server s) (su_redis_port s) True True (su_connect_timeout_msecs s)
      (su_client s) = (?c, Inr ())" "conn_is_connected ops ?c" "cn_buffer ?c = []"
    using t assms(3) by (simp_all add: conn_connect_def conn_is_connected_def)
  obtain t3 where t3: "tcp_async_write ops (resubscription s) t2 = (t3, Inr ())" "tcp_is_connected ops t3"
    using w by blast
  have r: "tcp_reaches ops (su_redis_server s) (su_redis_port s) (su_connect_timeout_msecs s)
      (resubscription s) t3"
    unfolding tcp_reaches_def using t(1,2) t3 by blast
  have "tcp_async_write ops (resubscription s) (cn_client ?c) = (t3, Inr ())" using t3(1) by simp
  from su_reconnect_to_server_ok [OF assms(2) c this [unfolded resubscription_def]]
  show ?thesis using r by (auto simp: subscriptions_of_def)
qed

definition su_finds_master ::
  "string \<Rightarrow> nat \<Rightarrow> ('t, 'cb) subscriber \<Rightarrow> (('t, 'cb) subscriber \<times> bool result) option \<Rightarrow> bool"
where
  "su_finds_master host port s out \<longleftrightarrow>
     (\<exists>se t. out = Some (s\<lparr>su_sentinel := se, su_redis_server := host, su_redis_port := port,
        su_client := (su_client s)\<lparr>cn_client := t\<rparr>\<rparr>, Inr True))"

definition failover_subscriber :: "('t, 'cb) subscriber \<Rightarrow> bool" where
  "failover_subscriber s \<longleftrightarrow>
     subscriptions_sorted s \<and> su_master_name s \<noteq> [] \<and> \<not> su_cancel s \<and> \<not> su_reconnecting s \<and>
     (su_max_reconnects s = -1 \<or> 0 < su_max_reconnects s)"

lemma su_fields_notify [simp]:
  "su_sentinel (su_notify h p st s) = su_sentinel s"
  "su_connect_timeout_msecs (su_notify h p st s) = su_connect_timeout_msecs s"
  "su_reconnect_interval_msecs (su_notify h p st s) = su_reconnect_interval_msecs s"
  "su_cancel (su_notify h p st s) = su_cancel s"
  by (simp_all add: su_notify_def su_event_def)

lemma su_failover_by:
  assumes "always_connects ops" "failover_subscriber s" "\<not> tcp_is_connected ops (cn_client (su_client s))"
    and "cn_buffer (su_client s) = []"
    and look: "\<And>s0. su_master_name s0 = su_master_name s \<Longrightarrow> su_sentinel s0 = su_sentinel s \<Longrightarrow>
      su_client s0 = su_client s \<Longrightarrow> su_finds_master host port s0 (lookup (env 1) s0)"
  shows "\<exists>s'. su_disconnection_handler_by lookup ops env s = Some (s', Inr ()) \<and>
    su_redis_server s' = host \<and> su_redis_port s' = port \<and> subscriptions_of s' = subscriptions_of s \<and>
    \<not> su_reconnecting s' \<and>
    tcp_reaches ops host port (su_connect_timeout_msecs s) (resubscription s) (cn_client (su_client s'))"
proof -
  let ?s2 = "su_notify (su_redis_server s) (su_redis_port s) CS_dropped
    (s\<lparr>su_reconnecting := True, su_current_reconnect_attempts := 0\<rparr>)"
  let ?s3 = "(su_sleep ?s2)\<lparr>su_current_reconnect_attempts := 1\<rparr>"
  have p: "su_client ?s3 = su_client s" "su_master_name ?s3 = su_master_name s" "su_sentinel ?s3 = su_sentinel s"
    "su_connect_timeout_msecs ?s3 = su_connect_timeout_msecs s" "subscriptions_sorted ?s3"
    and f: "su_password ?s3 = su_password s" "su_subscribed_channels ?s3 = su_subscribed_channels s"
    "su_psubscribed_channels ?s3 = su_psubscribed_channels s"
    using assms(2) by (simp_all add: su_sleep_def failover_subscriber_def)
  obtain se t where l: "lookup (env 1) ?s3 = Some (?s3\<lparr>su_sentinel := se, su_redis_server := host,
      su_redis_port := port, su_client := (su_client ?s3)\<lparr>cn_client := t\<rparr>\<rparr>, Inr True)"
    using look [OF p(2,3,1)] unfolding su_finds_master_def by blast
  let ?s4 = "?s3\<lparr>su_sentinel := se, su_redis_server := host, su_redis_port := port,
    su_client := (su_client ?s3)\<lparr>cn_client := t\<rparr>\<rparr>"
  have q: "cn_buffer (su_client ?s4) = []" "subscriptions_sorted ?s4" "resubscription ?s4 = resubscription s"
    "subscriptions_of ?s4 = subscriptions_of s"
    using assms(4) p(1,5) f by (simp_all add: subscriptions_sorted_def resubscription_def subscriptions_of_def)
  obtain s5 where s5: "su_reconnect_to_server ops ?s4 = (s5, Inr ())" "subscriptions_of s5 = subscriptions_of s"
    "su_redis_server s5 = host" "su_redis_port s5 = port"
    "tcp_reaches ops host port (su_connect_timeout_msecs s) (resubscription s) (cn_client (su_client s5))"
    using su_reconnects_to [OF assms(1) q(2,1)] q(3,4) p(4) by auto
  have "su_should_reconnect ops ?s2"
    using assms(2,3) by (auto simp: su_should_reconnect_def failover_subscriber_def su_is_connected_def
        conn_is_connected_def)
  moreover have "su_reconnect_by lookup ops env (su_sleep ?s2) = Some (s5, Inr ())"
  proof -
    have "su_current_reconnect_attempts (su_sleep ?s2) = 0" by (simp add: su_sleep_def)
    then show ?thesis
      using p(2) l s5(1) assms(2) by (simp add: su_reconnect_by_def in_int32_def failover_subscriber_def)
  qed
  moreover have cn: "su_is_connected ops s5"
    using s5(5) by (auto simp: su_is_connected_def conn_is_connected_def tcp_reaches_def)
  then have "reconnect_loop (su_should_reconnect ops)
      (\<lambda>s. su_reconnect_by lookup ops env (su_sleep s)) s5 = Some (s5, Inr ())"
    by (simp add: reconnect_loop.simps [of "su_should_reconnect ops" _ s5] su_should_reconnect_def)
  ultimately have "reconnect_loop (su_should_reconnect ops)
      (\<lambda>s. su_reconnect_by lookup ops env (su_sleep s)) ?s2 = Some (s5, Inr ())"
    by (simp add: reconnect_loop.simps [of "su_should_reconnect ops" _ ?s2])
  then have "su_disconnection_handler_by lookup ops env s = Some (s5\<lparr>su_reconnecting := False\<rparr>, Inr ())"
    using assms(2) cn by (simp add: su_disconnection_handler_by_def failover_subscriber_def Let_def)
  then show ?thesis using s5(2-5) by (auto simp: subscriptions_of_def)
qed

section \<open>Properties\<close>

lemma su_lookup_finds_master:
  assumes "always_connects ops" "reads_throw ops" "idle_sentinel (su_sentinel s)"
    and "length host + 2 < 2 ^ 31" "0 < port" "port < 2 ^ 16"
    and "concat packets = encode (master_reply host port)"
  shows "su_finds_master host port s (su_lookup ops (read_packets packets @ evs) s)"
proof -
  obtain c where "get_master_addr_by_name ops (read_packets packets @ evs) (su_master_name s) True (su_sentinel s) =
      Some ((su_sentinel s)\<lparr>se_client := c, se_host := host, se_port := port, se_disconnect_handler := False\<rparr>, Inr True)"
    using lookup_answered [OF assms] by blast
  then have "su_lookup ops (read_packets packets @ evs) s = Some (s\<lparr>
      su_sentinel := (su_sentinel s)\<lparr>se_client := c, se_host := host, se_port := port, se_disconnect_handler := False\<rparr>,
      su_redis_server := host, su_redis_port := port\<rparr>, Inr True)"
    by (simp add: su_lookup_def)
  moreover have "s\<lparr>su_sentinel := se, su_redis_server := host, su_redis_port := port\<rparr> =
      s\<lparr>su_sentinel := se, su_redis_server := host, su_redis_port := port,
        su_client := (su_client s)\<lparr>cn_client := cn_client (su_client s)\<rparr>\<rparr>" for se
    by (cases s) simp
  ultimately show ?thesis unfolding su_finds_master_def by metis
qed

lemma su_lost_master_by:
  assumes "always_connects ops" "failover_subscriber s"
    and "\<not> tcp_is_connected ops (cn_client (su_client s))" "cn_disconnection_handler (su_client s)"
    and look: "\<And>s0. su_master_name s0 = su_master_name s \<Longrightarrow> su_sentinel s0 = su_sentinel s \<Longrightarrow>
      cn_client (su_client s0) = cn_client (su_client s) \<Longrightarrow> su_finds_master host port s0 (lookup (env 1) s0)"
  shows "\<exists>s'. tcp_client_disconnection_handler su_client put_su_client
      (su_disconnection_handler_by lookup ops env) s = Some (s', Inr ()) \<and>
    su_redis_server s' = host \<and> su_redis_port s' = port \<and> subscriptions_of s' = subscriptions_of s \<and>
    \<not> su_reconnecting s' \<and>
    tcp_reaches ops host port (su_connect_timeout_msecs s) (resubscription s) (cn_client (su_client s'))"
proof -
  let ?s = "put_su_client ((su_client s)\<lparr>cn_buffer := [], cn_builder := rb_reset (cn_builder (su_client s))\<rparr>) s"
  have f: "failover_subscriber ?s" "\<not> tcp_is_connected ops (cn_client (su_client ?s))" "cn_buffer (su_client ?s) = []"
    using assms(2,3) by (simp_all add: failover_subscriber_def)
  have "su_finds_master host port s0 (lookup (env 1) s0)"
    if "su_master_name s0 = su_master_name ?s" "su_sentinel s0 = su_sentinel ?s" "su_client s0 = su_client ?s" for s0
    using look [of s0] that by simp
  note r = su_failover_by [OF assms(1) f, of host port lookup env, OF this]
  have "resubscription ?s = resubscription s" "subscriptions_of ?s = subscriptions_of s"
    by (simp_all add: resubscription_def subscriptions_of_def)
  with r show ?thesis
    using assms(4) by (simp add: tcp_client_disconnection_handler_def call_disconnection_handler_def Let_def)
qed

text \<open>C15: the subscriber follows its master. When its connection ends and the first sentinel,
  asked again, answers (in any packets) with the address of a master, the disconnection
  handler returns, the subscriber is connected to that address, and what was written over
  the new connection is \<open>AUTH\<close> with the password (if there is one), one \<open>SUBSCRIBE\<close> for each
  channel and one \<open>PSUBSCRIBE\<close> for each pattern; the subscriptions are as before.\<close>

theorem subscriber_follows_master:
  assumes "subscriber_reachable ops env' s" "always_connects ops" "reads_throw ops"
    and "idle_sentinel (su_sentinel s)" "su_master_name s \<noteq> []" "\<not> su_cancel s" "\<not> su_reconnecting s"
    and "su_max_reconnects s = -1 \<or> 0 < su_max_reconnects s"
    and "\<not> tcp_is_connected ops (cn_client (su_client s))" "cn_disconnection_handler (su_client s)"
    and "length host + 2 < 2 ^ 31" "0 < port" "port < 2 ^ 16"
    and "env 1 = read_packets packets @ evs" "concat packets = encode (master_reply host port)"
  shows "\<exists>s'. su_net_event ops env Net_Disconnected s = Some (s', Inr ()) \<and>
    su_redis_server s' = host \<and> su_redis_port s' = port \<and> subscriptions_of s' = subscriptions_of s \<and>
    \<not> su_reconnecting s' \<and>
    tcp_reaches ops host port (su_connect_timeout_msecs s) (concat (map build_command
      ((if su_password s = [] then [] else [[''AUTH'', su_password s]]) @
       map (\<lambda>(channel, _). [''SUBSCRIBE'', channel]) (su_subscribed_channels s) @
       map (\<lambda>(pattern, _). [''PSUBSCRIBE'', pattern]) (su_psubscribed_channels s))))
      (cn_client (su_client s'))"
  unfolding su_net_event.simps su_disconnection_handler_by resubscription_def [symmetric]
proof (rule su_lost_master_by [OF assms(2) _ assms(9,10)])
  show "failover_subscriber s"
    using subscriber_reachable_sorted [OF assms(1)] assms(5-8) by (simp add: failover_subscriber_def)
  fix s0 :: "('a, 'b) subscriber"
  assume "su_sentinel s0 = su_sentinel s"
  then have "idle_sentinel (su_sentinel s0)" using assms(4) by simp
  then show "su_finds_master host port s0 (su_lookup ops (env 1) s0)"
    unfolding assms(14) by (rule su_lookup_finds_master [OF assms(2,3) _ assms(11-13,15)])
qed

text \<open>The master of a subscriber of one channel moves to the host \<open>db2\<close>. (A first attempt to
  connect, before a sentinel was added, left the name of the master.)\<close>

definition named_subscriber :: "(bool, nat) subscriber" where
  "named_subscriber = (subscriber_init False False)\<lparr>su_master_name := ''mymaster''\<rparr>"

definition orphan_subscriber :: "(bool, nat) subscriber" where
  "orphan_subscriber =
     su_disconnect flag_ops False (fst (su_connect flag_ops ''db1'' 6379 False 0 3 0
       (subscribe ''a'' (Some 1) None (su_add_sentinel ''s1'' 26379 0 named_subscriber))))"

lemma orphan_reachable: "subscriber_reachable flag_ops env orphan_subscriber"
proof -
  have "su_connect_master flag_ops [] ''mymaster'' False 0 3 0 (subscriber_init False False) =
      Some (named_subscriber\<lparr>su_sentinel := (sentinel_init False)\<lparr>se_host := [], se_port := 0\<rparr>\<rparr>,
        Inl (Redis_Error ''No sentinels available. Call add_sentinel() before get_master_addr_by_name()''))"
    by (simp add: su_connect_master_def su_lookup_def get_master_addr_by_name_def named_subscriber_def
        subscriber_init_def sentinel_init_def)
  moreover have "named_subscriber\<lparr>su_sentinel := (sentinel_init False)\<lparr>se_host := [], se_port := 0\<rparr>\<rparr> =
      named_subscriber"
    by (simp add: named_subscriber_def subscriber_init_def sentinel_init_def)
  ultimately have "subscriber_reachable flag_ops env named_subscriber"
    using SR_Connect_Master [OF SR_Init] by metis
  then show ?thesis
    unfolding orphan_subscriber_def
    by (intro SR_Disconnect SR_Connect [OF SR_Subscribe [OF SR_Add_Sentinel] prod.collapse [symmetric]])
qed

theorem subscriber_follows_master_witness:
  "\<exists>s'. su_net_event flag_ops (\<lambda>_. read_packets (map (\<lambda>b. [b]) (encode (master_reply ''db2'' 6380))))
      Net_Disconnected orphan_subscriber = Some (s', Inr ()) \<and>
    su_redis_server s' = ''db2'' \<and> su_redis_port s' = 6380 \<and>
    map_of (su_subscribed_channels s') ''a'' \<noteq> None"
proof -
  let ?packets = "map (\<lambda>b. [b]) (encode (master_reply ''db2'' 6380))"
  have o: "idle_sentinel (su_sentinel orphan_subscriber)" "su_master_name orphan_subscriber \<noteq> []"
    "\<not> su_cancel orphan_subscriber" "\<not> su_reconnecting orphan_subscriber"
    "su_max_reconnects orphan_subscriber = -1 \<or> 0 < su_max_reconnects orphan_subscriber"
    "\<not> tcp_is_connected flag_ops (cn_client (su_client orphan_subscriber))"
    "cn_disconnection_handler (su_client orphan_subscriber)"
    and a: "map_of (su_subscribed_channels orphan_subscriber) ''a'' \<noteq> None"
    by (simp_all add: orphan_subscriber_def named_subscriber_def su_disconnect_def conn_disconnect_def
        su_connect_def conn_connect_def flag_ops_def su_notify_def subscribe_def unprotected_subscribe_def
        su_add_sentinel_def add_sentinel_def subscriber_init_def sentinel_init_def connection_init_def
        conn_send_def idle_sentinel_def Let_def)
  have r: "reads_throw flag_ops" by (simp add: reads_throw_def flag_ops_def)
  have h: "length ''db2'' + 2 < (2::nat) ^ 31" "0 < (6380::nat)" "(6380::nat) < 2 ^ 16" by simp_all
  have "concat (map (\<lambda>b. [b]) bs) = bs" for bs :: string by (induction bs) simp_all
  then have p: "concat ?packets = encode (master_reply ''db2'' 6380)" .
  have e: "(\<lambda>_ :: int. read_packets ?packets) 1 = read_packets ?packets @ []" by (rule append_Nil2 [symmetric])
  obtain s' where "su_net_event flag_ops (\<lambda>_. read_packets ?packets) Net_Disconnected orphan_subscriber = Some (s', Inr ())"
    "su_redis_server s' = ''db2''" "su_redis_port s' = 6380" "subscriptions_of s' = subscriptions_of orphan_subscriber"
    using subscriber_follows_master [OF orphan_reachable always_connects_flag r o h e p] by blast
  then show ?thesis using a by (auto simp: subscriptions_of_def)
qed

end
