(* ===== verification/Shared_Tcp.thy ===== *)
theory Shared_Tcp
  imports Subscriber_Failover
begin

text \<open>
  A client or a subscriber built by the constructor that takes a custom TCP client
  (sources/core/client.cpp 38-45, subscriber.cpp 39-46): its connection and its sentinel have
  one TCP client between them. Here the state of that TCP client is the one in the owner's
  connection; an operation of the sentinel starts from it and leaves it as it ends. A lookup
  while the owner is connected goes wrong; one from the disconnection handler does not, since
  the connection has ended by then.
\<close>

definition client_init_shared :: "'t \<Rightarrow> ('t, 'cb) client" where
  "client_init_shared tcp_client = client_init tcp_client tcp_client"

definition shared_sentinel :: "('t, 'cb) client \<Rightarrow> ('t, 'cb) sentinel" where
  "shared_sentinel c =
     put_se_client ((se_client (cl_sentinel c))\<lparr>cn_client := cn_client (cl_client c)\<rparr>) (cl_sentinel c)"

definition put_shared_sentinel :: "('t, 'cb) sentinel \<Rightarrow> ('t, 'cb) client \<Rightarrow> ('t, 'cb) client" where
  "put_shared_sentinel se c =
     put_cl_client ((cl_client c)\<lparr>cn_client := cn_client (se_client se)\<rparr>) (c\<lparr>cl_sentinel := se\<rparr>)"

definition on_shared_sentinel ::
  "(('t, 'cb) sentinel \<Rightarrow> ('t, 'cb) sentinel \<times> 'r) \<Rightarrow> ('t, 'cb) client \<Rightarrow> ('t, 'cb) client \<times> 'r"
where
  "on_shared_sentinel f c =
     (case f (shared_sentinel c) of (se, r) \<Rightarrow> (put_shared_sentinel se c, r))"

definition shared_lookup ::
  "'t tcp_ops \<Rightarrow> net_event list \<Rightarrow> string \<Rightarrow> bool \<Rightarrow> ('t, 'cb) client \<Rightarrow> (('t, 'cb) client \<times> bool result) option"
where
  "shared_lookup ops evs name autoconnect c =
     (case get_master_addr_by_name ops evs name autoconnect (shared_sentinel c) of
        None \<Rightarrow> None
      | Some (se, r) \<Rightarrow> Some (put_shared_sentinel se c, r))"

text \<open>The sentinel is connected exactly when the client is.\<close>

lemma shared_is_connected:
  "sentinel_is_connected ops (shared_sentinel c) = client_is_connected ops c"
  "client_is_connected ops (put_shared_sentinel se c) = sentinel_is_connected ops se"
  by (simp_all add: shared_sentinel_def put_shared_sentinel_def sentinel_is_connected_def
      client_is_connected_def conn_is_connected_def)

text \<open>Disconnecting the sentinel disconnects the client.\<close>

lemma shared_sentinel_disconnect:
  assumes "\<And>w t. \<not> tcp_is_connected ops (tcp_disconnect ops w t)"
  shows "\<not> client_is_connected ops
    (fst (on_shared_sentinel (\<lambda>se. (sentinel_disconnect ops w se, ())) c))"
  using assms
  by (simp add: on_shared_sentinel_def shared_is_connected sentinel_disconnect_def
      sentinel_is_connected_def conn_is_connected_def conn_disconnect_def)

text \<open>A TCP client that refuses a second connection and keeps the first.\<close>

definition refuses_second :: "'t tcp_ops \<Rightarrow> bool" where
  "refuses_second ops \<longleftrightarrow>
     (\<forall>host port tm t. tcp_is_connected ops t \<longrightarrow>
       (\<exists>e. tcp_connect ops host port tm t = (t, Inl (Std_Exception e))))"

lemma shared_connect_sentinel:
  assumes "refuses_second ops" "client_is_connected ops c" "se_sentinels (cl_sentinel c) \<noteq> []"
  shows "connect_sentinel ops handler (shared_sentinel c) =
    ((shared_sentinel c)\<lparr>se_disconnect_handler := handler\<rparr>, Inr ())"
proof -
  obtain d ds where d: "se_sentinels (cl_sentinel c) = d # ds" using assms(3) by (cases "se_sentinels (cl_sentinel c)") auto
  obtain e where "tcp_connect ops (sd_host d) (sd_port d mod 2 ^ 32) (sd_timeout_msecs d)
      (cn_client (cl_client c)) = (cn_client (cl_client c), Inl (Std_Exception e))"
    using assms(1,2) unfolding refuses_second_def client_is_connected_def conn_is_connected_def by blast
  then show ?thesis
    using assms(2) d
    by (simp add: connect_sentinel_def conn_connect_def shared_sentinel_def
        sentinel_is_connected_def client_is_connected_def conn_is_connected_def)
qed

text \<open>So a lookup while the client is connected takes the client's server for a sentinel: the
  attempt to connect throws, the sentinel finds itself connected, and the question goes to
  that server. Its answer comes to the receive handler of the client, and the lookup, which
  waits for an event of its own, does not return.\<close>

lemma shared_lookup_waits:
  assumes "refuses_second ops" "client_is_connected ops c" "se_sentinels (cl_sentinel c) \<noteq> []"
    and "\<And>bytes t. \<exists>t'. tcp_async_write ops bytes t = (t', Inr ())"
  shows "shared_lookup ops [] name True c = None"
proof -
  have s: "se_sentinels (shared_sentinel c) \<noteq> []" "sentinel_is_connected ops (shared_sentinel c)"
    using assms(2,3) by (simp_all add: shared_is_connected) (simp add: shared_sentinel_def)
  let ?s = "(shared_sentinel c)\<lparr>se_host := [], se_port := 0\<rparr>"
  have r: "?s = shared_sentinel (c\<lparr>cl_sentinel := (cl_sentinel c)\<lparr>se_host := [], se_port := 0\<rparr>\<rparr>)"
    by (simp add: shared_sentinel_def)
  have "connect_sentinel ops False ?s = (?s\<lparr>se_disconnect_handler := False\<rparr>, Inr ())"
    unfolding r by (rule shared_connect_sentinel) (use assms in \<open>simp_all add: client_is_connected_def\<close>)
  moreover have "ask_master ops [] name True t = None" for t :: "('a, 'b) sentinel"
  proof -
    let ?q = "sentinel_send [''SENTINEL'', ''get-master-addr-by-name'', name] SC_Get_Master t"
    obtain t' where "tcp_async_write ops (cn_buffer (se_client ?q)) (cn_client (se_client ?q)) = (t', Inr ())"
      using assms(4) by blast
    then show ?thesis
      by (simp add: ask_master_def sentinel_sync_commit_def sentinel_try_commit_def conn_commit_def
          sentinel_send_def)
  qed
  ultimately show ?thesis
    using s by (simp add: shared_lookup_def get_master_addr_by_name_def sentinel_is_connected_def Let_def)
qed

section \<open>Connecting and reconnecting a client\<close>

definition shared_client_lookup ::
  "'t tcp_ops \<Rightarrow> net_event list \<Rightarrow> ('t, 'cb) client \<Rightarrow> (('t, 'cb) client \<times> bool result) option"
where
  "shared_client_lookup ops evs c =
     (case shared_lookup ops evs (cl_master_name c) True c of
        None \<Rightarrow> None
      | Some (c', r) \<Rightarrow>
          Some (c'\<lparr>cl_redis_server := se_host (cl_sentinel c'), cl_redis_port := se_port (cl_sentinel c')\<rparr>, r))"

definition shared_connect_master ::
  "'t tcp_ops \<Rightarrow> net_event list \<Rightarrow> string \<Rightarrow> bool \<Rightarrow> nat \<Rightarrow> int \<Rightarrow> nat \<Rightarrow> ('t, 'cb) client \<Rightarrow>
   (('t, 'cb) client \<times> unit result) option"
where
  "shared_connect_master ops evs name connect_callback timeout_msecs max_reconnects
      reconnect_interval_msecs c =
     (case shared_client_lookup ops evs (c\<lparr>cl_master_name := name\<rparr>) of
        None \<Rightarrow> None
      | Some (c', Inl e) \<Rightarrow> Some (c', Inl e)
      | Some (c', Inr found) \<Rightarrow>
          Some (if found
                then client_connect ops (cl_redis_server c') (cl_redis_port c') connect_callback
                       timeout_msecs max_reconnects reconnect_interval_msecs c'
                else (c', Inl (Redis_Error
                       (''cpp_redis::client::connect() could not find master for name '' @ name)))))"

definition shared_disconnection_handler ::
  "'t tcp_ops \<Rightarrow> (int \<Rightarrow> net_event list) \<Rightarrow> ('t, 'cb) client \<Rightarrow> (('t, 'cb) client \<times> unit result) option"
where
  "shared_disconnection_handler ops = disconnection_handler_by (shared_client_lookup ops) ops"

lemma shared_lookup_finds_master:
  assumes "always_connects ops" "reads_throw ops" "idle_sentinel (cl_sentinel c)"
    and "length host + 2 < 2 ^ 31" "0 < port" "port < 2 ^ 16"
    and "concat packets = encode (master_reply host port)"
  shows "finds_master host port c (shared_client_lookup ops (read_packets packets @ evs) c)"
proof -
  have "idle_sentinel (shared_sentinel c)" using assms(3) by (simp add: idle_sentinel_def shared_sentinel_def)
  then obtain cn where
    "get_master_addr_by_name ops (read_packets packets @ evs) (cl_master_name c) True (shared_sentinel c) =
      Some ((shared_sentinel c)\<lparr>se_client := cn, se_host := host, se_port := port,
        se_disconnect_handler := False\<rparr>, Inr True)"
    using lookup_answered [OF assms(1,2) _ assms(4-7)] by blast
  then have "shared_client_lookup ops (read_packets packets @ evs) c = Some (c\<lparr>
      cl_sentinel := (shared_sentinel c)\<lparr>se_client := cn, se_host := host, se_port := port,
        se_disconnect_handler := False\<rparr>,
      cl_redis_server := host, cl_redis_port := port,
      cl_client := (cl_client c)\<lparr>cn_client := cn_client cn\<rparr>\<rparr>, Inr True)"
    by (simp add: shared_client_lookup_def shared_lookup_def put_shared_sentinel_def)
  then show ?thesis unfolding finds_master_def by blast
qed

text \<open>Sharing does no harm here: the client follows its master as if it had two TCP clients.\<close>

lemma shared_client_follows_master:
  assumes "always_connects ops" "reads_throw ops" "idle_sentinel (cl_sentinel s)"
    and "failover_client (s\<lparr>cl_client := (cl_client s)\<lparr>cn_buffer := []\<rparr>\<rparr>)"
    and "\<not> tcp_is_connected ops (cn_client (cl_client s))" "cn_disconnection_handler (cl_client s)"
    and "length host + 2 < 2 ^ 31" "0 < port" "port < 2 ^ 16"
    and "env 1 = read_packets packets @ evs" "concat packets = encode (master_reply host port)"
  shows "\<exists>s'. tcp_client_disconnection_handler cl_client put_cl_client
      (shared_disconnection_handler ops env) s = Some (s', Inr ()) \<and>
    cl_redis_server s' = host \<and> cl_redis_port s' = port \<and> cl_commands s' = cl_commands s \<and>
    calls_of s' = calls_of s \<and> \<not> cl_reconnecting s' \<and>
    tcp_reaches ops host port (cl_connect_timeout_msecs s) (wire (cl_commands s)) (cn_client (cl_client s'))"
  unfolding shared_disconnection_handler_def
proof (rule lost_master_by [OF assms(1,4-6)])
  fix s0 :: "('a, 'b) client"
  assume "cl_sentinel s0 = cl_sentinel s"
  then have "idle_sentinel (cl_sentinel s0)" using assms(3) by simp
  then show "finds_master host port s0 (shared_client_lookup ops (env 1) s0)"
    unfolding assms(10) by (rule shared_lookup_finds_master [OF assms(1,2) _ assms(7-9,11)])
qed

section \<open>The subscriber\<close>

definition subscriber_init_shared :: "'t \<Rightarrow> ('t, 'cb) subscriber" where
  "subscriber_init_shared tcp_client = subscriber_init tcp_client tcp_client"

definition su_shared_sentinel :: "('t, 'cb) subscriber \<Rightarrow> ('t, 'cb) sentinel" where
  "su_shared_sentinel s =
     put_se_client ((se_client (su_sentinel s))\<lparr>cn_client := cn_client (su_client s)\<rparr>) (su_sentinel s)"

definition su_put_shared_sentinel ::
  "('t, 'cb) sentinel \<Rightarrow> ('t, 'cb) subscriber \<Rightarrow> ('t, 'cb) subscriber"
where
  "su_put_shared_sentinel se s =
     put_su_client ((su_client s)\<lparr>cn_client := cn_client (se_client se)\<rparr>) (s\<lparr>su_sentinel := se\<rparr>)"

definition su_shared_lookup ::
  "'t tcp_ops \<Rightarrow> net_event list \<Rightarrow> ('t, 'cb) subscriber \<Rightarrow> (('t, 'cb) subscriber \<times> bool result) option"
where
  "su_shared_lookup ops evs s =
     (case get_master_addr_by_name ops evs (su_master_name s) True (su_shared_sentinel s) of
        None \<Rightarrow> None
      | Some (se, r) \<Rightarrow>
          Some ((su_put_shared_sentinel se s)
            \<lparr>su_redis_server := se_host se, su_redis_port := se_port se\<rparr>, r))"

definition su_shared_connect_master ::
  "'t tcp_ops \<Rightarrow> net_event list \<Rightarrow> string \<Rightarrow> bool \<Rightarrow> nat \<Rightarrow> int \<Rightarrow> nat \<Rightarrow> ('t, 'cb) subscriber \<Rightarrow>
   (('t, 'cb) subscriber \<times> unit result) option"
where
  "su_shared_connect_master ops evs name connect_callback timeout_msecs max_reconnects
      reconnect_interval_msecs s =
     (case su_shared_lookup ops evs (s\<lparr>su_master_name := name\<rparr>) of
        None \<Rightarrow> None
      | Some (s', Inl e) \<Rightarrow> Some (s', Inl e)
      | Some (s', Inr found) \<Rightarrow>
          Some (if found
                then su_connect ops (su_redis_server s') (su_redis_port s') connect_callback
                       timeout_msecs max_reconnects reconnect_interval_msecs s'
                else (s', Inl (Redis_Error
                       (''cpp_redis::subscriber::connect() could not find master for name '' @ name)))))"

definition su_shared_disconnection_handler ::
  "'t tcp_ops \<Rightarrow> (int \<Rightarrow> net_event list) \<Rightarrow> ('t, 'cb) subscriber \<Rightarrow>
   (('t, 'cb) subscriber \<times> unit result) option"
where
  "su_shared_disconnection_handler ops = su_disconnection_handler_by (su_shared_lookup ops) ops"

text \<open>A subscriber that looks up its master while it is connected waits for ever as well.\<close>

lemma su_shared_sentinel_client:
  "su_shared_sentinel s = shared_sentinel ((client_init t t)\<lparr>cl_client := su_client s, cl_sentinel := su_sentinel s\<rparr>)"
  by (simp add: su_shared_sentinel_def shared_sentinel_def)

lemma su_shared_lookup_waits:
  assumes "refuses_second ops" "su_is_connected ops s" "se_sentinels (su_sentinel s) \<noteq> []"
    and "\<And>bytes t. \<exists>t'. tcp_async_write ops bytes t = (t', Inr ())"
  shows "su_shared_lookup ops [] s = None"
proof -
  let ?c = "(client_init (cn_client (su_client s)) (cn_client (su_client s)))
    \<lparr>cl_client := su_client s, cl_sentinel := su_sentinel s\<rparr>"
  have "client_is_connected ops ?c" using assms(2) by (simp add: client_is_connected_def su_is_connected_def)
  moreover have "se_sentinels (cl_sentinel ?c) \<noteq> []" using assms(3) by simp
  ultimately have "shared_lookup ops [] (su_master_name s) True ?c = None"
    using shared_lookup_waits [OF assms(1) _ _ assms(4)] by blast
  then show ?thesis
    by (auto simp: shared_lookup_def su_shared_lookup_def su_shared_sentinel_client [symmetric] split: option.splits)
qed

lemma su_shared_lookup_finds_master:
  assumes "always_connects ops" "reads_throw ops" "idle_sentinel (su_sentinel s)"
    and "length host + 2 < 2 ^ 31" "0 < port" "port < 2 ^ 16"
    and "concat packets = encode (master_reply host port)"
  shows "su_finds_master host port s (su_shared_lookup ops (read_packets packets @ evs) s)"
proof -
  have "idle_sentinel (su_shared_sentinel s)" using assms(3) by (simp add: idle_sentinel_def su_shared_sentinel_def)
  then obtain cn where
    "get_master_addr_by_name ops (read_packets packets @ evs) (su_master_name s) True (su_shared_sentinel s) =
      Some ((su_shared_sentinel s)\<lparr>se_client := cn, se_host := host, se_port := port,
        se_disconnect_handler := False\<rparr>, Inr True)"
    using lookup_answered [OF assms(1,2) _ assms(4-7)] by blast
  then have "su_shared_lookup ops (read_packets packets @ evs) s = Some (s\<lparr>
      su_sentinel := (su_shared_sentinel s)\<lparr>se_client := cn, se_host := host, se_port := port,
        se_disconnect_handler := False\<rparr>,
      su_redis_server := host, su_redis_port := port,
      su_client := (su_client s)\<lparr>cn_client := cn_client cn\<rparr>\<rparr>, Inr True)"
    by (simp add: su_shared_lookup_def su_put_shared_sentinel_def)
  then show ?thesis unfolding su_finds_master_def by blast
qed

lemma shared_subscriber_follows_master:
  assumes "always_connects ops" "reads_throw ops" "idle_sentinel (su_sentinel s)" "failover_subscriber s"
    and "\<not> tcp_is_connected ops (cn_client (su_client s))" "cn_disconnection_handler (su_client s)"
    and "length host + 2 < 2 ^ 31" "0 < port" "port < 2 ^ 16"
    and "env 1 = read_packets packets @ evs" "concat packets = encode (master_reply host port)"
  shows "\<exists>s'. tcp_client_disconnection_handler su_client put_su_client
      (su_shared_disconnection_handler ops env) s = Some (s', Inr ()) \<and>
    su_redis_server s' = host \<and> su_redis_port s' = port \<and> subscriptions_of s' = subscriptions_of s \<and>
    \<not> su_reconnecting s' \<and>
    tcp_reaches ops host port (su_connect_timeout_msecs s) (resubscription s) (cn_client (su_client s'))"
  unfolding su_shared_disconnection_handler_def
proof (rule su_lost_master_by [OF assms(1,4-6)])
  fix s0 :: "('a, 'b) subscriber"
  assume "su_sentinel s0 = su_sentinel s"
  then have "idle_sentinel (su_sentinel s0)" using assms(3) by simp
  then show "su_finds_master host port s0 (su_shared_lookup ops (env 1) s0)"
    unfolding assms(10) by (rule su_shared_lookup_finds_master [OF assms(1,2) _ assms(7-9,11)])
qed

end
