(* ===== verification/Tcp_Client.thy ===== *)
theory Tcp_Client
  imports Connection
begin

text \<open>
  \<open>network::tcp_client\<close> (sources/network/tcp_client.cpp, includes/cpp_redis/network/tcp_client.hpp):
  the TCP client of the library, a wrapper around one of tacopie, a git submodule whose
  sources are not in the repository. Its methods are the record \<open>tacopie_ops\<close>, a parameter;
  the wrapper forwards the calls and converts the results that completion callbacks get.
\<close>

record 't tacopie_ops =
  tac_connect :: "string \<Rightarrow> nat \<Rightarrow> nat \<Rightarrow> 't \<Rightarrow> 't \<times> unit result"
  tac_disconnect :: "bool \<Rightarrow> 't \<Rightarrow> 't"
  tac_is_connected :: "'t \<Rightarrow> bool"
  tac_async_read :: "nat \<Rightarrow> 't \<Rightarrow> 't \<times> unit result"
  tac_async_write :: "string \<Rightarrow> 't \<Rightarrow> 't \<times> unit result"
  tac_set_on_disconnection_handler :: "'t \<Rightarrow> 't"
  tac_set_nb_workers :: "nat \<Rightarrow> 't \<Rightarrow> 't"

record tac_read_result =
  trr_success :: bool
  trr_buffer :: string

record tac_write_result =
  twr_success :: bool
  twr_size :: nat

record write_result =
  wr_success :: bool
  wr_size :: nat

definition tcp_client :: "'t tacopie_ops \<Rightarrow> 't tcp_ops" where
  "tcp_client tac =
     \<lparr>tcp_connect = (\<lambda>addr port timeout_msecs t. tac_connect tac addr port timeout_msecs t),
      tcp_disconnect = (\<lambda>wait_for_removal t. tac_disconnect tac wait_for_removal t),
      tcp_is_connected = (\<lambda>t. tac_is_connected tac t),
      tcp_async_read = (\<lambda>n t. tac_async_read tac n t),
      tcp_async_write = (\<lambda>bytes t. tac_async_write tac bytes t),
      tcp_set_on_disconnection_handler = (\<lambda>t. tac_set_on_disconnection_handler tac t)\<rparr>"

definition tcp_set_nb_workers :: "'t tacopie_ops \<Rightarrow> nat \<Rightarrow> 't \<Rightarrow> 't" where
  "tcp_set_nb_workers tac nb_threads t = tac_set_nb_workers tac nb_threads t"

text \<open>\<open>__CPP_REDIS_LENGTH\<close>: on Windows an \<open>unsigned int\<close>, elsewhere the \<open>size_t\<close> itself.
  The default io service of tacopie is the state \<open>'g\<close>.\<close>

definition redis_length :: "bool \<Rightarrow> nat \<Rightarrow> nat" where
  "redis_length windows n = (if windows then n mod 2 ^ 32 else n)"

definition set_default_nb_workers :: "(nat \<Rightarrow> 'g \<Rightarrow> 'g) \<Rightarrow> bool \<Rightarrow> nat \<Rightarrow> 'g \<Rightarrow> 'g" where
  "set_default_nb_workers default_set_nb_workers windows nb_threads g =
     default_set_nb_workers (redis_length windows nb_threads) g"

text \<open>The lambda given to tacopie for a read: nothing if the request had no callback.\<close>

definition on_read_complete ::
  "(read_result \<Rightarrow> 's \<Rightarrow> 's \<times> unit result) option \<Rightarrow> tac_read_result \<Rightarrow> 's \<Rightarrow> 's \<times> unit result"
where
  "on_read_complete callback result s =
     (case callback of
        None \<Rightarrow> (s, Inr ())
      | Some f \<Rightarrow> f \<lparr>rr_success = trr_success result, rr_buffer = trr_buffer result\<rparr> s)"

definition on_write_complete ::
  "(write_result \<Rightarrow> 's \<Rightarrow> 's \<times> unit result) option \<Rightarrow> tac_write_result \<Rightarrow> 's \<Rightarrow> 's \<times> unit result"
where
  "on_write_complete callback result s =
     (case callback of
        None \<Rightarrow> (s, Inr ())
      | Some f \<Rightarrow> f \<lparr>wr_success = twr_success result, wr_size = twr_size result\<rparr> s)"

text \<open>The wrapper adds nothing: what the connection does over it is what it does over tacopie.\<close>

lemma tcp_client_sel [simp]:
  "tcp_is_connected (tcp_client tac) = tac_is_connected tac"
  "tcp_async_write (tcp_client tac) = tac_async_write tac"
  "tcp_async_read (tcp_client tac) = tac_async_read tac"
  "tcp_connect (tcp_client tac) = tac_connect tac"
  by (simp_all add: tcp_client_def)

lemma write_without_callback: "on_write_complete None result s = (s, Inr ())"
  by (simp add: on_write_complete_def)

end
