(* ===== verification/Variadic.thy ===== *)
theory Variadic
  imports Client_Calls
begin

text \<open>
  The type traits of includes/cpp_redis/helpers/variadic_template.hpp, as functions on lists
  of types, and the compile-time checks of \<open>client_kill\<close> (includes/cpp_redis/impl/client.ipp
  64-99) that use them. A type is a name and whether it is a class or an integral type.
\<close>

section \<open>Type traits\<close>

datatype cpp_type =
    Enum_type string
  | Bool_type
  | Integral_type string
  | Class_type string

fun is_class :: "cpp_type \<Rightarrow> bool" where
  "is_class (Class_type n) = True"
| "is_class _ = False"

text \<open>The templates have no instance for an empty list; the functions are used on non-empty
  ones only.\<close>

fun back_type :: "cpp_type list \<Rightarrow> cpp_type option" where
  "back_type [] = None"
| "back_type [t] = Some t"
| "back_type (t # ts) = back_type ts"

fun front_type :: "cpp_type list \<Rightarrow> cpp_type option" where
  "front_type [] = None"
| "front_type (t # ts) = Some t"

fun is_type_present :: "cpp_type \<Rightarrow> cpp_type list \<Rightarrow> bool" where
  "is_type_present t [] = False"
| "is_type_present t [t'] = (t = t')"
| "is_type_present t (t' # ts) = (if t = t' then True else is_type_present t ts)"

fun is_different_types :: "cpp_type list \<Rightarrow> bool" where
  "is_different_types [] = True"
| "is_different_types [t] = True"
| "is_different_types (t # ts) = (if is_type_present t ts then False else is_different_types ts)"

lemma is_type_present_set: "is_type_present t ts \<longleftrightarrow> t \<in> set ts"
  by (induction t ts rule: is_type_present.induct) auto

lemma is_different_types_distinct: "is_different_types ts \<longleftrightarrow> distinct ts"
  by (induction ts rule: is_different_types.induct) (auto simp: is_type_present_set)

lemma back_type_last: "back_type ts = (if ts = [] then None else Some (last ts))"
  by (induction ts rule: back_type.induct) auto

section \<open>The checks of \<open>client_kill\<close>\<close>

text \<open>An argument with its C++ type, as overload resolution takes it.\<close>

fun has_type :: "'cb kill_arg \<Rightarrow> cpp_type \<Rightarrow> bool" where
  "has_type (Kill_type t) ty = (ty = Enum_type ''client_type'')"
| "has_type (Kill_skip b) ty = (ty = Bool_type)"
| "has_type (Kill_id i) ty = (\<exists>n. ty = Integral_type n)"
| "has_type (Kill_callback f) ty = is_class ty"

text \<open>\<open>client_kill_impl\<close>: every argument but the last is not a class.\<close>

fun callback_last :: "cpp_type list \<Rightarrow> bool" where
  "callback_last [] = True"
| "callback_last [t] = True"
| "callback_last (t # ts) = (\<not> is_class t \<and> callback_last ts)"

definition client_kill_compiles :: "cpp_type list \<Rightarrow> bool" where
  "client_kill_compiles ts \<longleftrightarrow>
     is_different_types ts \<and>
     \<not> (case front_type ts of None \<Rightarrow> True | Some t \<Rightarrow> is_class t \<and> back_type ts = Some t) \<and>
     callback_last ts"

text \<open>The overload with an address does not ask for a filter: a callback alone is enough, since
  the address is the filter.\<close>

definition client_kill_addr_compiles :: "cpp_type list \<Rightarrow> bool" where
  "client_kill_addr_compiles ts \<longleftrightarrow> ts \<noteq> [] \<and> is_different_types ts \<and> callback_last ts"

lemma client_kill_addr_needs_no_filter:
  "client_kill_addr_compiles ts \<longleftrightarrow>
     client_kill_compiles ts \<or> (\<exists>t. ts = [t] \<and> is_class t)"
  by (cases ts rule: callback_last.cases)
    (auto simp: client_kill_addr_compiles_def client_kill_compiles_def back_type_last
      is_different_types_distinct)

lemma callback_last_filters:
  "callback_last ts \<Longrightarrow> list_all2 has_type args ts \<Longrightarrow> args \<noteq> [] \<Longrightarrow>
   \<forall>a \<in> set (butlast args). \<forall>f. a \<noteq> Kill_callback f"
proof (induction ts arbitrary: args rule: callback_last.induct)
  case (3 t t' ts)
  then obtain a as where args: "args = a # as" "has_type a t" "list_all2 has_type as (t' # ts)"
    by (auto simp: list_all2_Cons2)
  have ne: "as \<noteq> []" using args(3) by auto
  then have "\<forall>x \<in> set (butlast as). \<forall>f. x \<noteq> Kill_callback f"
    using 3(1) [OF _ args(3)] 3(2) by simp
  moreover have "\<forall>f. a \<noteq> Kill_callback f" using 3(2) args(2) by auto
  ultimately show ?case using args(1) ne by auto
qed (auto simp: list_all2_Cons2)

section \<open>Properties\<close>

text \<open>C36: what the compile-time checks give. If a call of \<open>client_kill\<close> compiles, its arguments
  have pairwise different types, and only the last one can be a callback, so that at most one
  callback is given and no filter follows it; there is at least one filter.\<close>

theorem client_kill_checks:
  assumes "client_kill_compiles ts" "list_all2 has_type args ts"
  shows "distinct ts \<and> args \<noteq> [] \<and>
    (\<forall>a \<in> set (butlast args). \<forall>f. a \<noteq> Kill_callback f) \<and>
    (\<forall>f. args \<noteq> [Kill_callback f])"
proof -
  have n: "args \<noteq> []"
    using assms by (cases ts) (auto simp: client_kill_compiles_def)
  have "\<forall>f. args \<noteq> [Kill_callback f]"
    using assms by (auto simp: client_kill_compiles_def list_all2_Cons1)
  then show ?thesis
    using callback_last_filters [OF _ assms(2) n] assms(1) n
    by (simp add: client_kill_compiles_def is_different_types_distinct)
qed

theorem client_kill_checks_witness:
  "distinct [Bool_type, Class_type ''lambda''] \<and>
    (\<forall>f. [Kill_skip True, Kill_callback (1::nat)] \<noteq> [Kill_callback f]) \<and>
    list_all (\<lambda>a. a = Kill_skip True) (butlast [Kill_skip True, Kill_callback (1::nat)])"
  using client_kill_checks [of "[Bool_type, Class_type ''lambda'']" "[Kill_skip True, Kill_callback (1::nat)]"]
  by (simp add: client_kill_compiles_def)

text \<open>The check compares C++ types, not filters: two ids of different integral types compile.\<close>

lemma client_kill_two_ids:
  "client_kill_compiles [Integral_type ''int'', Integral_type ''long''] \<and>
   list_all2 has_type [Kill_id 1, Kill_id 2] [Integral_type ''int'', Integral_type ''long''] \<and>
   fst (client_kill_impl ([], CC_Null) [Kill_id 1, Kill_id 2]) =
     [''ID'', to_string_nat 1, ''ID'', to_string_nat 2]"
  by (simp add: client_kill_compiles_def size_t_cast_def)

end
