(* ===== verification/Detached.thy ===== *)
theory Detached
  imports Client_System
begin

text \<open>
  The detached threads of \<open>clear_callbacks\<close> (sources/core/client.cpp 253-280) run to their
  end, in any order their rounds may come: who is called, with what, and what is left.
  A schedule is the list of the threads' numbers, one for each round.
\<close>

abbreviation run_workers :: "nat list \<Rightarrow> ('t, 'cb) client \<Rightarrow> ('t, 'cb) client" where
  "run_workers schedule s \<equiv> fold worker_step schedule s"

definition failures :: "'cb command_request list \<Rightarrow> 'cb client_event list" where
  "failures qs = concat (map (\<lambda>q. reply_event (cr_callback q) network_failure) qs)"

lemma failures_simps [simp]:
  "failures [] = []" "failures (q # qs) = reply_event (cr_callback q) network_failure @ failures qs"
  "failures (qs @ qs') = failures qs @ failures qs'"
  by (simp_all add: failures_def)

lemma worker_step_eq:
  "i < length (cl_workers s) \<Longrightarrow> cl_workers s ! i = q # qs \<Longrightarrow>
   worker_step i s = s\<lparr>cl_events := cl_events s @ reply_event (cr_callback q) network_failure,
     cl_callbacks_running := cl_callbacks_running s - 1, cl_workers := (cl_workers s)[i := qs]\<rparr>"
  by (cases s) (simp add: worker_step_def run_callback_event)

lemma worker_step_idle:
  "\<not> i < length (cl_workers s) \<or> cl_workers s ! i = [] \<Longrightarrow> worker_step i s = s"
  by (auto simp: worker_step_def)

lemma worker_step_workers:
  "cl_workers (worker_step i s) = (if i < length (cl_workers s)
    then (cl_workers s)[i := tl (cl_workers s ! i)] else cl_workers s)"
proof (cases "\<not> i < length (cl_workers s) \<or> cl_workers s ! i = []")
  case True
  then show ?thesis by (auto simp: worker_step_idle) (metis list_update_id)
next
  case False
  then obtain q qs where "i < length (cl_workers s)" "cl_workers s ! i = q # qs"
    by (cases "cl_workers s ! i") auto
  then show ?thesis by (simp add: worker_step_eq)
qed

lemma worker_step_commands [simp]: "cl_commands (worker_step i s) = cl_commands s"
  by (simp add: worker_step_def Let_def split: list.splits)

text \<open>A thread that is given \<open>n\<close> rounds answers its first \<open>n\<close> requests.\<close>

lemma run_workers_left:
  "length (cl_workers (run_workers sched s)) = length (cl_workers s) \<and>
   (\<forall>i < length (cl_workers s).
     cl_workers (run_workers sched s) ! i = drop (count_list sched i) (cl_workers s ! i))"
proof (induction sched arbitrary: s)
  case (Cons j sched)
  then show ?case
    by (auto simp: worker_step_workers nth_list_update drop_Suc)
qed simp

lemma run_workers_commands [simp]: "cl_commands (run_workers sched s) = cl_commands s"
  by (induction sched arbitrary: s) simp_all

lemma failures_concat_update:
  "i < length xss \<Longrightarrow> xss ! i = q # qs \<Longrightarrow>
   mset (failures (concat xss)) =
     mset (reply_event (cr_callback q) network_failure) + mset (failures (concat (xss[i := qs])))"
proof (induction xss arbitrary: i)
  case (Cons ys xss)
  then show ?case by (cases i) auto
qed simp

lemma worker_step_events:
  "mset (cl_events (worker_step i s)) + mset (failures (concat (cl_workers (worker_step i s)))) =
   mset (cl_events s) + mset (failures (concat (cl_workers s)))"
proof (cases "\<not> i < length (cl_workers s) \<or> cl_workers s ! i = []")
  case False
  then obtain q qs where "i < length (cl_workers s)" "cl_workers s ! i = q # qs"
    by (cases "cl_workers s ! i") auto
  then show ?thesis using failures_concat_update [of i "cl_workers s" q qs] by (simp add: worker_step_eq)
qed (simp add: worker_step_idle)

lemma run_workers_events:
  "mset (cl_events (run_workers sched s)) + mset (failures (concat (cl_workers (run_workers sched s)))) =
   mset (cl_events s) + mset (failures (concat (cl_workers s)))"
  by (induction sched arbitrary: s) (simp_all add: worker_step_events)

lemma run_workers_running:
  "running_handlers n s \<Longrightarrow> running_handlers n (run_workers sched s)"
  using keeps_worker by (induction sched arbitrary: s) (auto simp: keeps_def)

text \<open>Enough rounds for every thread.\<close>

definition runs_out :: "nat list \<Rightarrow> ('t, 'cb) client \<Rightarrow> bool" where
  "runs_out sched s \<longleftrightarrow> (\<forall>i < length (cl_workers s). length (cl_workers s ! i) \<le> count_list sched i)"

lemma runs_out_idle:
  assumes "runs_out sched s"
  shows "concat (cl_workers (run_workers sched s)) = []" "waiting_workers (run_workers sched s) = 0"
proof -
  have "cl_workers (run_workers sched s) ! i = []" if "i < length (cl_workers s)" for i
    using run_workers_left [of sched s] assms that by (simp add: runs_out_def)
  then have e: "\<forall>qs \<in> set (cl_workers (run_workers sched s)). qs = []"
    using run_workers_left [of sched s] by (auto simp: in_set_conv_nth)
  then show "concat (cl_workers (run_workers sched s)) = []" by simp
  show "waiting_workers (run_workers sched s) = 0" using e by (simp add: waiting_workers_def)
qed

lemma run_workers_finish:
  assumes "runs_out sched s" "running_handlers n s"
  shows "mset (cl_events (run_workers sched s)) = mset (cl_events s) + mset (failures (concat (cl_workers s)))"
    "cl_callbacks_running (run_workers sched s) = n"
  using run_workers_events [of sched s] runs_out_idle [OF assms(1)] run_workers_running [OF assms(2), of sched]
  by (simp_all add: running_handlers_def del: concat_eq_Nil_conv)

text \<open>The only thread answers in the order of the requests.\<close>

lemma single_worker_order:
  "cl_workers s = [qs] \<Longrightarrow>
   cl_events (run_workers sched s) = cl_events s @ failures (take (count_list sched 0) qs)"
proof (induction sched arbitrary: s qs)
  case (Cons j sched)
  show ?case
  proof (cases "j = 0 \<and> qs \<noteq> []")
    case True
    then obtain q qs' where q: "qs = q # qs'" "j = 0" by (cases qs) auto
    have w: "worker_step 0 s = s\<lparr>cl_events := cl_events s @ reply_event (cr_callback q) network_failure,
        cl_callbacks_running := cl_callbacks_running s - 1, cl_workers := [qs']\<rparr>"
      using worker_step_eq [of 0 s q qs'] Cons.prems q by simp
    show ?thesis using Cons.IH [of "worker_step 0 s" qs'] q by (simp add: w)
  next
    case False
    then have "worker_step j s = s" using Cons.prems by (intro worker_step_idle) (cases j; auto)
    then show ?thesis using Cons.IH [OF Cons.prems] False by auto
  qed
qed simp

section \<open>Properties\<close>

text \<open>C13: a failed commit answers everyone. In whatever order the detached threads run, once
  each had as many rounds as it has requests, the callback of every request that was pending
  (and of those left from earlier failures) has been called once with the error
  \<open>network failure\<close>, nothing is pending, and the count of running callbacks is that of the
  replies in progress. If there are no earlier threads the callbacks come in the order of
  the requests.\<close>

theorem failed_commit_answers_everyone:
  assumes "client_try_commit ops s = (s1, Inl e)" "is_redis_error e" "running_handlers n s"
    and "runs_out sched s1"
  shows "cl_commands (run_workers sched s1) = [] \<and>
    mset (cl_events (run_workers sched s1)) =
      mset (cl_events s) + mset (failures (concat (cl_workers s) @ cl_commands s)) \<and>
    cl_callbacks_running (run_workers sched s1) = n \<and>
    (cl_workers s = [] \<longrightarrow> cl_events (run_workers sched s1) = cl_events s @ failures (cl_commands s))"
proof -
  obtain c where s1: "s1 = client_clear_callbacks (put_cl_client c s)"
    using assms(1,2) by (auto simp: client_try_commit_def split: prod.splits sum.splits)
  have e: "cl_commands s1 = []" "cl_events s1 = cl_events s"
    "concat (cl_workers s1) = concat (cl_workers s) @ cl_commands s" "running_handlers n s1"
    using assms(3) by (auto simp: s1 client_clear_callbacks_def running_handlers_def waiting_workers_def)
  have "cl_events (run_workers sched s1) = cl_events s @ failures (cl_commands s)" if "cl_workers s = []"
  proof (cases "cl_commands s = []")
    case True
    then have "cl_workers s1 = []" using that by (simp add: s1 client_clear_callbacks_def)
    then have "run_workers sched s1 = s1" by (induction sched) (simp_all add: worker_step_idle)
    then show ?thesis using True e(2) by simp
  next
    case False
    then have w: "cl_workers s1 = [cl_commands s]" using that by (simp add: s1 client_clear_callbacks_def)
    then have "length (cl_commands s) \<le> count_list sched 0" using assms(4) by (simp add: runs_out_def)
    then show ?thesis using single_worker_order [OF w, of sched] e(2) by simp
  qed
  then show ?thesis using run_workers_finish [OF assms(4) e(4)] e(1-3) by simp
qed

theorem failed_commit_answers_everyone_witness:
  "cl_events (run_workers [0, 0] (fst (client_try_commit flag_ops
      (client_send [''GET'', ''a''] (CC_User 2) (client_send [''PING''] (CC_User (1::nat)) (client_init False False)))))) =
    [CE_Callback 1 network_failure, CE_Callback 2 network_failure]"
proof -
  let ?s = "client_send [''GET'', ''a''] (CC_User 2) (client_send [''PING''] (CC_User (1::nat)) (client_init False False))"
  let ?s1 = "fst (client_try_commit flag_ops ?s)"
  have s: "cl_commands ?s = [\<lparr>cr_command = [''PING''], cr_callback = CC_User 1\<rparr>,
      \<lparr>cr_command = [''GET'', ''a''], cr_callback = CC_User 2\<rparr>]" "cl_workers ?s = []" "cl_events ?s = []"
    "cl_callbacks_running ?s = 0" "cl_client ?s = conn_send [''GET'', ''a''] (conn_send [''PING''] (connection_init False))"
    by (simp_all add: client_send_def unprotected_send_def client_init_def)
  have t: "client_try_commit flag_ops ?s = (?s1, Inl (Redis_Error ''not connected''))"
    by (simp add: client_try_commit_def s(5) conn_commit_def flag_ops_def conn_send_def connection_init_def
        del: One_nat_def)
  have w: "cl_workers ?s1 = [cl_commands ?s]"
    by (simp add: client_try_commit_def s(1,2,5) conn_commit_def flag_ops_def conn_send_def connection_init_def
        client_clear_callbacks_def del: One_nat_def)
  have "running_handlers 0 ?s" using s by (simp add: running_handlers_def waiting_workers_def)
  from failed_commit_answers_everyone [OF t _ this, of "[0, 0]"] show ?thesis
    using s w by (simp add: runs_out_def)
qed

end
