(* ===== verification/Message_Stream.thy ===== *)
theory Message_Stream
  imports Subscriber
begin

text \<open>
  What a subscriber makes of the messages a server pushes: from the bytes, in whatever
  packets, to the calls of the callbacks, in order.
\<close>

section \<open>Pushed messages\<close>

datatype push =
    Message string string
  | Pmessage string string string

fun push_resp :: "push \<Rightarrow> resp" where
  "push_resp (Message c m) = Array [Bulk ''message'', Bulk c, Bulk m]"
| "push_resp (Pmessage p c m) = Array [Bulk ''pmessage'', Bulk p, Bulk c, Bulk m]"

fun push_fits :: "push \<Rightarrow> bool" where
  "push_fits (Message c m) = (length c + 2 < 2 ^ 31 \<and> length m + 2 < 2 ^ 31)"
| "push_fits (Pmessage p c m) =
     (length p + 2 < 2 ^ 31 \<and> length c + 2 < 2 ^ 31 \<and> length m + 2 < 2 ^ 31)"

lemma push_sendable: "push_fits m \<Longrightarrow> sendable (push_resp m)"
  by (cases m) simp_all

text \<open>The holder a message is for, and the event it is to cause.\<close>

fun push_holder ::
  "'cb subscriptions \<Rightarrow> push \<Rightarrow> 'cb callback_holder option"
where
  "push_holder subs (Message c m) = fst subs c"
| "push_holder subs (Pmessage p c m) = snd subs p"

fun push_event :: "push \<Rightarrow> 'cb \<Rightarrow> 'cb subscriber_event" where
  "push_event (Message c m) cb = SU_Message cb c m"
| "push_event (Pmessage p c m) cb = SU_Message cb c m"

definition push_events :: "'cb subscriptions \<Rightarrow> push \<Rightarrow> 'cb subscriber_event list" where
  "push_events subs m =
     (case push_holder subs m of
        None \<Rightarrow> []
      | Some h \<Rightarrow> (case ch_subscribe_callback h of None \<Rightarrow> [] | Some cb \<Rightarrow> [push_event m cb]))"

text \<open>No message meets an empty \<open>std::function\<close>.\<close>

definition callable :: "'cb subscriptions \<Rightarrow> push \<Rightarrow> bool" where
  "callable subs m \<longleftrightarrow>
     (case push_holder subs m of None \<Rightarrow> True | Some h \<Rightarrow> ch_subscribe_callback h \<noteq> None)"

section \<open>From the handler to the stream\<close>

lemma su_receive_push:
  assumes "callable (subscriptions_of s) m"
  shows "su_receive_handler (reply_of (push_resp m)) s =
    (s\<lparr>su_events := su_events s @ push_events (subscriptions_of s) m\<rparr>, Inr ())"
  using assms
  by (cases m)
    (auto simp: receive_message receive_pmessage deliver_to_def callable_def push_events_def split: option.splits)

lemma subscriptions_of_events [simp]:
  "subscriptions_of (s\<lparr>su_events := evs\<rparr>) = subscriptions_of s"
  "subscriptions_of (put_su_client c s) = subscriptions_of s"
  by (simp_all add: subscriptions_of_def)

lemma su_run_pushes:
  "list_all (callable (subscriptions_of s)) ms \<Longrightarrow>
   run_replies su_receive_handler (map (reply_of \<circ> push_resp) ms) s =
    (s\<lparr>su_events := su_events s @ concat (map (push_events (subscriptions_of s)) ms)\<rparr>, Inr ())"
proof (induction ms arbitrary: s)
  case (Cons m ms)
  then show ?case
    using Cons.IH [of "s\<lparr>su_events := su_events s @ push_events (subscriptions_of s) m\<rparr>"]
    by (simp add: su_receive_push del: reply_of.simps)
qed simp

lemma su_run_packets:
  "run_events (su_net_event ops env) (read_packets packets) s =
   run_events (\<lambda>res. tcp_client_receive_handler ops su_client put_su_client su_receive_handler
     (su_disconnection_handler ops env) res) (map packet packets) s"
  by (induction packets arbitrary: s) (auto split: option.splits sum.splits prod.splits)

lemma message_stream:
  assumes "reads_throw ops" "cn_reply_callback (su_client s)" "cn_builder (su_client s) = reply_builder_init"
    and "list_all push_fits ms" "list_all (callable (subscriptions_of s)) ms"
    and "concat packets = concat (map (encode \<circ> push_resp) ms)"
  shows "\<exists>c. run_events (su_net_event ops env) (read_packets packets) s =
    Some (s\<lparr>su_client := c,
      su_events := su_events s @ concat (map (push_events (subscriptions_of s)) ms)\<rparr>, Inr ())"
proof -
  have "list_all sendable (map push_resp ms)"
    using assms(4) push_sendable by (auto simp: list_all_iff)
  then have b: "rb_append_all (cn_builder (su_client s)) packets =
      (reply_builder_init\<lparr>rb_available_replies := map (reply_of \<circ> push_resp) ms\<rparr>, Inr ())"
    using rb_append_all_decode [of "map push_resp ms" packets] assms(3,6) by (simp add: comp_def)
  have "rb_available_replies (cn_builder (su_client s)) = []"
    using assms(3) by (simp add: reply_builder_init_def)
  from subscriber_quiet.receive_packets [OF assms(1,2) this b, where on_disconnection = "su_disconnection_handler ops env"]
  obtain t where "run_events (\<lambda>res. tcp_client_receive_handler ops su_client put_su_client su_receive_handler
      (su_disconnection_handler ops env) res) (map packet packets) s =
    Some (put_su_client ((su_client s)\<lparr>cn_client := t,
        cn_builder := (reply_builder_init\<lparr>rb_available_replies := map (reply_of \<circ> push_resp) ms\<rparr>)
          \<lparr>rb_available_replies := []\<rparr>\<rparr>)
      (s\<lparr>su_events := su_events s @ concat (map (push_events (subscriptions_of s)) ms)\<rparr>), Inr ())"
    using su_run_pushes [OF assms(5)] by auto
  then show ?thesis unfolding su_run_packets by (cases s) auto
qed

lemma run_subscription_connection:
  "cn_reply_callback (su_client (run_subscription op s)) = cn_reply_callback (su_client s)"
  "cn_builder (su_client (run_subscription op s)) = cn_builder (su_client s)"
  "su_events (run_subscription op s) = su_events s"
  by (cases op; simp add: subscribe_def unprotected_subscribe_def psubscribe_def unprotected_psubscribe_def
      unsubscribe_def punsubscribe_def conn_send_def split: option.splits)+

lemma run_subscriptions_connection:
  "cn_reply_callback (su_client (fold run_subscription sops s)) = cn_reply_callback (su_client s)"
  "cn_builder (su_client (fold run_subscription sops s)) = cn_builder (su_client s)"
  "su_events (fold run_subscription sops s) = su_events s"
  by (induction sops arbitrary: s) (simp_all add: run_subscription_connection)

section \<open>Properties\<close>

text \<open>C11: every message reaches the right callback, in order. After any subscription
  operations, a server pushes messages for channels and for patterns, in packets cut
  anywhere. Then the callbacks called are, message by message, those the operations leave
  subscribed for its channel (its pattern), with the channel and the text; messages without
  one are skipped, and the subscriptions stay.\<close>

theorem messages_delivered_in_order:
  assumes "reads_throw ops" "cn_reply_callback (su_client s)" "cn_builder (su_client s) = reply_builder_init"
    and "subscriptions_sorted s" "list_all push_fits ms"
    and "list_all (callable (fold subscription_spec sops (subscriptions_of s))) ms"
    and "concat packets = concat (map (encode \<circ> push_resp) ms)"
  shows "\<exists>s'. run_events (su_net_event ops env) (read_packets packets) (fold run_subscription sops s) =
      Some (s', Inr ()) \<and>
    su_events s' = su_events s @
      concat (map (push_events (fold subscription_spec sops (subscriptions_of s))) ms) \<and>
    subscriptions_of s' = fold subscription_spec sops (subscriptions_of s)"
proof -
  have f: "subscriptions_of (fold run_subscription sops s) = fold subscription_spec sops (subscriptions_of s)"
    by (rule fold_run_subscription [OF assms(4)])
  show ?thesis
    using message_stream [of ops "fold run_subscription sops s" ms packets env] assms
    by (auto simp: run_subscriptions_connection f)
qed

theorem messages_delivered_in_order_witness:
  "\<exists>s'. run_events (su_net_event tape_ops (\<lambda>_. []))
      (read_packets (map (\<lambda>b. [b]) (concat (map (encode \<circ> push_resp)
        [Message ''a'' ''x'', Pmessage ''b*'' ''bc'' ''y'', Message ''b'' ''z'']))))
      (fold run_subscription [Subscribe ''a'' (Some (1::nat)) None, Psubscribe ''b*'' (Some 2) None]
        ((subscriber_init [] [])\<lparr>su_client := (connection_init [])\<lparr>cn_reply_callback := True\<rparr>\<rparr>)) =
      Some (s', Inr ()) \<and>
    su_events s' = [SU_Message 1 ''a'' ''x'', SU_Message 2 ''bc'' ''y'']"
proof -
  let ?s = "(subscriber_init [] [])\<lparr>su_client := (connection_init [])\<lparr>cn_reply_callback := True\<rparr>\<rparr>
    :: (string, nat) subscriber"
  let ?ms = "[Message ''a'' ''x'', Pmessage ''b*'' ''bc'' ''y'', Message ''b'' ''z'']"
  let ?ops = "[Subscribe ''a'' (Some (1::nat)) None, Psubscribe ''b*'' (Some 2) None]"
  let ?bytes = "concat (map (encode \<circ> push_resp) ?ms)"
  have c: "reads_throw tape_ops" by (simp add: reads_throw_def tape_ops_def)
  have i: "cn_reply_callback (su_client ?s)" "cn_builder (su_client ?s) = reply_builder_init"
    by (simp_all add: connection_init_def)
  have subs: "subscriptions_of ?s = (Map.empty, Map.empty)" "su_events ?s = []" "subscriptions_sorted ?s"
    by (simp_all add: subscriptions_of_def subscriber_init_def subscriptions_sorted_def)
  have f: "list_all push_fits ?ms" by simp
  have a: "list_all (callable (fold subscription_spec ?ops (subscriptions_of ?s))) ?ms"
    by (simp add: subs callable_def)
  have "concat (map (\<lambda>b. [b]) bs) = bs" for bs :: string by (induction bs) simp_all
  then have p: "concat (map (\<lambda>b. [b]) ?bytes) = ?bytes" .
  obtain s' where "run_events (su_net_event tape_ops (\<lambda>_. [])) (read_packets (map (\<lambda>b. [b]) ?bytes))
      (fold run_subscription ?ops ?s) = Some (s', Inr ())"
    "su_events s' = su_events ?s @ concat (map (push_events (fold subscription_spec ?ops (subscriptions_of ?s))) ?ms)"
    using messages_delivered_in_order [OF c i subs(3) f a p, of "\<lambda>_. []"] by blast
  moreover have "su_events ?s @ concat (map (push_events (fold subscription_spec ?ops (subscriptions_of ?s))) ?ms) =
      [SU_Message 1 ''a'' ''x'', SU_Message 2 ''bc'' ''y'']"
    by (simp add: subs push_events_def)
  ultimately show ?thesis by (intro exI conjI) simp_all
qed

end
