(* ===== verification/Server_Side.thy ===== *)
theory Server_Side
  imports Alignment Subscriber
begin

text \<open>
  The subscriber and the server at the other end: does the server serve the subscriptions
  the maps of the subscriber hold? As in Alignment the TCP client records the bytes written
  over the present connection. A server keeps, for each connection, a set of channels and a
  set of patterns, which the commands it reads change as the documentation of Redis says.
\<close>

section \<open>The server\<close>

fun server_reads :: "string list \<Rightarrow> string set \<times> string set \<Rightarrow> string set \<times> string set" where
  "server_reads [] st = st"
| "server_reads (name # args) (channels, patterns) =
     (if name = ''SUBSCRIBE'' then (channels \<union> set args, patterns)
      else if name = ''PSUBSCRIBE'' then (channels, patterns \<union> set args)
      else if name = ''UNSUBSCRIBE'' then (if args = [] then {} else channels - set args, patterns)
      else if name = ''PUNSUBSCRIBE'' then (channels, if args = [] then {} else patterns - set args)
      else (channels, patterns))"

definition served :: "string list list \<Rightarrow> string set \<times> string set" where
  "served cmds = fold server_reads cmds ({}, {})"

lemma served_simps [simp]:
  "served [] = ({}, {})"
  "served (cmds @ [ws]) = server_reads ws (served cmds)"
  by (simp_all add: served_def)

text \<open>The subscriptions of the maps, by their names.\<close>

definition wanted :: "('t, 'cb) subscriber \<Rightarrow> string set \<times> string set" where
  "wanted s = (fst ` set (su_subscribed_channels s), fst ` set (su_psubscribed_channels s))"

lemma served_subscribes:
  "fold server_reads (subscribe_commands m) (a, b) = (a \<union> fst ` set m, b)"
  by (induction m arbitrary: a) (auto simp: subscribe_commands_def)

lemma served_psubscribes:
  "fold server_reads (psubscribe_commands m) (a, b) = (a, b \<union> fst ` set m)"
  by (induction m arbitrary: b) (auto simp: psubscribe_commands_def)

section \<open>What the subscriber wrote and is about to write\<close>

definition su_written :: "('t recorded, 'cb) subscriber \<Rightarrow> string" where
  "su_written s = snd (snd (cn_client (su_client s)))"

definition su_unread :: "('t recorded, 'cb) subscriber \<Rightarrow> string" where
  "su_unread s = su_written s @ cn_buffer (su_client s)"

definition end_su_connection :: "'t \<Rightarrow> ('t recorded, 'cb) subscriber \<Rightarrow> ('t recorded, 'cb) subscriber" where
  "end_su_connection t s =
     put_su_client ((su_client s)\<lparr>cn_client := (t, Suc (fst (snd (cn_client (su_client s)))), [])\<rparr>) s"

text \<open>A name of a channel or a pattern, or a password, that is not too long for a reader.\<close>

definition word_fits :: "string \<Rightarrow> bool" where
  "word_fits w \<longleftrightarrow> length w + 2 < 2 ^ 31"

definition names_fit :: "('t, 'cb) subscriber \<Rightarrow> bool" where
  "names_fit s \<longleftrightarrow>
     (\<forall>c \<in> fst (wanted s) \<union> snd (wanted s). word_fits c) \<and> word_fits (su_password s)"

definition carries :: "string \<Rightarrow> string set \<times> string set \<Rightarrow> bool" where
  "carries bytes st \<longleftrightarrow>
     (\<exists>cmds. list_all command_fits cmds \<and> bytes = concat (map build_command cmds) \<and> served cmds = st)"

definition carries_at_most :: "string \<Rightarrow> string set \<times> string set \<Rightarrow> bool" where
  "carries_at_most bytes st \<longleftrightarrow>
     (\<exists>st'. carries bytes st' \<and> fst st' \<subseteq> fst st \<and> snd st' \<subseteq> snd st)"

lemma carries_Nil [simp]: "carries [] ({}, {})"
  unfolding carries_def by (rule exI [of _ "[]"]) simp

lemma carries_at_most_Nil [simp]: "carries_at_most [] st"
  unfolding carries_at_most_def by (rule exI [of _ "({}, {})"]) simp

lemma carries_send:
  "carries bytes st \<Longrightarrow> command_fits ws \<Longrightarrow> carries (bytes @ build_command ws) (server_reads ws st)"
  unfolding carries_def
  by (elim exE conjE, rule_tac x = "cmds @ [ws]" in exI) simp

lemma fits_commands [simp]: "word_fits w \<Longrightarrow> length name < 100 \<Longrightarrow> command_fits [name, w]"
  by (simp add: command_fits_def word_fits_def)

section \<open>The subscription operations\<close>

lemma wanted_subscriptions: "wanted s = (dom (fst (subscriptions_of s)), dom (snd (subscriptions_of s)))"
  by (simp add: wanted_def subscriptions_of_def dom_map_of_conv_image_fst)

primrec op_name :: "'cb subscription_op \<Rightarrow> string" where
  "op_name (Subscribe c cb ack) = c"
| "op_name (Psubscribe p cb ack) = p"
| "op_name (Unsubscribe c) = c"
| "op_name (Punsubscribe p) = p"

lemma subscription_command_fits:
  "word_fits (op_name op) \<Longrightarrow> list_all command_fits (subscription_command op m)"
  by (cases op) simp_all

text \<open>The command of an operation does to the server's sets what the operation does to the
  domains of the maps; for sets that are only contained in them, too.\<close>

lemma server_follows:
  "fold server_reads (subscription_command op m) (dom (fst m), dom (snd m)) =
    (dom (fst (subscription_spec op m)), dom (snd (subscription_spec op m)))"
  by (cases op) auto

lemma server_follows_at_most:
  assumes "a \<subseteq> dom (fst m)" "b \<subseteq> dom (snd m)"
  shows "\<exists>a' b'. fold server_reads (subscription_command op m) (a, b) = (a', b') \<and>
    a' \<subseteq> dom (fst (subscription_spec op m)) \<and> b' \<subseteq> dom (snd (subscription_spec op m))"
  using assms by (cases op) auto

lemma carries_sends:
  assumes "carries bytes st" "list_all command_fits cmds"
  shows "carries (bytes @ concat (map build_command cmds)) (fold server_reads cmds st)"
proof -
  obtain old where "list_all command_fits old" "bytes = concat (map build_command old)" "served old = st"
    using assms(1) by (auto simp: carries_def)
  then show ?thesis
    unfolding carries_def using assms(2) by (intro exI [of _ "old @ cmds"]) (auto simp: served_def)
qed

lemma carries_subscription:
  assumes "carries bytes (wanted s)" "subscriptions_sorted s" "word_fits (op_name op)"
  shows "carries (bytes @ concat (map build_command (subscription_command op (subscriptions_of s))))
    (wanted (run_subscription op s))"
  using carries_sends [OF assms(1) subscription_command_fits [OF assms(3), of "subscriptions_of s"]]
    run_subscription_spec [OF assms(2), of op]
  by (simp add: wanted_subscriptions server_follows)

lemma carries_at_most_subscription:
  assumes "carries_at_most bytes (wanted s)" "subscriptions_sorted s" "word_fits (op_name op)"
  shows "carries_at_most (bytes @ concat (map build_command (subscription_command op (subscriptions_of s))))
    (wanted (run_subscription op s))"
proof -
  obtain a b where c: "carries bytes (a, b)" "a \<subseteq> dom (fst (subscriptions_of s))"
    "b \<subseteq> dom (snd (subscriptions_of s))"
    using assms(1) by (auto simp: carries_at_most_def wanted_subscriptions)
  obtain a' b' where r: "fold server_reads (subscription_command op (subscriptions_of s)) (a, b) = (a', b')"
    "a' \<subseteq> dom (fst (subscription_spec op (subscriptions_of s)))"
    "b' \<subseteq> dom (snd (subscription_spec op (subscriptions_of s)))"
    using server_follows_at_most [OF c(2,3)] by blast
  have "carries (bytes @ concat (map build_command (subscription_command op (subscriptions_of s)))) (a', b')"
    using carries_sends [OF c(1) subscription_command_fits [OF assms(3)], of "subscriptions_of s"] r(1) by simp
  then show ?thesis
    unfolding carries_at_most_def using r(2,3) run_subscription_spec [OF assms(2), of op]
    by (intro exI [of _ "(a', b')"]) (simp add: wanted_subscriptions)
qed

text \<open>Whatever part of the subscriptions the bytes left over carry, the commands of a
  reconnection make the server serve exactly the maps.\<close>

lemma carries_resubscribe:
  assumes "carries_at_most bytes (wanted s)" "names_fit s"
  shows "carries (bytes @ concat (map build_command
      ((if su_password s = [] then [] else [[''AUTH'', su_password s]]) @
       subscribe_commands (su_subscribed_channels s) @ psubscribe_commands (su_psubscribed_channels s))))
    (wanted s)"
proof -
  let ?auth = "if su_password s = [] then [] else [[''AUTH'', su_password s]]"
  let ?subs = "subscribe_commands (su_subscribed_channels s) @ psubscribe_commands (su_psubscribed_channels s)"
  obtain a b where c: "carries bytes (a, b)" "a \<subseteq> fst (wanted s)" "b \<subseteq> snd (wanted s)"
    using assms(1) by (auto simp: carries_at_most_def)
  have f: "list_all command_fits (?auth @ ?subs)"
    using assms(2)
    by (force simp: names_fit_def wanted_def subscribe_commands_def psubscribe_commands_def list_all_iff)
  have "fold server_reads (?auth @ ?subs) (a, b) = wanted s"
    using c(2,3) by (auto simp: served_subscribes served_psubscribes wanted_def)
  then show ?thesis using carries_sends [OF c(1) f] by simp
qed

section \<open>Steps\<close>

text \<open>What is known of the present connection. \<open>In_Step\<close>: everything the maps say was sent
  over it or waits in the buffer. \<open>Dropped\<close>: its end was reported, the buffer was cleared, and
  the handler of the subscriber has not taken the mutexes of the maps yet. \<open>Out_Of_Step\<close>: the
  user disconnected, connected again, or lost the buffer in a failed write.\<close>

datatype phase = In_Step | Dropped | Out_Of_Step

definition drop_buffer :: "('t, 'cb) subscriber \<Rightarrow> ('t, 'cb) subscriber" where
  "drop_buffer s =
     put_su_client ((su_client s)\<lparr>cn_buffer := [], cn_builder := rb_reset (cn_builder (su_client s))\<rparr>) s"

lemma disconnection_in_two_parts:
  "su_net_event ops env Net_Disconnected s =
    (if cn_disconnection_handler (su_client s) then su_disconnection_handler ops env (drop_buffer s)
     else Some (drop_buffer s, Inr ()))"
  by (simp add: tcp_client_disconnection_handler_def call_disconnection_handler_def drop_buffer_def Let_def)

text \<open>A user who connects stays in step if nothing was written before.\<close>

definition connected_again :: "('t recorded, 'cb) subscriber \<Rightarrow> phase \<Rightarrow> phase" where
  "connected_again s p = (if p = In_Step \<and> su_written s = [] then In_Step else Out_Of_Step)"

inductive server_step ::
  "'t tcp_ops \<Rightarrow> (int \<Rightarrow> net_event list) \<Rightarrow> ('t recorded, 'cb) subscriber \<times> phase \<Rightarrow>
   ('t recorded, 'cb) subscriber \<times> phase \<Rightarrow> bool"
  for ops :: "'t tcp_ops" and env :: "int \<Rightarrow> net_event list"
where
  SS_Operation: "word_fits (op_name op) \<Longrightarrow> server_step ops env (s, p) (run_subscription op s, p)"
| SS_Auth: "word_fits pw \<Longrightarrow> server_step ops env (s, p) (su_auth pw acb s, p)"
| SS_Commit: "su_commit (recording ops) s = (s', r) \<Longrightarrow>
    server_step ops env (s, p) (s', if is_ok r \<or> p = Dropped then p else Out_Of_Step)"
| SS_Reply: "su_receive_handler r s = (s', res) \<Longrightarrow> server_step ops env (s, p) (s', p)"
| SS_Disconnect: "server_step ops env (s, p) (su_disconnect (recording ops) w s, Out_Of_Step)"
| SS_Connect: "su_connect (recording ops) host port cc tm mr ri s = (s', r) \<Longrightarrow>
    server_step ops env (s, p) (s', connected_again s p)"
| SS_Connect_Master: "su_connect_master (recording ops) evs name cc tm mr ri s = Some (s', r) \<Longrightarrow>
    server_step ops env (s, p) (s', connected_again s p)"
| SS_Add_Sentinel: "server_step ops env (s, p) (su_add_sentinel host port tm s, p)"
| SS_Clear_Sentinels: "server_step ops env (s, p) (su_clear_sentinels s, p)"
| SS_Cancel: "server_step ops env (s, p) (su_cancel_reconnect s, p)"
| SS_Lost: "server_step ops env (s, p) (drop_buffer (end_su_connection t s), Dropped)"
| SS_Restored: "\<not> su_is_connected (recording ops) s \<Longrightarrow> \<not> su_reconnecting s \<Longrightarrow>
    su_disconnection_handler (recording ops) env s = Some (s', Inr ()) \<Longrightarrow>
    su_is_connected (recording ops) s' \<Longrightarrow> server_step ops env (s, Dropped) (s', In_Step)"
| SS_Given_Up: "\<not> su_is_connected (recording ops) s \<Longrightarrow> \<not> su_reconnecting s \<Longrightarrow>
    su_disconnection_handler (recording ops) env s = Some (s', Inr ()) \<Longrightarrow>
    \<not> su_is_connected (recording ops) s' \<Longrightarrow>
    server_step ops env (s, Dropped)
      (end_su_connection t s', if cn_buffer (su_client s') = [] then In_Step else Out_Of_Step)"

inductive server_reachable ::
  "'t tcp_ops \<Rightarrow> (int \<Rightarrow> net_event list) \<Rightarrow> ('t recorded, 'cb) subscriber \<times> phase \<Rightarrow> bool"
  for ops :: "'t tcp_ops" and env :: "int \<Rightarrow> net_event list"
where
  SV_Init: "server_reachable ops env (subscriber_init (t, 0, []) (t', 0, []), In_Step)"
| SV_Step: "server_reachable ops env x \<Longrightarrow> server_step ops env x y \<Longrightarrow> server_reachable ops env y"

section \<open>Each step keeps what is known\<close>

definition tracked :: "('t recorded, 'cb) subscriber \<times> phase \<Rightarrow> bool" where
  "tracked x \<longleftrightarrow> (case x of (s, p) \<Rightarrow>
     subscriptions_sorted s \<and> names_fit s \<and>
     (p = In_Step \<longrightarrow> carries (su_unread s) (wanted s)) \<and>
     (p = Dropped \<longrightarrow> carries_at_most (cn_buffer (su_client s)) (wanted s)))"

text \<open>What the known facts depend on.\<close>

lemma wanted_cong:
  "su_subscribed_channels s' = su_subscribed_channels s \<Longrightarrow>
   su_psubscribed_channels s' = su_psubscribed_channels s \<Longrightarrow> wanted s' = wanted s"
  by (simp add: wanted_def)

lemma run_subscription_password [simp]: "su_password (run_subscription op s) = su_password s"
  by (cases op) (simp_all add: subscribe_def psubscribe_def unsubscribe_def punsubscribe_def
      unprotected_subscribe_def unprotected_psubscribe_def split: option.splits)

lemma names_fit_operation:
  assumes "names_fit s" "subscriptions_sorted s" "word_fits (op_name op)"
  shows "names_fit (run_subscription op s)"
proof -
  let ?m = "subscriptions_of s"
  have sub: "dom (fst (subscription_spec op ?m)) \<union> dom (snd (subscription_spec op ?m)) \<subseteq>
      insert (op_name op) (dom (fst ?m) \<union> dom (snd ?m))"
    by (cases op) auto
  have old: "\<forall>c \<in> dom (fst ?m) \<union> dom (snd ?m). word_fits c" "word_fits (su_password s)"
    using assms(1) by (simp_all add: names_fit_def wanted_subscriptions)
  have "\<forall>c \<in> dom (fst (subscription_spec op ?m)) \<union> dom (snd (subscription_spec op ?m)). word_fits c"
    using sub old(1) assms(3) by blast
  then show ?thesis
    using old(2) run_subscription_spec [OF assms(2), of op] by (simp add: names_fit_def wanted_subscriptions)
qed

lemma tracked_operation:
  assumes "tracked (s, p)" "word_fits (op_name op)"
  shows "tracked (run_subscription op s, p)"
proof -
  have s: "subscriptions_sorted s" "names_fit s" using assms(1) by (simp_all add: tracked_def)
  have c: "su_client (run_subscription op s) =
      fold conn_send (subscription_command op (subscriptions_of s)) (su_client s)"
    using run_subscription_spec [OF s(1), of op] by simp
  show ?thesis
    using assms(1) carries_subscription [of "su_unread s" s op] s assms(2)
      carries_at_most_subscription [of "cn_buffer (su_client s)" s op]
    by (simp add: tracked_def sorted_run_subscription names_fit_operation su_unread_def su_written_def
        c conn_send_all)
qed

lemma carries_auth:
  assumes "word_fits pw"
  shows "carries bytes st \<Longrightarrow> carries (bytes @ build_command [''AUTH'', pw]) st"
    and "carries_at_most bytes st \<Longrightarrow> carries_at_most (bytes @ build_command [''AUTH'', pw]) st"
proof -
  show c: "carries bytes st \<Longrightarrow> carries (bytes @ build_command [''AUTH'', pw]) st" for bytes st
    using carries_send [of bytes st "[''AUTH'', pw]"] assms by (cases st) simp
  show "carries_at_most bytes st \<Longrightarrow> carries_at_most (bytes @ build_command [''AUTH'', pw]) st"
    using c unfolding carries_at_most_def by blast
qed

lemma tracked_auth: "tracked (s, p) \<Longrightarrow> word_fits pw \<Longrightarrow> tracked (su_auth pw acb s, p)"
  using carries_auth [of pw "su_unread s" "wanted s"] carries_auth [of pw "cn_buffer (su_client s)" "wanted s"]
  by (simp add: tracked_def names_fit_def) (simp add: su_auth_def wanted_def su_unread_def su_written_def conn_send_def)

lemma tracked_reply:
  assumes "tracked (s, p)" "su_receive_handler r s = (s', res)"
  shows "tracked (s', p)"
proof -
  have o: "only_events s s'" using su_receive_handler_only_events [of s r] assms(2) by simp
  have "wanted s' = wanted s" using only_events_sel [OF o] by (intro wanted_cong)
  then show ?thesis
    using assms(1) only_events_sel [OF o]
    by (simp add: tracked_def names_fit_def subscriptions_sorted_def su_unread_def su_written_def)
qed

lemma su_commit_recording:
  assumes "su_commit (recording ops) s = (s', r)"
  shows "cn_buffer (su_client s') = [] \<and> (is_ok r \<longrightarrow> su_unread s' = su_unread s) \<and>
    wanted s' = wanted s \<and> su_password s' = su_password s"
  using assms
  by (auto simp: su_commit_def conn_commit_def recording_sel su_unread_def su_written_def wanted_def
      split: prod.splits sum.splits)

lemma tracked_commit:
  assumes "tracked (s, p)" "su_commit (recording ops) s = (s', r)"
  shows "tracked (s', if is_ok r \<or> p = Dropped then p else Out_Of_Step)"
proof -
  have "subscriptions_sorted s'"
    using assms sorted_fields(11) [of "recording ops" s] by (simp add: tracked_def)
  then show ?thesis
    using assms(1) su_commit_recording [OF assms(2)] by (simp add: tracked_def names_fit_def)
qed

lemma su_connect_recording:
  assumes "su_connect (recording ops) host port cc tm mr ri s = (s', r)"
  shows "su_written s' = [] \<and> cn_buffer (su_client s') = cn_buffer (su_client s) \<and>
    wanted s' = wanted s \<and> su_password s' = su_password s \<and>
    (subscriptions_sorted s \<longrightarrow> subscriptions_sorted s')"
proof -
  have "su_written s' = [] \<and> cn_buffer (su_client s') = cn_buffer (su_client s)"
    using assms
    by (auto simp: su_connect_def Let_def su_written_def split: prod.splits sum.splits
        dest!: conn_connect_recording)
  then show ?thesis
    using su_connect_frame [OF assms] sorted_connect [OF assms] by (simp add: wanted_def)
qed

lemma tracked_connect:
  assumes "tracked (s, p)" "su_connect (recording ops) host port cc tm mr ri s = (s', r)"
  shows "tracked (s', connected_again s p)"
  using assms(1) su_connect_recording [OF assms(2)]
  by (auto simp: tracked_def names_fit_def connected_again_def su_unread_def)

text \<open>A lookup does not touch the connection of the subscriber.\<close>

lemma su_lookup_client:
  "su_lookup ops evs s = Some (s', r) \<Longrightarrow>
    su_client s' = su_client s \<and> su_password s' = su_password s \<and> wanted s' = wanted s \<and>
    subscriptions_sorted s' = subscriptions_sorted s"
  by (auto simp: su_lookup_def wanted_def subscriptions_sorted_def split: option.splits)

lemma tracked_lookup:
  assumes "tracked (s, p)" "su_lookup ops evs (s\<lparr>su_master_name := name\<rparr>) = Some (s', r)"
  shows "tracked (s', p) \<and> connected_again s' p = connected_again s p"
  using assms(1) su_lookup_client [OF assms(2)]
  by (simp add: tracked_def names_fit_def connected_again_def su_unread_def su_written_def wanted_def)

lemma connected_again_weaker: "tracked (s, p) \<Longrightarrow> tracked (s, connected_again s p)"
  by (simp add: tracked_def connected_again_def)

lemma tracked_connect_master:
  assumes "tracked (s, p)" "su_connect_master (recording ops) evs name cc tm mr ri s = Some (s', r)"
  shows "tracked (s', connected_again s p)"
proof -
  obtain s1 r1 where l: "su_lookup (recording ops) evs (s\<lparr>su_master_name := name\<rparr>) = Some (s1, r1)"
    using assms(2) by (auto simp: su_connect_master_def split: option.splits)
  have t: "tracked (s1, p)" "connected_again s1 p = connected_again s p"
    using tracked_lookup [OF assms(1) l] by simp_all
  show ?thesis
  proof (cases "r1 = Inr True")
    case True
    then have "su_connect (recording ops) (su_redis_server s1) (su_redis_port s1) cc tm mr ri s1 = (s', r)"
      using assms(2) l by (simp add: su_connect_master_def)
    from tracked_connect [OF t(1) this] show ?thesis by (simp add: t(2))
  next
    case False
    then have "s' = s1" using assms(2) l by (cases r1) (simp_all add: su_connect_master_def)
    then show ?thesis using connected_again_weaker [OF t(1)] by (simp add: t(2))
  qed
qed

section \<open>The reconnection loop\<close>

definition restoring :: "'t tcp_ops \<Rightarrow> ('t recorded, 'cb) subscriber \<Rightarrow> bool" where
  "restoring ops s \<longleftrightarrow>
     tracked (s, Dropped) \<and> (su_is_connected (recording ops) s \<longrightarrow> carries (su_unread s) (wanted s))"

lemma restoring_notify [simp]: "restoring ops (su_notify h p st s) = restoring ops s"
  by (simp add: restoring_def tracked_def names_fit_def wanted_def su_unread_def su_written_def su_is_connected_def)

lemma restoring_reconnect_to_server:
  assumes "su_reconnect_to_server (recording ops) s = (s', Inr u)" "restoring ops s"
  shows "restoring ops s'"
proof -
  obtain s1 r1 where k: "su_connect (recording ops) (su_redis_server s) (su_redis_port s)
      (su_connect_callback s) (su_connect_timeout_msecs s) (su_max_reconnects s)
      (su_reconnect_interval_msecs s) s = (s1, r1)"
    by (metis surj_pair)
  have t: "subscriptions_sorted s1" "names_fit s1" "carries_at_most (cn_buffer (su_client s1)) (wanted s1)"
    "su_written s1 = []"
    using assms(2) su_connect_recording [OF k] by (simp_all add: restoring_def tracked_def names_fit_def)
  have no_ub: "\<not> (case r1 of Inl e \<Rightarrow> \<not> is_exception e | Inr u \<Rightarrow> False)"
    using assms(1) k by (auto simp: su_reconnect_to_server_def split: sum.splits if_splits)
  show ?thesis
  proof (cases "su_is_connected (recording ops) s1")
    case False
    then have s': "s' = su_notify (su_redis_server s1) (su_redis_port s1) CS_failed s1"
      using assms(1) k no_ub by (simp add: su_reconnect_to_server_def)
    show ?thesis unfolding s' restoring_notify using t False by (simp add: restoring_def tracked_def)
  next
    case True
    let ?s2 = "su_notify (su_redis_server s1) (su_redis_port s1) CS_ok s1"
    let ?s3 = "re_subscribe (su_re_auth ?s2)"
    have c: "su_commit (recording ops) ?s3 = (s', Inr u)"
      using assms(1) k no_ub True by (simp add: su_reconnect_to_server_def)
    have s2: "subscriptions_sorted (su_re_auth ?s2)" "wanted (su_re_auth ?s2) = wanted s1"
      "su_password (su_re_auth ?s2) = su_password s1"
      by (simp_all add: t(1) wanted_def) (simp add: su_re_auth_def su_auth_def)
    have s3: "wanted ?s3 = wanted s1" "su_password ?s3 = su_password s1" "subscriptions_sorted ?s3"
      using s2 by (simp_all add: re_subscribe_eq [OF s2(1)] wanted_def)
    have "carries (su_unread ?s3) (wanted s1)"
      using carries_resubscribe [OF t(3,2)] t(4)
      by (cases "su_password s1 = []") (simp_all add: re_subscribe_eq [OF s2(1)] su_unread_def su_written_def conn_send_all
        conn_send_def)
    then show ?thesis
      using su_commit_recording [OF c] t(2) s3 sorted_fields(11) [of "recording ops" ?s3]
      by (simp add: c restoring_def tracked_def names_fit_def)
  qed
qed

lemma restoring_lookup:
  assumes "su_lookup ops' evs s = Some (s', r)" "restoring ops s"
  shows "restoring ops s'"
  using assms(2) su_lookup_client [OF assms(1)]
  by (simp add: restoring_def tracked_def names_fit_def su_unread_def su_written_def su_is_connected_def)

lemma restoring_attempts [simp]:
  "restoring ops (s\<lparr>su_current_reconnect_attempts := n\<rparr>) = restoring ops s"
  "restoring ops (s\<lparr>su_reconnecting := b\<rparr>) = restoring ops s"
  by (simp_all add: restoring_def tracked_def names_fit_def wanted_def su_unread_def su_written_def
      su_is_connected_def)

lemma restoring_round:
  assumes "su_reconnect_round (recording ops) env s = Some (s', Inr u)" "restoring ops s"
  shows "restoring ops s'"
proof -
  have k: "restoring ops s1" if "su_reconnect_to_server (recording ops) s0 = (s1, Inr u1)" "restoring ops s0"
    for s0 s1 u1 using restoring_reconnect_to_server that .
  have l: "restoring ops s1" if "su_lookup (recording ops) evs s0 = Some (s1, r1)" "restoring ops s0"
    for s0 s1 evs r1 using restoring_lookup that .
  show ?thesis
    using assms
    by (auto simp: su_reconnect_round_def su_reconnect_def su_sleep_def Let_def
        split: if_splits option.splits sum.splits intro: k dest!: l)
qed

text \<open>When the handler returns, the subscriptions are back on the wire or were given up.\<close>

lemma restored_or_given_up:
  assumes "tracked (s, Dropped)" "\<not> su_is_connected (recording ops) s" "\<not> su_reconnecting s"
    and "su_disconnection_handler (recording ops) env s = Some (s', Inr ())"
  shows "if su_is_connected (recording ops) s' then tracked (s', In_Step)
    else tracked (s', Out_Of_Step) \<and> wanted s' = ({}, {})"
proof -
  let ?s2 = "su_notify (su_redis_server s) (su_redis_port s) CS_dropped
    (s\<lparr>su_reconnecting := True, su_current_reconnect_attempts := 0\<rparr>)"
  obtain s3 where
    l: "reconnect_loop (su_should_reconnect (recording ops)) (su_reconnect_round (recording ops) env) ?s2 =
      Some (s3, Inr ())"
    and s': "s' = (if \<not> su_is_connected (recording ops) s3
        then su_notify (su_redis_server (su_clear_subscriptions s3)) (su_redis_port (su_clear_subscriptions s3))
               CS_stopped (su_clear_subscriptions s3)
        else s3)\<lparr>su_reconnecting := False\<rparr>"
    using assms(3,4) by (auto simp: su_disconnection_handler_def Let_def split: option.splits sum.splits)
  have "restoring ops s" using assms(1,2) by (simp add: restoring_def)
  then have "restoring ops ?s2" by simp
  then have r: "restoring ops s3"
    by (rule reconnect_loop_ok_invariant [OF l]) (rule restoring_round)
  show ?thesis
  proof (cases "su_is_connected (recording ops) s3")
    case True
    then have "restoring ops s'" "su_is_connected (recording ops) s'"
      using r by (simp_all add: s') (simp add: su_is_connected_def)
    then show ?thesis by (simp add: restoring_def tracked_def)
  next
    case False
    then have "\<not> su_is_connected (recording ops) s'" "subscriptions_sorted s'" "wanted s' = ({}, {})"
      "su_password s' = su_password s3"
      by (simp_all add: s' su_is_connected_def wanted_def) (simp_all add: su_clear_subscriptions_def)
    then show ?thesis using r by (simp add: restoring_def tracked_def names_fit_def)
  qed
qed

section \<open>Reachable states\<close>

lemma tracked_dropped:
  "tracked (s, p) \<Longrightarrow> tracked (drop_buffer (end_su_connection t s), Dropped)"
  by (simp add: tracked_def names_fit_def drop_buffer_def end_su_connection_def wanted_def)

lemma tracked_settings:
  "tracked (s, p) \<Longrightarrow> tracked (su_add_sentinel host port tm s, p)"
  "tracked (s, p) \<Longrightarrow> tracked (su_clear_sentinels s, p)"
  "tracked (s, p) \<Longrightarrow> tracked (su_cancel_reconnect s, p)"
  by (simp_all add: tracked_def) (simp_all add: su_add_sentinel_def su_clear_sentinels_def
      su_cancel_reconnect_def names_fit_def wanted_def su_unread_def su_written_def)

lemma server_step_tracked: "server_step ops env x y \<Longrightarrow> tracked x \<Longrightarrow> tracked y"
proof (induction rule: server_step.induct)
  case (SS_Disconnect s p w)
  then show ?case
    by (simp add: tracked_def names_fit_def su_disconnect_def wanted_def)
next
  case (SS_Commit s s' r p)
  show ?case by (rule tracked_commit [OF SS_Commit(2,1)])
next
  case (SS_Restored s s')
  then show ?case using restored_or_given_up [of s ops env s'] by simp
next
  case (SS_Given_Up s s' t)
  then have "tracked (s', Out_Of_Step)" "wanted s' = ({}, {})"
    using restored_or_given_up [of s ops env s'] by simp_all
  then show ?case
    by (simp add: tracked_def names_fit_def end_su_connection_def su_unread_def su_written_def)
       (simp add: wanted_def)
qed (auto simp: tracked_operation tracked_auth tracked_dropped tracked_settings intro: tracked_reply tracked_connect
    tracked_connect_master)

lemma server_reachable_tracked: "server_reachable ops env x \<Longrightarrow> tracked x"
proof (induction rule: server_reachable.induct)
  case (SV_Init t t')
  let ?s = "subscriber_init (t, 0, []) (t', 0, []) :: ('a recorded, 'b) subscriber"
  have "wanted ?s = ({}, {})" "su_unread ?s = []" "su_password ?s = []"
    by (simp_all add: wanted_def subscriber_init_def su_unread_def su_written_def connection_init_def)
  then show ?case by (simp add: tracked_def sorted_init names_fit_def word_fits_def)
next
  case (SV_Step x y)
  then show ?case using server_step_tracked by blast
qed

section \<open>Properties\<close>

text \<open>C10: the server serves what the maps say. Through subscription operations, commits,
  replies, lost connections and reconnections (with operations in between), in every state
  in step: once the server has read the commands written over the present connection and
  those in the buffer, its channels and patterns are exactly the keys of the two maps.\<close>

theorem server_serves_subscriptions:
  assumes "server_reachable ops env (s, In_Step)"
    and "su_written s @ cn_buffer (su_client s) = concat (map build_command cmds)" "list_all command_fits cmds"
  shows "fold server_reads cmds ({}, {}) =
    (fst ` set (su_subscribed_channels s), fst ` set (su_psubscribed_channels s))"
proof -
  have "carries (su_unread s) (wanted s)" using server_reachable_tracked [OF assms(1)] by (simp add: tracked_def)
  then obtain cmds' where c: "list_all command_fits cmds'" "su_unread s = concat (map build_command cmds')"
    "served cmds' = wanted s"
    by (auto simp: carries_def)
  have "concat (map build_command cmds') = concat (map build_command cmds)"
    using c(2) assms(2) unfolding su_unread_def by (rule subst)
  then have "cmds' = cmds" using build_commands_inj [OF c(1) assms(3)] by blast
  then show ?thesis using c(3) by (simp add: served_def wanted_def)
qed

text \<open>A user who disconnects keeps the maps, but connecting again subscribes to nothing.\<close>

lemma connect_does_not_resubscribe:
  assumes "su_connect (recording ops) host port cc tm mr ri (su_disconnect (recording ops) w s) = (s', r)"
  shows "su_written s' = [] \<and> cn_buffer (su_client s') = [] \<and> wanted s' = wanted s"
proof -
  have "cn_buffer (su_client (su_disconnect (recording ops) w s)) = []"
    "wanted (su_disconnect (recording ops) w s) = wanted s"
    by (simp_all add: su_disconnect_def conn_disconnect_def wanted_def)
  then show ?thesis using su_connect_recording [OF assms] by (simp only: simp_thms)
qed

text \<open>A run for the witness: subscribe, connect, commit; the connection ends, the user
  subscribes to a second channel before the handler takes the mutexes, and it reconnects.\<close>

definition before_loss :: "(bool recorded, nat) subscriber" where
  "before_loss =
     fst (su_commit (recording flag_ops) (fst (su_connect (recording flag_ops) ''h'' 6379 False 0 3 0
       (run_subscription (Subscribe ''a'' (Some 1) None) (subscriber_init (False, 0, []) (False, 0, []))))))"

definition after_loss :: "(bool recorded, nat) subscriber" where
  "after_loss =
     run_subscription (Psubscribe ''b*'' (Some 2) None) (drop_buffer (end_su_connection False before_loss))"

lemmas run_eval =
  after_loss_def before_loss_def subscribe_def psubscribe_def unprotected_subscribe_def
  unprotected_psubscribe_def drop_buffer_def end_su_connection_def rb_reset_def reply_builder_init_def
  su_connect_def su_commit_def conn_connect_def conn_commit_def recording_sel flag_ops_def
  subscriber_init_def connection_init_def conn_send_def su_notify_def

lemma after_loss_reachable: "server_reachable flag_ops env (after_loss, Dropped)"
proof -
  let ?s0 = "subscriber_init (False, 0, []) (False, 0, []) :: (bool recorded, nat) subscriber"
  let ?s1 = "run_subscription (Subscribe ''a'' (Some 1) None) ?s0"
  let ?k = "su_connect (recording flag_ops) ''h'' 6379 False 0 3 0 ?s1"
  let ?m = "su_commit (recording flag_ops) (fst ?k)"
  have "server_reachable flag_ops env (?s1, In_Step)"
    by (rule SV_Step [OF SV_Init SS_Operation]) (simp add: word_fits_def)
  from SV_Step [OF this SS_Connect [OF prod.collapse [symmetric]]]
  have "server_reachable flag_ops env (fst ?k, connected_again ?s1 In_Step)" .
  from SV_Step [OF this SS_Commit [OF prod.collapse [symmetric]]] obtain p where
    "server_reachable flag_ops env (before_loss, p)" by (auto simp: before_loss_def)
  from SV_Step [OF this SS_Lost]
  have l: "server_reachable flag_ops env (drop_buffer (end_su_connection False before_loss), Dropped)" .
  show ?thesis unfolding after_loss_def by (rule SV_Step [OF l SS_Operation]) (simp add: word_fits_def)
qed

text \<open>The server reads the second subscription twice, which changes nothing.\<close>

theorem server_serves_subscriptions_witness:
  "\<exists>s. su_disconnection_handler (recording flag_ops) (\<lambda>_. []) after_loss = Some (s, Inr ()) \<and>
    su_written s = concat (map build_command
      [[''PSUBSCRIBE'', ''b*''], [''SUBSCRIBE'', ''a''], [''PSUBSCRIBE'', ''b*'']]) \<and>
    (fst ` set (su_subscribed_channels s), fst ` set (su_psubscribed_channels s)) = ({''a''}, {''b*''})"
proof -
  let ?cmds = "[[''PSUBSCRIBE'', ''b*''], [''SUBSCRIBE'', ''a''], [''PSUBSCRIBE'', ''b*'']]"
  obtain s where s: "su_disconnection_handler (recording flag_ops) (\<lambda>_. []) after_loss = Some (s, Inr ())"
    "su_written s = concat (map build_command ?cmds)" "cn_buffer (su_client s) = []"
    "su_is_connected (recording flag_ops) s"
    by (simp add: su_disconnection_handler_def run_eval reconnect_loop.simps su_should_reconnect_def
        su_is_connected_def conn_is_connected_def su_reconnect_round_def su_reconnect_def su_sleep_def
        su_reconnect_to_server_def su_re_auth_def re_subscribe_def in_int32_def su_written_def Let_def
        del: One_nat_def)
  have "\<not> su_is_connected (recording flag_ops) after_loss" "\<not> su_reconnecting after_loss"
    by (simp_all add: run_eval su_is_connected_def conn_is_connected_def del: One_nat_def)
  from SV_Step [OF after_loss_reachable SS_Restored [OF this s(1,4)]]
  have r: "server_reachable flag_ops (\<lambda>_. []) (s, In_Step)" .
  have "su_written s @ cn_buffer (su_client s) = concat (map build_command ?cmds)" using s(2,3) by simp
  moreover have "list_all command_fits ?cmds" by (simp add: word_fits_def)
  ultimately have "fold server_reads ?cmds ({}, {}) =
      (fst ` set (su_subscribed_channels s), fst ` set (su_psubscribed_channels s))"
    by (rule server_serves_subscriptions [OF r])
  then show ?thesis using s(1,2) by (intro exI [of _ s]) simp
qed

end
