(* ===== verification/Lock_Order.thy ===== *)
theory Lock_Order
  imports Prelude
begin

text \<open>
  Threads that lock and unlock mutexes and wait on condition variables, and the discipline
  that keeps the mutexes from blocking them for ever: each mutex has a rank, and a thread
  locks only mutexes of a rank above those it holds. Whether a thread that waits on a condition
  variable is ever woken is not the mutexes' affair: it may sleep for ever. The locale at the
  end is the contract of a library whose entry points keep to such an order; the theory Locks
  interprets it on the methods and handlers of the program.
\<close>

section \<open>Threads and mutexes\<close>

text \<open>What a thread does, as far as mutexes matter: \<open>Work\<close> is code that takes none of them;
  \<open>Sleep m\<close> is the wait of a condition variable with \<open>m\<close> locked.\<close>

datatype 'm action = Acquire 'm | Release 'm | Sleep 'm | Work

record 'm thread =
  th_held :: "'m list"
  th_rest :: "'m action list"
  th_asleep :: bool

text \<open>One turn of the thread \<open>i\<close>. A \<open>std::mutex\<close> that any thread holds, the caller included,
  cannot be locked: the turn is not possible, as for a thread that has ended or sleeps. A thread
  that falls asleep gives the mutex up, and locks it again once it was woken.\<close>

definition mutex_free :: "'m \<Rightarrow> 'm thread list \<Rightarrow> bool" where
  "mutex_free m ts = list_all (\<lambda>t. m \<notin> set (th_held t)) ts"

definition lock_turn :: "nat \<Rightarrow> 'm thread list \<Rightarrow> 'm thread list option" where
  "lock_turn i ts =
    (if length ts \<le> i \<or> th_asleep (ts ! i) then None
     else case th_rest (ts ! i) of
         [] \<Rightarrow> None
       | Acquire m # as \<Rightarrow>
           if mutex_free m ts
           then Some (ts[i := (ts ! i)\<lparr>th_held := m # th_held (ts ! i), th_rest := as\<rparr>])
           else None
       | Release m # as \<Rightarrow>
           Some (ts[i := (ts ! i)\<lparr>th_held := remove1 m (th_held (ts ! i)), th_rest := as\<rparr>])
       | Sleep m # as \<Rightarrow>
           Some (ts[i := (ts ! i)\<lparr>th_held := remove1 m (th_held (ts ! i)),
             th_rest := Acquire m # as, th_asleep := True\<rparr>])
       | Work # as \<Rightarrow> Some (ts[i := (ts ! i)\<lparr>th_rest := as\<rparr>]))"

text \<open>A notification, or a wake-up without one.\<close>

definition wake_up :: "nat \<Rightarrow> 'm thread list \<Rightarrow> 'm thread list option" where
  "wake_up i ts =
    (if i < length ts \<and> th_asleep (ts ! i) then Some (ts[i := (ts ! i)\<lparr>th_asleep := False\<rparr>])
     else None)"

text \<open>A schedule says whose turn it is, and who is woken when.\<close>

datatype turn = Turn nat | Wake_Up nat

fun take_turn :: "turn \<Rightarrow> 'm thread list \<Rightarrow> 'm thread list option" where
  "take_turn (Turn i) ts = lock_turn i ts"
| "take_turn (Wake_Up i) ts = wake_up i ts"

fun run_turns :: "turn list \<Rightarrow> 'm thread list \<Rightarrow> 'm thread list option" where
  "run_turns [] ts = Some ts"
| "run_turns (u # us) ts = (case take_turn u ts of None \<Rightarrow> None | Some ts' \<Rightarrow> run_turns us ts')"

definition start_threads :: "'m action list list \<Rightarrow> 'm thread list" where
  "start_threads progs = map (\<lambda>p. \<lparr>th_held = [], th_rest = p, th_asleep = False\<rparr>) progs"

definition ended :: "'m thread \<Rightarrow> bool" where
  "ended t \<longleftrightarrow> th_rest t = [] \<and> th_held t = [] \<and> \<not> th_asleep t"

text \<open>The turns and wake-ups the programs can still take: a wait takes three.\<close>

fun turns_of :: "'m action \<Rightarrow> nat" where
  "turns_of (Sleep m) = 3"
| "turns_of (Acquire m) = 1"
| "turns_of (Release m) = 1"
| "turns_of Work = 1"

definition thread_turns :: "'m thread \<Rightarrow> nat" where
  "thread_turns t = sum_list (map turns_of (th_rest t)) + (if th_asleep t then 1 else 0)"

definition pending :: "'m thread list \<Rightarrow> nat" where
  "pending ts = sum_list (map thread_turns ts)"

text \<open>A thread gets on: it can take its turn, it waits on a condition variable, or it waits for
  a mutex whose holder gets on. Being the least such predicate, it is false of threads that
  wait for one another in a circle.\<close>

inductive gets_on :: "'m thread list \<Rightarrow> nat \<Rightarrow> bool" for ts :: "'m thread list" where
  Can_Go: "lock_turn i ts \<noteq> None \<Longrightarrow> gets_on ts i"
| Waits_On_Condition: "i < length ts \<Longrightarrow> th_asleep (ts ! i) \<Longrightarrow> gets_on ts i"
| Waits_For_Holder: "i < length ts \<Longrightarrow> th_rest (ts ! i) = Acquire m # as \<Longrightarrow> j < length ts \<Longrightarrow>
    m \<in> set (th_held (ts ! j)) \<Longrightarrow> gets_on ts j \<Longrightarrow> gets_on ts i"

definition all_get_on :: "'m thread list \<Rightarrow> bool" where
  "all_get_on ts = list_all (\<lambda>i. ended (ts ! i) \<or> gets_on ts i) [0..<length ts]"

section \<open>Locking in order\<close>

fun ordered :: "('m \<Rightarrow> nat) \<Rightarrow> 'm list \<Rightarrow> 'm action list \<Rightarrow> bool" where
  "ordered rank held [] = (held = [])"
| "ordered rank held (Acquire m # as) =
    (list_all (\<lambda>h. rank h < rank m) held \<and> ordered rank (m # held) as)"
| "ordered rank held (Release m # as) = (m \<in> set held \<and> ordered rank (remove1 m held) as)"
| "ordered rank held (Sleep m # as) =
    (m \<in> set held \<and> list_all (\<lambda>h. rank h < rank m) (remove1 m held)
      \<and> ordered rank (m # remove1 m held) as)"
| "ordered rank held (Work # as) = ordered rank held as"

definition threads_ordered :: "('m \<Rightarrow> nat) \<Rightarrow> 'm thread list \<Rightarrow> bool" where
  "threads_ordered rank ts = list_all (\<lambda>t. ordered rank (th_held t) (th_rest t)) ts"

text \<open>Code that may run where only mutexes of a rank below \<open>b\<close> are held, and that leaves the
  held mutexes as it found them.\<close>

definition runs_under :: "('m \<Rightarrow> nat) \<Rightarrow> nat \<Rightarrow> 'm action list \<Rightarrow> bool" where
  "runs_under rank b as \<longleftrightarrow>
    (\<forall>held rest. list_all (\<lambda>h. rank h < b) held \<longrightarrow> ordered rank held rest \<longrightarrow>
      ordered rank held (as @ rest))"

named_theorems runs_under_intros \<open>composition of code that locks in order\<close>

lemma runs_underI:
  "(\<And>held rest. list_all (\<lambda>h. rank h < b) held \<Longrightarrow> ordered rank held rest \<Longrightarrow>
    ordered rank held (as @ rest)) \<Longrightarrow> runs_under rank b as"
  by (simp add: runs_under_def)

lemma runs_underD:
  "runs_under rank b as \<Longrightarrow> list_all (\<lambda>h. rank h < b) held \<Longrightarrow> ordered rank held rest \<Longrightarrow>
    ordered rank held (as @ rest)"
  by (simp add: runs_under_def)

lemma runs_under_nil [runs_under_intros]: "runs_under rank b []"
  by (simp add: runs_under_def)

lemma runs_under_work [runs_under_intros]: "runs_under rank b [Work]"
  by (simp add: runs_under_def)

lemma runs_under_append [runs_under_intros]:
  "runs_under rank b xs \<Longrightarrow> runs_under rank b ys \<Longrightarrow> runs_under rank b (xs @ ys)"
  by (simp add: runs_under_def)

lemma runs_under_concat [runs_under_intros]:
  "list_all (runs_under rank b) xss \<Longrightarrow> runs_under rank b (concat xss)"
  by (induction xss) (auto intro: runs_under_intros)

lemma runs_under_mono: "runs_under rank c xs \<Longrightarrow> b \<le> c \<Longrightarrow> runs_under rank b xs"
  by (rule runs_underI, rule runs_underD [of rank c xs])
    (auto simp: list_all_iff dest: less_le_trans)

text \<open>A critical section: a \<open>lock_guard\<close> and the code of its scope.\<close>

definition locked :: "'m \<Rightarrow> 'm action list \<Rightarrow> 'm action list" where
  "locked m body = Acquire m # body @ [Release m]"

lemma runs_under_locked [runs_under_intros]:
  assumes "b \<le> rank m" and "runs_under rank (Suc (rank m)) body"
  shows "runs_under rank b (locked m body)"
proof (rule runs_underI)
  fix held rest
  assume below: "list_all (\<lambda>h. rank h < b) held" and rest: "ordered rank held rest"
  have inner: "list_all (\<lambda>h. rank h < Suc (rank m)) (m # held)"
    using below assms(1) by (auto simp: list_all_iff)
  have "ordered rank (m # held) (Release m # rest)"
    using rest by simp
  then have "ordered rank (m # held) (body @ Release m # rest)"
    by (rule runs_underD [OF assms(2) inner])
  moreover have "list_all (\<lambda>h. rank h < rank m) held"
    using below assms(1) by (auto simp: list_all_iff)
  ultimately show "ordered rank held (locked m body @ rest)"
    by (simp add: locked_def)
qed

text \<open>Waiting on a condition variable, until the last of so many wake-ups.\<close>

definition waiting :: "'m \<Rightarrow> nat \<Rightarrow> 'm action list" where
  "waiting m wakeups = locked m (replicate wakeups (Sleep m))"

lemma ordered_sleeps:
  "list_all (\<lambda>h. rank h < rank m) held \<Longrightarrow> ordered rank held rest \<Longrightarrow>
    ordered rank (m # held) (replicate n (Sleep m) @ Release m # rest)"
  by (induction n) simp_all

lemma runs_under_waiting [runs_under_intros]:
  assumes "b \<le> rank m"
  shows "runs_under rank b (waiting m n)"
proof (rule runs_underI)
  fix held rest
  assume below: "list_all (\<lambda>h. rank h < b) held" and rest: "ordered rank held rest"
  have "list_all (\<lambda>h. rank h < rank m) held"
    using below assms by (auto simp: list_all_iff)
  then show "ordered rank held (waiting m n @ rest)"
    using ordered_sleeps rest by (simp add: waiting_def locked_def)
qed

section \<open>No circle of threads\<close>

lemma lock_turn_cases:
  assumes "lock_turn i ts = Some ts'"
  obtains m as where "i < length ts" "\<not> th_asleep (ts ! i)" "th_rest (ts ! i) = Acquire m # as" "mutex_free m ts"
      "ts' = ts[i := (ts ! i)\<lparr>th_held := m # th_held (ts ! i), th_rest := as\<rparr>]"
    | m as where "i < length ts" "\<not> th_asleep (ts ! i)" "th_rest (ts ! i) = Release m # as"
      "ts' = ts[i := (ts ! i)\<lparr>th_held := remove1 m (th_held (ts ! i)), th_rest := as\<rparr>]"
    | m as where "i < length ts" "\<not> th_asleep (ts ! i)" "th_rest (ts ! i) = Sleep m # as"
      "ts' = ts[i := (ts ! i)\<lparr>th_held := remove1 m (th_held (ts ! i)), th_rest := Acquire m # as,
        th_asleep := True\<rparr>]"
    | as where "i < length ts" "\<not> th_asleep (ts ! i)" "th_rest (ts ! i) = Work # as"
      "ts' = ts[i := (ts ! i)\<lparr>th_rest := as\<rparr>]"
  using assms by (auto simp: lock_turn_def split: if_splits list.splits action.splits)

lemma wake_up_cases:
  assumes "wake_up i ts = Some ts'"
  obtains "i < length ts" "th_asleep (ts ! i)" "ts' = ts[i := (ts ! i)\<lparr>th_asleep := False\<rparr>]"
  using assms by (auto simp: wake_up_def split: if_splits)

lemma list_all_update: "list_all P xs \<Longrightarrow> P x \<Longrightarrow> list_all P (xs[i := x])"
  by (auto simp: list_all_iff dest: subsetD [OF set_update_subset_insert])

lemma threads_ordered_nth:
  "threads_ordered rank ts \<Longrightarrow> i < length ts \<Longrightarrow> ordered rank (th_held (ts ! i)) (th_rest (ts ! i))"
  by (simp add: threads_ordered_def list_all_length)

lemma threads_ordered_update:
  "threads_ordered rank ts \<Longrightarrow> ordered rank (th_held t) (th_rest t) \<Longrightarrow> threads_ordered rank (ts[i := t])"
  by (simp add: threads_ordered_def list_all_update)

lemma lock_turn_keeps_order:
  assumes "threads_ordered rank ts" and "lock_turn i ts = Some ts'"
  shows "threads_ordered rank ts'"
  using assms(2) threads_ordered_nth [OF assms(1), of i]
  by (cases rule: lock_turn_cases) (simp_all add: threads_ordered_update [OF assms(1)])

lemma wake_up_keeps_order:
  assumes "threads_ordered rank ts" and "wake_up i ts = Some ts'"
  shows "threads_ordered rank ts'"
  using assms(2) threads_ordered_nth [OF assms(1), of i]
  by (cases rule: wake_up_cases) (simp add: threads_ordered_update [OF assms(1)])

lemma take_turn_keeps_order:
  "take_turn u ts = Some ts' \<Longrightarrow> threads_ordered rank ts \<Longrightarrow> threads_ordered rank ts'"
  by (cases u) (auto intro: lock_turn_keeps_order wake_up_keeps_order)

lemma pending_update:
  "i < length ts \<Longrightarrow> thread_turns (ts ! i) = Suc (thread_turns t) \<Longrightarrow> Suc (pending (ts[i := t])) = pending ts"
  by (induction ts arbitrary: i) (auto simp: pending_def split: nat.splits)

lemma lock_turn_uses_a_turn: "lock_turn i ts = Some ts' \<Longrightarrow> Suc (pending ts') = pending ts"
  by (erule lock_turn_cases) (simp_all add: pending_update thread_turns_def)

lemma wake_up_uses_a_turn: "wake_up i ts = Some ts' \<Longrightarrow> Suc (pending ts') = pending ts"
  by (erule wake_up_cases) (simp add: pending_update thread_turns_def)

lemma take_turn_uses_a_turn: "take_turn u ts = Some ts' \<Longrightarrow> Suc (pending ts') = pending ts"
  by (cases u) (simp_all add: lock_turn_uses_a_turn wake_up_uses_a_turn)

lemma run_turns_pending: "run_turns sched ts = Some ts' \<Longrightarrow> length sched + pending ts' = pending ts"
  by (induction sched arbitrary: ts) (auto split: option.splits dest: take_turn_uses_a_turn)

lemma run_turns_ordered:
  "run_turns sched ts = Some ts' \<Longrightarrow> threads_ordered rank ts \<Longrightarrow> threads_ordered rank ts'"
  by (induction sched arbitrary: ts) (auto split: option.splits dest: take_turn_keeps_order)

text \<open>A thread that waits for a mutex: its holder wants a mutex of a higher rank, if any, and so
  on; the ranks of the mutexes held are bounded.\<close>

lemma blocked_gets_on:
  assumes ord: "threads_ordered rank ts"
    and bound: "\<And>t g. t \<in> set ts \<Longrightarrow> g \<in> set (th_held t) \<Longrightarrow> rank g \<le> B"
  shows "i < length ts \<Longrightarrow> th_rest (ts ! i) = Acquire m # as \<Longrightarrow> gets_on ts i"
proof (induction "B - rank m" arbitrary: i m as rule: less_induct)
  case less
  show ?case
  proof (cases "th_asleep (ts ! i) \<or> mutex_free m ts")
    case True
    then have "th_asleep (ts ! i) \<or> lock_turn i ts \<noteq> None"
      using less.prems by (auto simp: lock_turn_def)
    then show ?thesis using less.prems(1) by (auto intro: gets_on.intros)
  next
    case False
    then obtain j where j: "j < length ts" "m \<in> set (th_held (ts ! j))"
      by (auto simp: mutex_free_def list_all_length)
    have mine: "ordered rank (th_held (ts ! j)) (th_rest (ts ! j))"
      using ord j(1) by (rule threads_ordered_nth)
    have mB: "rank m \<le> B" using bound [of "ts ! j" m] j by simp
    have "gets_on ts j"
    proof (cases "th_asleep (ts ! j) \<or> lock_turn j ts \<noteq> None")
      case True
      then show ?thesis using j(1) by (auto intro: gets_on.intros)
    next
      case False
      have "th_rest (ts ! j) \<noteq> []" using mine j(2) by auto
      then obtain m' as' where a: "th_rest (ts ! j) = Acquire m' # as'" and "\<not> mutex_free m' ts"
        using False j(1) by (auto simp: lock_turn_def split: list.splits action.splits if_splits)
      then obtain j' where "j' < length ts" "m' \<in> set (th_held (ts ! j'))"
        by (auto simp: mutex_free_def list_all_length)
      then have "rank m' \<le> B" using bound [of "ts ! j'" m'] by simp
      moreover have "rank m < rank m'"
        using mine j(2) a by (auto simp: list_all_iff)
      ultimately have "B - rank m' < B - rank m" by linarith
      then show ?thesis using less.hyps j(1) a by blast
    qed
    then show ?thesis
      using gets_on.Waits_For_Holder [OF less.prems j] by blast
  qed
qed

lemma ordered_threads_get_on:
  assumes ord: "threads_ordered rank ts"
  shows "all_get_on ts"
proof -
  let ?ranks = "\<Union>t\<in>set ts. rank ` set (th_held t)"
  have bound: "rank g \<le> Max (insert 0 ?ranks)" if "t \<in> set ts" and "g \<in> set (th_held t)" for t g
    using that by (intro Max_ge) auto
  have "ended (ts ! i) \<or> gets_on ts i" if i: "i < length ts" for i
  proof (cases "th_asleep (ts ! i) \<or> lock_turn i ts \<noteq> None")
    case True
    then show ?thesis using i by (auto intro: gets_on.intros)
  next
    case False
    have "ordered rank (th_held (ts ! i)) (th_rest (ts ! i))"
      using ord i by (rule threads_ordered_nth)
    then consider "ended (ts ! i)" | m as where "th_rest (ts ! i) = Acquire m # as"
      using False i by (auto simp: ended_def lock_turn_def split: list.splits action.splits if_splits)
    then show ?thesis
    proof cases
      case (2 m as)
      have "gets_on ts i"
        by (rule blocked_gets_on [OF ord _ i 2, of "Max (insert 0 ?ranks)"]) (rule bound)
      then show ?thesis ..
    qed simp
  qed
  then show ?thesis by (simp add: all_get_on_def list_all_iff)
qed

lemma runs_under_ordered: "runs_under rank b p \<Longrightarrow> ordered rank [] p"
  using runs_underD [of rank b p "[]" "[]"] by simp

lemma start_threads_ordered:
  "list_all (runs_under rank 0) progs \<Longrightarrow> threads_ordered rank (start_threads progs)"
  by (auto simp: threads_ordered_def start_threads_def list_all_iff dest: runs_under_ordered)

text \<open>A mutex is held by one thread at a time.\<close>

definition exclusive :: "'m thread list \<Rightarrow> bool" where
  "exclusive ts = (\<forall>i<length ts. \<forall>j<length ts. i \<noteq> j \<longrightarrow>
    set (th_held (ts ! i)) \<inter> set (th_held (ts ! j)) = {})"

lemma exclusive_update:
  assumes "exclusive ts" and "i < length ts" and "set (th_held t) \<subseteq> set (th_held (ts ! i))"
  shows "exclusive (ts[i := t])"
  using assms by (auto simp: exclusive_def nth_list_update)

lemma lock_turn_keeps_exclusive:
  assumes "exclusive ts" and "lock_turn i ts = Some ts'"
  shows "exclusive ts'"
  using assms(2)
proof (cases rule: lock_turn_cases)
  case (1 m as)
  then have "m \<notin> set (th_held (ts ! j))" if "j < length ts" for j
    using that by (simp add: mutex_free_def list_all_length)
  then show ?thesis
    using assms(1) 1 by (auto simp: exclusive_def nth_list_update)
qed (simp_all add: exclusive_update [OF assms(1)] set_remove1_subset)

lemma take_turn_keeps_exclusive:
  "take_turn u ts = Some ts' \<Longrightarrow> exclusive ts \<Longrightarrow> exclusive ts'"
  by (cases u) (auto intro: lock_turn_keeps_exclusive exclusive_update elim!: wake_up_cases)

lemma run_turns_exclusive:
  "run_turns sched ts = Some ts' \<Longrightarrow> exclusive ts \<Longrightarrow> exclusive ts'"
  by (induction sched arbitrary: ts) (auto split: option.splits dest: take_turn_keeps_exclusive)

lemma start_threads_exclusive: "exclusive (start_threads progs)"
  by (simp add: exclusive_def start_threads_def)

section \<open>The contract of a library that locks in order\<close>

locale lock_order =
  fixes rank :: "'m \<Rightarrow> nat"
    and actions :: "'a \<Rightarrow> 'm action list"
    and allowed :: "'a \<Rightarrow> bool"
  assumes allowed_runs: "allowed a \<Longrightarrow> runs_under rank 0 (actions a)"
begin

lemma programs_ordered:
  "list_all (list_all allowed) progs \<Longrightarrow>
    threads_ordered rank (start_threads (map (\<lambda>p. concat (map actions p)) progs))"
  by (intro start_threads_ordered)
    (auto simp: list_all_iff intro!: runs_under_intros allowed_runs)

abbreviation start :: "'a list list \<Rightarrow> 'm thread list" where
  "start progs \<equiv> start_threads (map (\<lambda>p. concat (map actions p)) progs)"

text \<open>Whatever the schedule, no mutex is held twice, every thread that has not ended gets on,
  and no schedule is longer than the programs.\<close>

lemma no_deadlock:
  assumes "list_all (list_all allowed) progs" and "run_turns sched (start progs) = Some ts"
  shows "exclusive ts \<and> all_get_on ts \<and> length sched + pending ts = pending (start progs)"
proof -
  have "threads_ordered rank ts"
    using assms(2) programs_ordered [OF assms(1)] by (rule run_turns_ordered)
  then show ?thesis
    using ordered_threads_get_on run_turns_pending [OF assms(2)]
      run_turns_exclusive [OF assms(2) start_threads_exclusive] by blast
qed

end

text \<open>Where nobody sleeps, threads that all get on have ended or one of them can take its turn.\<close>

lemma gets_on_goes: "gets_on ts i \<Longrightarrow> (\<exists>j. lock_turn j ts \<noteq> None) \<or> list_ex th_asleep ts"
  by (induction rule: gets_on.induct) (auto simp: list_ex_iff)

lemma gets_on_blocked:
  assumes "\<And>j. lock_turn j ts = None" "\<not> list_ex th_asleep ts"
  shows "\<not> gets_on ts i"
proof
  assume "gets_on ts i"
  from gets_on_goes [OF this] show False using assms by simp
qed

end
