(* ===== verification/Locks.thy ===== *)
theory Locks
  imports Lock_Order
begin

text \<open>
  The mutexes of the library and the code that locks them, as programs of the theory
  Lock_Order: every method and handler of client, subscriber, sentinel and connection that
  holds a \<open>lock_guard\<close> or \<open>unique_lock\<close>, with the user's callbacks as lists of the calls they
  make. The order is: the channels of a subscriber, its patterns, the callbacks of a client,
  the callbacks of a sentinel, the buffer of a connection. Calling a callback with a mutex
  locked is safe where the callback's calls lock mutexes further down only; where they do not,
  threads block one another, as the last lemma shows on two cases. A wait on a condition
  variable sleeps, any number of times, and each time perhaps for ever: in a callback of a
  reply \<open>sync_commit\<close> waits for the end of that callback, and the documentation
  (includes/cpp_redis/core/client.hpp 197) does not permit it. When replies wake the thread is
  shown in Sync_Wait. Here it is the mutexes alone that are shown not to block.
  The mutex of the logger is held for one line of output, and taken by no code that holds it;
  it is part of \<open>Work\<close>.
\<close>

section \<open>The mutexes\<close>

text \<open>A sentinel and a connection belong to a client or a subscriber, or a sentinel is used on
  its own. Objects of one class are numbered.\<close>

datatype owner = Of_Client nat | Of_Subscriber nat | On_Its_Own nat

datatype mutex =
    Channels_Of nat
  | Patterns_Of nat
  | Callbacks_Of nat
  | Sentinel_Callbacks_Of owner
  | Buffer_Of owner
  | Sentinel_Buffer_Of owner

fun mutex_rank :: "mutex \<Rightarrow> nat" where
  "mutex_rank (Channels_Of i) = 0"
| "mutex_rank (Patterns_Of i) = 1"
| "mutex_rank (Callbacks_Of i) = 2"
| "mutex_rank (Sentinel_Callbacks_Of ow) = 3"
| "mutex_rank (Buffer_Of ow) = 4"
| "mutex_rank (Sentinel_Buffer_Of ow) = 4"

section \<open>The methods\<close>

text \<open>\<open>send\<close> and \<open>commit\<close> of a connection hold the mutex of its buffer to their end, an
  exception of the TCP client included.\<close>

definition send_locks :: "mutex \<Rightarrow> mutex action list" where
  "send_locks buffer = locked buffer [Work]"

definition commit_locks :: "mutex \<Rightarrow> mutex action list" where
  "commit_locks buffer = locked buffer [Work]"

text \<open>How a commit goes: nothing is written during a reconnection; the TCP client takes the
  bytes, or refuses them and the exception goes through.\<close>

datatype commit_run = While_Reconnecting | Refused | Written

text \<open>\<open>sync_commit\<close> waits in the same way with a timeout and without, after a commit that was
  not refused. \<open>clear_callbacks\<close> of the client locks nothing; that of the sentinel locks the mutex of
  the sentinel's callbacks.\<close>

definition client_commit_locks :: "nat \<Rightarrow> commit_run \<Rightarrow> mutex action list" where
  "client_commit_locks i r =
    (case r of
       While_Reconnecting \<Rightarrow> []
     | Refused \<Rightarrow> commit_locks (Buffer_Of (Of_Client i)) @ [Work]
     | Written \<Rightarrow> commit_locks (Buffer_Of (Of_Client i)))"

definition client_sync_locks :: "nat \<Rightarrow> commit_run \<Rightarrow> nat \<Rightarrow> mutex action list" where
  "client_sync_locks i r wakeups =
    client_commit_locks i r @ (if r = Refused then [] else waiting (Callbacks_Of i) wakeups)"

definition sentinel_send_locks :: "owner \<Rightarrow> mutex action list" where
  "sentinel_send_locks ow =
    locked (Sentinel_Callbacks_Of ow) (send_locks (Sentinel_Buffer_Of ow) @ [Work])"

definition sentinel_clear_locks :: "owner \<Rightarrow> mutex action list" where
  "sentinel_clear_locks ow = locked (Sentinel_Callbacks_Of ow) [Work]"

definition sentinel_commit_locks :: "owner \<Rightarrow> bool \<Rightarrow> mutex action list" where
  "sentinel_commit_locks ow refused =
    commit_locks (Sentinel_Buffer_Of ow) @ (if refused then sentinel_clear_locks ow else [])"

definition sentinel_sync_locks :: "owner \<Rightarrow> bool \<Rightarrow> nat \<Rightarrow> mutex action list" where
  "sentinel_sync_locks ow refused wakeups =
    sentinel_commit_locks ow refused
      @ (if refused then [] else waiting (Sentinel_Callbacks_Of ow) wakeups)"

definition command_locks :: "nat \<Rightarrow> mutex action list" where
  "command_locks i = locked (Callbacks_Of i) (send_locks (Buffer_Of (Of_Client i)) @ [Work])"

text \<open>\<open>unsubscribe\<close> of a channel that is not in the map sends nothing.\<close>

definition subscribe_locks :: "nat \<Rightarrow> mutex action list" where
  "subscribe_locks i = locked (Channels_Of i) ([Work] @ send_locks (Buffer_Of (Of_Subscriber i)))"

definition psubscribe_locks :: "nat \<Rightarrow> mutex action list" where
  "psubscribe_locks i = locked (Patterns_Of i) ([Work] @ send_locks (Buffer_Of (Of_Subscriber i)))"

definition unsubscribe_locks :: "nat \<Rightarrow> bool \<Rightarrow> mutex action list" where
  "unsubscribe_locks i found =
    locked (Channels_Of i)
      ([Work] @ (if found then send_locks (Buffer_Of (Of_Subscriber i)) @ [Work] else []))"

definition punsubscribe_locks :: "nat \<Rightarrow> bool \<Rightarrow> mutex action list" where
  "punsubscribe_locks i found =
    locked (Patterns_Of i)
      ([Work] @ (if found then send_locks (Buffer_Of (Of_Subscriber i)) @ [Work] else []))"

definition subscriber_auth_locks :: "nat \<Rightarrow> mutex action list" where
  "subscriber_auth_locks i = [Work] @ send_locks (Buffer_Of (Of_Subscriber i))"

definition subscriber_commit_locks :: "nat \<Rightarrow> mutex action list" where
  "subscriber_commit_locks i = commit_locks (Buffer_Of (Of_Subscriber i))"

text \<open>A lookup of the master that finds a sentinel sends it the question and waits for the
  answer; one that finds none locks nothing.\<close>

type_synonym lookup_run = "(bool \<times> nat) option"

definition lookup_locks :: "owner \<Rightarrow> lookup_run \<Rightarrow> mutex action list" where
  "lookup_locks ow run =
    (case run of
       None \<Rightarrow> [Work]
     | Some (refused, wakeups) \<Rightarrow>
         [Work] @ sentinel_send_locks ow @ sentinel_sync_locks ow refused wakeups @ [Work])"

text \<open>The methods a user, or a callback, calls. \<open>Command_Call\<close> stands for every command of the
  client: \<open>auth\<close> and \<open>select\<close> lock as \<open>send\<close> does.\<close>

datatype call =
    Command_Call nat
  | Commit_Call nat commit_run
  | Sync_Commit_Call nat commit_run nat
  | Sentinel_Command_Call owner
  | Sentinel_Commit_Call owner bool
  | Sentinel_Sync_Call owner bool nat
  | Lookup_Call owner lookup_run
  | Subscribe_Call nat
  | Unsubscribe_Call nat bool
  | Psubscribe_Call nat
  | Punsubscribe_Call nat bool
  | Subscriber_Auth_Call nat
  | Subscriber_Commit_Call nat

fun call_actions :: "call \<Rightarrow> mutex action list" where
  "call_actions (Command_Call i) = command_locks i"
| "call_actions (Commit_Call i r) = client_commit_locks i r"
| "call_actions (Sync_Commit_Call i r n) = client_sync_locks i r n"
| "call_actions (Sentinel_Command_Call ow) = sentinel_send_locks ow"
| "call_actions (Sentinel_Commit_Call ow refused) = sentinel_commit_locks ow refused"
| "call_actions (Sentinel_Sync_Call ow refused n) = sentinel_sync_locks ow refused n"
| "call_actions (Lookup_Call ow run) = lookup_locks ow run"
| "call_actions (Subscribe_Call i) = subscribe_locks i"
| "call_actions (Unsubscribe_Call i found) = unsubscribe_locks i found"
| "call_actions (Psubscribe_Call i) = psubscribe_locks i"
| "call_actions (Punsubscribe_Call i found) = punsubscribe_locks i found"
| "call_actions (Subscriber_Auth_Call i) = subscriber_auth_locks i"
| "call_actions (Subscriber_Commit_Call i) = subscriber_commit_locks i"

definition calls_actions :: "call list \<Rightarrow> mutex action list" where
  "calls_actions cs = concat (map call_actions cs)"

text \<open>The lowest mutex a call locks.\<close>

fun call_level :: "call \<Rightarrow> nat" where
  "call_level (Command_Call i) = 2"
| "call_level (Commit_Call i r) = 4"
| "call_level (Sync_Commit_Call i r n) = 2"
| "call_level (Sentinel_Command_Call ow) = 3"
| "call_level (Sentinel_Commit_Call ow refused) = 3"
| "call_level (Sentinel_Sync_Call ow refused n) = 3"
| "call_level (Lookup_Call ow run) = 3"
| "call_level (Subscribe_Call i) = 0"
| "call_level (Unsubscribe_Call i found) = 0"
| "call_level (Psubscribe_Call i) = 1"
| "call_level (Punsubscribe_Call i found) = 1"
| "call_level (Subscriber_Auth_Call i) = 4"
| "call_level (Subscriber_Commit_Call i) = 4"

section \<open>Attempts to reconnect\<close>

text \<open>An attempt: the connect callback may be told of the pause, the sentinel may be asked, and
  then the lookup or the connection fails, or the commands are sent again and committed. Every
  call of the connect callback is the list of the calls it makes. A lookup that throws ends
  the handler; it is a last attempt with nothing behind it.\<close>

datatype attempt_end =
    Lookup_Failed "call list"
  | Connect_Failed "call list" "call list"
  | Reconnected "call list" "call list" nat

record attempt =
  at_sleeping :: "call list"
  at_lookup :: "lookup_run option"
  at_end :: attempt_end

fun attempt_end_actions :: "owner \<Rightarrow> attempt_end \<Rightarrow> mutex action list" where
  "attempt_end_actions ow (Lookup_Failed told) = calls_actions told"
| "attempt_end_actions ow (Connect_Failed started failed) =
    calls_actions started @ [Work] @ calls_actions failed"
| "attempt_end_actions ow (Reconnected started connected sends) =
    calls_actions started @ [Work] @ calls_actions connected
      @ concat (replicate sends (send_locks (Buffer_Of ow))) @ commit_locks (Buffer_Of ow)"

definition attempt_actions :: "owner \<Rightarrow> attempt \<Rightarrow> mutex action list" where
  "attempt_actions ow a =
    calls_actions (at_sleeping a)
      @ (case at_lookup a of None \<Rightarrow> [] | Some run \<Rightarrow> lookup_locks ow run)
      @ attempt_end_actions ow (at_end a)"

fun attempt_end_calls :: "attempt_end \<Rightarrow> call list" where
  "attempt_end_calls (Lookup_Failed told) = told"
| "attempt_end_calls (Connect_Failed started failed) = started @ failed"
| "attempt_end_calls (Reconnected started connected sends) = started @ connected"

definition attempt_calls :: "attempt \<Rightarrow> call list" where
  "attempt_calls a = at_sleeping a @ attempt_end_calls (at_end a)"

section \<open>The handlers\<close>

text \<open>What the threads do: a thread of the user and the detached thread of \<open>clear_callbacks\<close>
  make calls with no mutex of the library locked; the TCP client's threads run the handlers.
  The callbacks of channels and of patterns are the acknowledgement and subscription
  callbacks. A disconnection handler that finds a reconnection under way does nothing.\<close>

datatype activity =
    Calls "call list"
  | Client_Reply nat "call list"
  | Client_Disconnection nat "call list" "attempt list" "call list"
  | Sentinel_Reply owner "call list"
  | Sentinel_Disconnection owner "call list"
  | Channel_Callback nat "call list"
  | Pattern_Callback nat "call list"
  | Subscriber_Disconnection nat "call list" "attempt list" "call list"

definition reconnection_actions ::
  "owner \<Rightarrow> attempt list \<Rightarrow> call list \<Rightarrow> mutex action list"
where
  "reconnection_actions ow attempts stopped =
    concat (map (attempt_actions ow) attempts) @ [Work] @ calls_actions stopped"

text \<open>The callback of a reply runs between the two critical sections.\<close>

definition client_reply_locks :: "nat \<Rightarrow> call list \<Rightarrow> mutex action list" where
  "client_reply_locks i body =
    locked (Callbacks_Of i) [Work] @ calls_actions body @ locked (Callbacks_Of i) [Work]"

definition sentinel_reply_locks :: "owner \<Rightarrow> call list \<Rightarrow> mutex action list" where
  "sentinel_reply_locks ow body =
    locked (Sentinel_Callbacks_Of ow) [Work] @ calls_actions body
      @ locked (Sentinel_Callbacks_Of ow) [Work]"

definition sentinel_disconnection_locks :: "owner \<Rightarrow> call list \<Rightarrow> mutex action list" where
  "sentinel_disconnection_locks ow body = sentinel_clear_locks ow @ calls_actions body"

text \<open>The subscriber looks the callback up and calls it under the mutex of its map.\<close>

definition channel_callback_locks :: "nat \<Rightarrow> call list \<Rightarrow> mutex action list" where
  "channel_callback_locks i body = locked (Channels_Of i) ([Work] @ calls_actions body)"

definition pattern_callback_locks :: "nat \<Rightarrow> call list \<Rightarrow> mutex action list" where
  "pattern_callback_locks i body = locked (Patterns_Of i) ([Work] @ calls_actions body)"

text \<open>The disconnection handlers tell the connect callback of the loss, and then hold the
  mutexes through all attempts.\<close>

definition client_disconnection_locks ::
  "nat \<Rightarrow> call list \<Rightarrow> attempt list \<Rightarrow> call list \<Rightarrow> mutex action list"
where
  "client_disconnection_locks i dropped attempts stopped =
    calls_actions dropped
      @ locked (Callbacks_Of i) (reconnection_actions (Of_Client i) attempts stopped)"

definition subscriber_disconnection_locks ::
  "nat \<Rightarrow> call list \<Rightarrow> attempt list \<Rightarrow> call list \<Rightarrow> mutex action list"
where
  "subscriber_disconnection_locks i dropped attempts stopped =
    calls_actions dropped
      @ locked (Channels_Of i)
          (locked (Patterns_Of i) (reconnection_actions (Of_Subscriber i) attempts stopped))"

fun activity_actions :: "activity \<Rightarrow> mutex action list" where
  "activity_actions (Calls cs) = calls_actions cs"
| "activity_actions (Client_Reply i body) = client_reply_locks i body"
| "activity_actions (Client_Disconnection i dropped attempts stopped) =
    client_disconnection_locks i dropped attempts stopped"
| "activity_actions (Sentinel_Reply ow body) = sentinel_reply_locks ow body"
| "activity_actions (Sentinel_Disconnection ow body) = sentinel_disconnection_locks ow body"
| "activity_actions (Channel_Callback i body) = channel_callback_locks i body"
| "activity_actions (Pattern_Callback i body) = pattern_callback_locks i body"
| "activity_actions (Subscriber_Disconnection i dropped attempts stopped) =
    subscriber_disconnection_locks i dropped attempts stopped"

definition thread_program :: "activity list \<Rightarrow> mutex action list" where
  "thread_program as = concat (map activity_actions as)"

text \<open>What callbacks may do: under a mutex, calls that lock mutexes further down only.\<close>

definition calls_above :: "nat \<Rightarrow> call list \<Rightarrow> bool" where
  "calls_above b cs = list_all (\<lambda>c. b \<le> call_level c) cs"

fun activity_allowed :: "activity \<Rightarrow> bool" where
  "activity_allowed (Calls cs) = True"
| "activity_allowed (Client_Reply i body) = True"
| "activity_allowed (Client_Disconnection i dropped attempts stopped) =
    (list_all (\<lambda>a. calls_above 3 (attempt_calls a)) attempts \<and> calls_above 3 stopped)"
| "activity_allowed (Sentinel_Reply ow body) = True"
| "activity_allowed (Sentinel_Disconnection ow body) = True"
| "activity_allowed (Channel_Callback i body) = calls_above 1 body"
| "activity_allowed (Pattern_Callback i body) = calls_above 2 body"
| "activity_allowed (Subscriber_Disconnection i dropped attempts stopped) =
    (list_all (\<lambda>a. calls_above 2 (attempt_calls a)) attempts \<and> calls_above 2 stopped)"

section \<open>Every call locks in order\<close>

lemmas lock_defs =
  send_locks_def commit_locks_def client_commit_locks_def client_sync_locks_def
  sentinel_send_locks_def sentinel_clear_locks_def sentinel_commit_locks_def
  sentinel_sync_locks_def lookup_locks_def command_locks_def subscribe_locks_def
  psubscribe_locks_def unsubscribe_locks_def punsubscribe_locks_def subscriber_auth_locks_def
  subscriber_commit_locks_def

lemmas handler_locks =
  client_reply_locks_def sentinel_reply_locks_def sentinel_disconnection_locks_def
  channel_callback_locks_def pattern_callback_locks_def client_disconnection_locks_def
  subscriber_disconnection_locks_def

lemma runs_under_send:
  "b \<le> mutex_rank m \<Longrightarrow> runs_under mutex_rank b (send_locks m)"
  "b \<le> mutex_rank m \<Longrightarrow> runs_under mutex_rank b (commit_locks m)"
  by (simp_all add: send_locks_def commit_locks_def runs_under_intros)

lemma runs_under_work_before [runs_under_intros]:
  "runs_under rank b as \<Longrightarrow> runs_under rank b (Work # as)"
  using runs_under_append [OF runs_under_work] by fastforce

lemma runs_under_sentinel:
  assumes "b \<le> 3"
  shows "runs_under mutex_rank b (sentinel_send_locks ow)"
    and "runs_under mutex_rank b (sentinel_clear_locks ow)"
    and "runs_under mutex_rank b (sentinel_commit_locks ow refused)"
    and "runs_under mutex_rank b (sentinel_sync_locks ow refused n)"
    and "runs_under mutex_rank b (lookup_locks ow run)"
  using assms
  by (auto simp: lock_defs intro!: runs_under_intros split: option.splits)

lemma call_runs_under: "b \<le> call_level c \<Longrightarrow> runs_under mutex_rank b (call_actions c)"
  by (cases c)
    (auto simp: lock_defs intro!: runs_under_intros split: commit_run.splits option.splits)

lemma calls_run_under: "calls_above b cs \<Longrightarrow> runs_under mutex_rank b (calls_actions cs)"
  by (auto simp: calls_actions_def calls_above_def list_all_iff
      intro!: runs_under_concat call_runs_under)

lemma calls_above_append [simp]:
  "calls_above b (xs @ ys) \<longleftrightarrow> calls_above b xs \<and> calls_above b ys"
  by (simp add: calls_above_def)

lemma calls_above_0 [simp]: "calls_above 0 cs"
  by (simp add: calls_above_def list_all_iff)

lemma attempt_end_runs_under:
  "b \<le> 3 \<Longrightarrow> calls_above b (attempt_end_calls e) \<Longrightarrow>
    runs_under mutex_rank b (attempt_end_actions ow e)"
  by (cases e)
    (auto simp: list_all_iff intro!: runs_under_intros calls_run_under runs_under_send)

lemma attempt_runs_under:
  "b \<le> 3 \<Longrightarrow> calls_above b (attempt_calls a) \<Longrightarrow> runs_under mutex_rank b (attempt_actions ow a)"
  by (auto simp: attempt_actions_def attempt_calls_def intro!: runs_under_intros calls_run_under
      attempt_end_runs_under runs_under_sentinel split: option.splits)

lemma reconnection_runs_under:
  "b \<le> 3 \<Longrightarrow> list_all (\<lambda>a. calls_above b (attempt_calls a)) attempts \<Longrightarrow> calls_above b stopped \<Longrightarrow>
    runs_under mutex_rank b (reconnection_actions ow attempts stopped)"
  by (auto simp: reconnection_actions_def list_all_iff
      intro!: runs_under_intros runs_under_concat attempt_runs_under calls_run_under)

lemma activity_runs_under:
  "activity_allowed a \<Longrightarrow> runs_under mutex_rank 0 (activity_actions a)"
  by (cases a)
    (auto simp: handler_locks numeral_2_eq_2 numeral_3_eq_3
      intro!: runs_under_intros calls_run_under reconnection_runs_under runs_under_sentinel)

interpretation lib: lock_order mutex_rank activity_actions activity_allowed
  by unfold_locales (rule activity_runs_under)

section \<open>Deadlock\<close>

text \<open>C9: the mutexes never block the threads in a circle. Whatever methods the threads call and
  whatever handlers they run, on any number of clients, subscribers and sentinels, as long as
  the callbacks the library calls with a mutex locked make calls on lower mutexes only: at any
  time, under any schedule, no mutex is held by two threads, and each thread that has not
  ended can go on, or waits on a condition variable in a \<open>sync_commit\<close>, or waits for a mutex
  whose holder, through a finite chain of such waits, does one or the other; and every
  schedule is bounded by the programs. A wait on a condition variable may last for ever: that
  is not excluded here.\<close>

theorem mutexes_never_deadlock:
  assumes "list_all (list_all activity_allowed) progs"
    and "run_turns sched (start_threads (map thread_program progs)) = Some ts"
  shows "exclusive ts \<and> all_get_on ts
    \<and> length sched + pending ts = pending (start_threads (map thread_program progs))"
  using assms unfolding thread_program_def [abs_def] by (rule lib.no_deadlock)

lemmas run_simps = lock_turn_def wake_up_def mutex_free_def start_threads_def locked_def waiting_def

text \<open>A thread that sleeps in \<open>sync_commit\<close> and is woken, beside the callback of a channel.\<close>

theorem mutexes_never_deadlock_witness:
  "\<exists>ts. run_turns [Turn 0, Turn 0, Turn 0, Turn 0, Turn 0, Turn 1, Turn 1, Wake_Up 0]
      (start_threads (map thread_program
        [[Calls [Sync_Commit_Call 0 Written 1]], [Channel_Callback 0 [Psubscribe_Call 0, Command_Call 0]]]))
      = Some ts \<and> exclusive ts \<and> all_get_on ts"
proof -
  let ?progs = "[[Calls [Sync_Commit_Call 0 Written 1]],
    [Channel_Callback 0 [Psubscribe_Call 0, Command_Call 0]]]"
  let ?sched = "[Turn 0, Turn 0, Turn 0, Turn 0, Turn 0, Turn 1, Turn 1, Wake_Up 0]"
  obtain ts where run: "run_turns ?sched (start_threads (map thread_program ?progs)) = Some ts"
    by (simp add: thread_program_def calls_actions_def lock_defs handler_locks run_simps)
  have "list_all (list_all activity_allowed) ?progs"
    by (simp add: calls_above_def)
  from mutexes_never_deadlock [OF this run] show ?thesis
    using run by blast
qed

lemma one_blocked:
  fixes t :: "mutex thread"
  assumes "\<not> th_asleep t" and "lock_turn 0 [t] = None"
  shows "\<not> gets_on [t] n"
proof (rule gets_on_blocked)
  show "lock_turn j [t] = None" for j
    using assms(2) by (cases j) (auto simp: lock_turn_def)
  show "\<not> list_ex th_asleep [t]"
    using assms(1) by simp
qed

lemma two_blocked:
  fixes t u :: "mutex thread"
  assumes "\<not> th_asleep t" "\<not> th_asleep u"
    and "lock_turn 0 [t, u] = None" "lock_turn (Suc 0) [t, u] = None"
  shows "\<not> gets_on [t, u] n"
proof (rule gets_on_blocked)
  show "lock_turn j [t, u] = None" for j
    using assms(3,4) by (cases j; cases "j - 1") (auto simp: lock_turn_def)
  show "\<not> list_ex th_asleep [t, u]"
    using assms(1,2) by simp
qed

text \<open>The restriction is needed. A pattern's callback that subscribes to a channel waits for
  the mutex of the channels with that of the patterns locked, while the disconnection handler
  locks them in the other order; and a connect callback that sends a command when the client
  has given up waits for the mutex its own thread has locked. In both cases no thread gets on.\<close>

lemma callbacks_can_deadlock:
  "(\<exists>ts. run_turns [Turn 0, Turn 0, Turn 1] (start_threads (map thread_program
        [[Pattern_Callback i [Subscribe_Call i]],
         [Subscriber_Disconnection i [] attempts stopped]])) = Some ts
      \<and> \<not> gets_on ts 0 \<and> \<not> gets_on ts 1)
   \<and> (\<exists>ts. run_turns [Turn 0, Turn 0] (start_threads (map thread_program
        [[Client_Disconnection j [] [] [Command_Call j]]])) = Some ts
      \<and> \<not> gets_on ts 0)"
proof
  show "\<exists>ts. run_turns [Turn 0, Turn 0, Turn 1] (start_threads (map thread_program
        [[Pattern_Callback i [Subscribe_Call i]],
         [Subscriber_Disconnection i [] attempts stopped]])) = Some ts
      \<and> \<not> gets_on ts 0 \<and> \<not> gets_on ts 1"
    by (simp add: thread_program_def calls_actions_def reconnection_actions_def lock_defs handler_locks
        run_simps)
      (intro conjI two_blocked; simp add: lock_turn_def mutex_free_def)
  show "\<exists>ts. run_turns [Turn 0, Turn 0] (start_threads (map thread_program
        [[Client_Disconnection j [] [] [Command_Call j]]])) = Some ts
      \<and> \<not> gets_on ts 0"
    by (simp add: thread_program_def calls_actions_def reconnection_actions_def lock_defs handler_locks
        run_simps)
      (rule one_blocked; simp add: lock_turn_def mutex_free_def)
qed

end
