(* ===== verification/Logging.thy ===== *)
theory Logging
  imports Logger Client Subscriber
begin

text \<open>
  The logging macro (includes/cpp_redis/misc/logger.hpp 209-213) and the handlers of replies
  with their calls of it. Without logging compiled in the macro expands to nothing, and its
  argument is not evaluated; with it the message is computed first, logger or not, and the
  messages of two callbacks can throw. \<open>file\<close> is what \<open>__FILE__\<close> expands to.
\<close>

section \<open>The macro\<close>

definition cpp_redis_log ::
  "bool \<Rightarrow> logger_iface option \<Rightarrow> log_level \<Rightarrow> string result \<Rightarrow> string \<Rightarrow> nat \<Rightarrow>
   log_output list \<times> unit result"
where
  "cpp_redis_log enabled active level msg file at_line =
     (if \<not> enabled then ([], Inr ())
      else case msg of
          Inl e \<Rightarrow> ([], Inl e)
        | Inr m \<Rightarrow>
            (run_log_call active \<lparr>lc_level = level, lc_message = m, lc_file = file, lc_line = at_line\<rparr>,
             Inr ()))"

lemma cpp_redis_log_off [simp]: "cpp_redis_log False active level msg file at_line = ([], Inr ())"
  by (simp add: cpp_redis_log_def)

lemma cpp_redis_log_value [simp]: "snd (cpp_redis_log enabled active level (Inr m) file at_line) = Inr ()"
  by (simp add: cpp_redis_log_def)

section \<open>The callbacks that log\<close>

text \<open>The lambdas of \<open>re_auth\<close> and \<open>re_select\<close> of the client, and of \<open>re_auth\<close> of the
  subscriber: what they do is write to the log.\<close>

definition says_ok :: "reply \<Rightarrow> bool" where
  "says_ok r \<longleftrightarrow> is_string r \<and> as_string r = Inr ''OK''"

definition failure_message :: "string \<Rightarrow> reply \<Rightarrow> string result" where
  "failure_message what r =
     (case as_string r of Inl e \<Rightarrow> Inl e | Inr t \<Rightarrow> Inr (what @ t))"

definition reauth_reply ::
  "bool \<Rightarrow> logger_iface option \<Rightarrow> string \<Rightarrow> reply \<Rightarrow> log_output list \<times> unit result"
where
  "reauth_reply enabled active file r =
     (if says_ok r
      then cpp_redis_log enabled active Level_warn (Inr ''client successfully re-authenticated'') file 363
      else cpp_redis_log enabled active Level_warn
             (failure_message ''client failed to re-authenticate: '' r) file 366)"

definition reselect_reply ::
  "bool \<Rightarrow> logger_iface option \<Rightarrow> string \<Rightarrow> reply \<Rightarrow> log_output list \<times> unit result"
where
  "reselect_reply enabled active file r =
     (if says_ok r
      then cpp_redis_log enabled active Level_warn
             (Inr ''client successfully re-selected redis database'') file 379
      else cpp_redis_log enabled active Level_warn
             (failure_message ''client failed to re-select database: '' r) file 382)"

definition su_reauth_reply ::
  "bool \<Rightarrow> logger_iface option \<Rightarrow> string \<Rightarrow> reply \<Rightarrow> log_output list \<times> unit result"
where
  "su_reauth_reply enabled active file r =
     (if says_ok r
      then cpp_redis_log enabled active Level_warn
             (Inr ''subscriber successfully re-authenticated'') file 509
      else cpp_redis_log enabled active Level_warn
             (failure_message ''subscriber failed to re-authenticate: '' r) file 512)"

definition logged_callback ::
  "bool \<Rightarrow> logger_iface option \<Rightarrow> string \<Rightarrow> 'cb client_callback \<Rightarrow> reply \<Rightarrow> ('t, 'cb) client \<Rightarrow>
   ('t, 'cb) client \<times> log_output list \<times> unit result"
where
  "logged_callback enabled active file callback r s =
     (case callback of
        CC_Reauth \<Rightarrow> (s, reauth_reply enabled active file r)
      | CC_Reselect \<Rightarrow> (s, reselect_reply enabled active file r)
      | _ \<Rightarrow> (run_callback callback r s, [], Inr ()))"

section \<open>The handlers of replies\<close>

text \<open>A callback that throws leaves the handler before its second critical section.\<close>

definition logged_receive_handler ::
  "bool \<Rightarrow> logger_iface option \<Rightarrow> string \<Rightarrow> reply \<Rightarrow> ('t, 'cb) client \<Rightarrow>
   ('t, 'cb) client \<times> log_output list \<times> unit result"
where
  "logged_receive_handler enabled active file r s =
     (let out1 = fst (cpp_redis_log enabled active Level_info
            (Inr ''cpp_redis::client received reply'') file 230);
          (request, s1) = client_next_request s;
          callback = (case request of None \<Rightarrow> CC_Null | Some q \<Rightarrow> cr_callback q);
          out2 = (case callback of
              CC_Null \<Rightarrow> []
            | _ \<Rightarrow> fst (cpp_redis_log enabled active Level_debug
                (Inr ''cpp_redis::client executes reply callback'') file 242));
          run = logged_callback enabled active file callback r s1;
          s2 = fst run;
          out = out1 @ out2 @ fst (snd run)
      in case snd (snd run) of
           Inl e \<Rightarrow> (s2, out, Inl e)
         | Inr u \<Rightarrow> (s2\<lparr>cl_callbacks_running := cl_callbacks_running s2 - 1\<rparr>, out, Inr ()))"

text \<open>The subscriber: an array goes to the handlers of messages, anything else to the callback
  of \<open>auth\<close>, which is reset after it has returned.\<close>

definition su_logged_auth_reply ::
  "bool \<Rightarrow> logger_iface option \<Rightarrow> string \<Rightarrow> reply \<Rightarrow> ('t, 'cb) subscriber \<Rightarrow>
   ('t, 'cb) subscriber \<times> log_output list \<times> unit result"
where
  "su_logged_auth_reply enabled active file r s =
     (let out1 = fst (cpp_redis_log enabled active Level_debug
            (Inr ''cpp_redis::subscriber executes auth callback'') file 362)
      in case su_auth_reply_callback s of
           AC_Null \<Rightarrow> (s, [], Inr ())
         | AC_User cb \<Rightarrow> (call_auth_callback r s, out1, Inr ())
         | AC_Reauth \<Rightarrow>
             (case su_reauth_reply enabled active file r of
                (out2, Inl e) \<Rightarrow> (s, out1 @ out2, Inl e)
              | (out2, Inr u) \<Rightarrow> (call_auth_callback r s, out1 @ out2, Inr ())))"

section \<open>Logging only observes, but for replies that are not strings\<close>

definition log_throws :: "bool \<Rightarrow> reply \<Rightarrow> 'cb command_request list \<Rightarrow> bool" where
  "log_throws enabled r requests =
     (case requests of
        [] \<Rightarrow> False
      | q # rest \<Rightarrow>
          enabled \<and> \<not> is_string r \<and> (cr_callback q = CC_Reauth \<or> cr_callback q = CC_Reselect))"

lemma reply_logs:
  "snd (reauth_reply enabled active file r) =
    (if enabled \<and> \<not> is_string r then Inl (Redis_Error ''Reply is not a string'') else Inr ())"
  "snd (reselect_reply enabled active file r) =
    (if enabled \<and> \<not> is_string r then Inl (Redis_Error ''Reply is not a string'') else Inr ())"
  "snd (su_reauth_reply enabled active file r) =
    (if enabled \<and> \<not> is_string r then Inl (Redis_Error ''Reply is not a string'') else Inr ())"
  by (auto simp: reauth_reply_def reselect_reply_def su_reauth_reply_def says_ok_def
      failure_message_def as_string_def cpp_redis_log_def)

lemma logs_off:
  "reauth_reply False active file r = ([], Inr ())"
  "reselect_reply False active file r = ([], Inr ())"
  "su_reauth_reply False active file r = ([], Inr ())"
  by (simp_all add: reauth_reply_def reselect_reply_def su_reauth_reply_def)

lemma logged_callback_state [simp]:
  "fst (logged_callback enabled active file callback r s) = run_callback callback r s"
  by (cases callback) (simp_all add: logged_callback_def run_callback_def)

lemma logged_callback_result:
  "snd (snd (logged_callback enabled active file callback r s)) =
    (if enabled \<and> \<not> is_string r \<and> (callback = CC_Reauth \<or> callback = CC_Reselect)
     then Inl (Redis_Error ''Reply is not a string'') else Inr ())"
  by (cases callback) (simp_all add: logged_callback_def reply_logs)

lemma logged_callback_off:
  "fst (snd (logged_callback False active file callback r s)) = []"
  by (cases callback) (simp_all add: logged_callback_def logs_off)

lemma run_callback_null: "run_callback CC_Null r s = s"
  by (simp add: run_callback_def)

lemma run_callback_relog: "cb = CC_Reauth \<or> cb = CC_Reselect \<Longrightarrow> run_callback cb r s = s"
  by (auto simp: run_callback_def)

lemma logged_receive_split:
  "logged_receive_handler enabled active file r s =
    (let (request, s1) = client_next_request s;
         cb = (case request of None \<Rightarrow> CC_Null | Some q \<Rightarrow> cr_callback q)
     in (if enabled \<and> \<not> is_string r \<and> (cb = CC_Reauth \<or> cb = CC_Reselect) then s1
         else client_finish_request request r s1,
         fst (snd (logged_receive_handler enabled active file r s)),
         if enabled \<and> \<not> is_string r \<and> (cb = CC_Reauth \<or> cb = CC_Reselect)
         then Inl (Redis_Error ''Reply is not a string'') else Inr ()))"
proof (cases "client_next_request s")
  case (Pair request s1)
  show ?thesis
    unfolding logged_receive_handler_def Pair Let_def prod.case
    by (cases request) (auto simp: logged_callback_result run_callback_null run_callback_relog
      client_finish_request_def)
qed

lemma log_throws_next:
  "client_next_request s = (request, s1) \<Longrightarrow>
    log_throws enabled r (cl_commands s) \<longleftrightarrow>
      enabled \<and> \<not> is_string r
        \<and> (let cb = (case request of None \<Rightarrow> CC_Null | Some q \<Rightarrow> cr_callback q)
           in cb = CC_Reauth \<or> cb = CC_Reselect)"
  by (auto simp: client_next_request_def log_throws_def split: list.splits)

lemma logged_receive_returns:
  assumes "\<not> log_throws enabled r (cl_commands s)"
  shows "fst (logged_receive_handler enabled active file r s) = fst (client_receive_handler r s)"
    and "snd (snd (logged_receive_handler enabled active file r s)) = Inr ()"
  using assms
  by (subst logged_receive_split, cases "client_next_request s",
      auto simp: log_throws_next client_receive_handler_def Let_def)+

lemma logged_receive_throws:
  assumes "log_throws enabled r (cl_commands s)"
  shows "fst (logged_receive_handler enabled active file r s) = snd (client_next_request s)"
    and "snd (snd (logged_receive_handler enabled active file r s)) =
      Inl (Redis_Error ''Reply is not a string'')"
  using assms
  by (subst logged_receive_split, cases "client_next_request s", simp add: log_throws_next Let_def)+

lemma next_request_counts:
  "cl_callbacks_running (snd (client_next_request s)) = Suc (cl_callbacks_running s)"
  "cl_commands (snd (client_next_request s)) = tl (cl_commands s)"
  by (cases "cl_commands s"; simp add: client_next_request_def)+

lemma receive_keeps_running [simp]:
  "cl_callbacks_running (fst (client_receive_handler r s)) = cl_callbacks_running s"
  by (auto simp: client_receive_handler_def client_next_request_def client_finish_request_def Let_def
      split: list.splits option.splits)

lemma receives_keep_running:
  "cl_callbacks_running (fold (\<lambda>r s. fst (client_receive_handler r s)) rs s) = cl_callbacks_running s"
  by (induction rs arbitrary: s) simp_all

text \<open>C40: what logging changes. With logging not compiled in nothing is written and the
  handler of replies never throws. With it, and with whatever logger, the handler leaves the
  client as it does without, unless the reply answers the AUTH or SELECT of a reconnection and
  is not a string: then the message of the log throws, and the handler is left with the
  request gone and its callback still counted as running, so that no later replies bring
  \<open>sync_commit\<close> to return.\<close>

theorem logging_only_observes:
  "logged_receive_handler False active file r s = (fst (client_receive_handler r s), [], Inr ())
   \<and> (if log_throws enabled r (cl_commands s)
      then snd (snd (logged_receive_handler enabled active file r s))
             = Inl (Redis_Error ''Reply is not a string'')
        \<and> cl_commands (fst (logged_receive_handler enabled active file r s)) = tl (cl_commands s)
        \<and> \<not> sync_ready (fold (\<lambda>r s. fst (client_receive_handler r s)) rs
              (fst (logged_receive_handler enabled active file r s)))
      else snd (snd (logged_receive_handler enabled active file r s)) = Inr ()
        \<and> fst (logged_receive_handler enabled active file r s) = fst (client_receive_handler r s))"
proof -
  have "\<not> log_throws False r (cl_commands s)"
    by (simp add: log_throws_def split: list.splits)
  note off = logged_receive_returns [OF this]
  have "fst (snd (logged_receive_handler False active file r s)) = []"
    by (simp add: logged_receive_handler_def logged_callback_off logged_callback_result Let_def
        split: prod.splits client_callback.splits)
  with off have "logged_receive_handler False active file r s =
      (fst (client_receive_handler r s), [], Inr ())"
    by (simp add: prod_eq_iff)
  then show ?thesis
    by (simp add: logged_receive_returns logged_receive_throws next_request_counts sync_ready_def
        receives_keep_running)
qed

lemma su_logged_auth_reply_throws:
  assumes "su_auth_reply_callback s = AC_Reauth" and "\<not> is_string r"
  shows "fst (su_logged_auth_reply True active file r s) = s"
    and "snd (snd (su_logged_auth_reply True active file r s)) =
      Inl (Redis_Error ''Reply is not a string'')"
  using assms
  by (auto simp: su_logged_auth_reply_def reply_logs Let_def split: prod.splits sum.splits
      dest: arg_cong [where f = snd])

end
