(* ===== verification/Spec2Isabelle.thy ===== *)
theory Spec2Isabelle
  imports Prelude Reply Resp Client_Calls Subscriber Logger
    Sync_Wait Alignment Reentrancy Hazards Shared_Tcp Tcp_Client Variadic
    End_To_End Detached Message_Stream Survival Server_Side Failover Subscriber_Failover
    Locks Logging
begin

text \<open>
  cpp_redis, a C++11 client library for the Redis server.

  \<^bold>\<open>The program.\<close> Bytes that arrive on a socket go through the builders (sources/builders/),
  which turn them into replies (sources/core/reply.cpp). A \<open>redis_connection\<close>
  (sources/network/redis_connection.cpp) owns a TCP client, the buffer of commands not yet
  written and a \<open>reply_builder\<close>; it hands each reply to the handler of its owner, and tells it
  about disconnections. There are three owners: \<open>client\<close> (a queue of requests, each reply
  goes to the callback of the oldest one), \<open>sentinel\<close> (the same in small, to look up a
  master's address) and \<open>subscriber\<close> (messages go to the callback of their channel or
  pattern). Client and subscriber reconnect from their disconnection handler.

  \<^bold>\<open>The theories.\<close>
  \<^item> Prelude: outcomes of C++ code (a value, an exception, undefined behaviour), 32-bit and
    64-bit arithmetic, \<open>std::to_string\<close>, \<open>std::stoi\<close>, searching for the end of a line.
  \<^item> Reply: the reply value. Resp: the grammar of replies, independent of the builders.
  \<^item> Builder_Iface: the contract of a builder as a locale. Scalar_Builders, Array_Builder,
    Reply_Builder: the builders with their buffers, each an interpretation of the contract.
  \<^item> Connection: \<open>redis_connection\<close>, with the locale of the owners of a connection. The TCP
    client is the record \<open>tcp_ops\<close> of its virtual functions, a parameter of every definition
    that reaches it; its state is the type variable \<open>'t\<close>.
  \<^item> Pipeline: the locales of a queue of requests and of a reconnection loop, and waiting
    on a condition variable against the events still to come. Delivery: a stream of encoded
    replies in packets read by an owner of a connection, as a locale.
  \<^item> Sentinel, Client, Subscriber: the owners, each an interpretation of these locales.
    Ordered_Map: the interface of \<open>std::map\<close> the subscriber uses.
  \<^item> Client_System: the client among its threads, as a step relation, with the moments of a
    commit, of \<open>disconnect\<close> and of \<open>clear_callbacks\<close> between which other threads can come.
    Sync_Wait: the thread that waits in \<open>sync_commit\<close> on the condition variable, beside the
    others. Alignment: the client and the server, on a TCP client that records what was
    written. Hazards: the destructors, and a request sent while a commit fails. Reentrancy:
    user callbacks that call the object back. Shared_Tcp: a client or a subscriber and its
    sentinel on one TCP client (the constructors that take a custom one).
  \<^item> Command_Data, Commands_A_G, Commands_G_R, Commands_S, Commands_Z, Commands: every
    callback-based method of \<open>client\<close> with the words it sends. Client_Calls: these methods as
    calls on the client's state, \<open>client_kill\<close>, and the methods that return futures.
  \<^item> Variadic: the type traits of includes/cpp_redis/helpers/variadic_template.hpp and the
    compile-time checks of \<open>client_kill\<close>. Tcp_Client: the wrapper around the TCP client of
    the tacopie library. Logger: the default logger and the active logger.

  \<^item> End_To_End: the program from the calls of methods to the answers in callbacks and futures,
    with a server that answers the bytes written over the connection.
    Survival: the same across a lost connection. Detached: the threads of failed commits run
    to their end. Message_Stream: the messages a server pushes to a subscriber.
  \<^item> Server_Side: the subscriptions the server holds for a connection, beside the maps of the
    subscriber. Failover, Subscriber_Failover: a client or a subscriber that lost its master
    asks the sentinel and goes on with the master it names.
  \<^item> Lock_Order: threads, mutexes, waits on condition variables and locking in order, with
    the locale of a library that keeps to an order. Locks: what every method and handler locks,
    as programs of threads. Logging: the logging macro in the handlers whose behaviour it can change.

  \<^bold>\<open>Correspondence.\<close> A class is a record with its fields; a method is a function that returns
  the new object in every case, next to a result, because a C++ object that throws keeps what
  it wrote before. A user callback is an opaque name, and calling it appends to the list of
  events. The critical sections of the code are separate definitions, so that other threads
  can come between them in the step relations.

  \<^bold>\<open>What is shown.\<close> Replies: any stream of encoded replies, cut into packets in any way, is
  decoded to exactly those replies, and the outcome never depends on the packets. Commands:
  the bytes of any calls are read back as the same commands, the callbacks in the same order.
  The whole client: any calls followed by \<open>sync_commit\<close> give each callback (each future) the
  answer to its own command of a server that reads what was written, once and in order,
  whatever the packets; for a client without password and selected database a connection
  lost in the middle changes nothing of this when the server accepts the next one; after a
  failed commit every callback gets an error. The sentinel's lookup and the subscriber's
  messages are shown in the same way from the bytes on the socket.
  Threads: no callback is lost or called twice; a reply reaches the callback submitted with
  the command it answers, across commits, failures and reconnections without credentials, as
  long as nothing is submitted, committed or connected while a failed write or a \<open>disconnect\<close>
  has not yet cleared the queue and \<open>connect\<close> waits for the answers outstanding; where
  \<open>sync_commit\<close> stops waiting all callbacks have been called, but for those a thread inside
  \<open>clear_callbacks\<close> has taken off the queue and not yet counted, and replies alone always wake
  it; no promise is set twice; the mutexes never block threads in a circle, as long as the
  callbacks that run under a mutex lock only mutexes further down one order (a wait on a
  condition variable may last for ever). Reconnection: it ends when attempts are bounded,
  pending requests are written again in order, subscriptions are restored, and a client or
  subscriber follows its master to the address the sentinel gives. What the server serves is
  what the maps of the subscriber say, but for a user who disconnects. Subscriptions
  refine two maps, and each message reaches the callback subscribed last. Some theorems state
  where the code does not do what it means to: bounds of the integer and bulk builders, the
  authentication after a reconnection, exceptions that leave a handler, the notification of
  a detached thread, a \<open>sync_commit\<close> beside a thread that clears the queue, callbacks that
  subscribe, messages of the log, requests sent while a commit fails, words of some commands.

  \<^bold>\<open>Bounds.\<close> The loops of the builders and of the delivery of replies are total functions or
  shown to return; the reconnection loop may run for ever without a bound on its attempts,
  so it is a partial function, and that it returns is proved where there is a bound. The
  lengths of strings are below \<open>2 ^ 63\<close>; a word of a command that is read back is at most
  \<open>2 ^ 31 - 3\<close> bytes long, the largest size the builder of bulk strings takes.

  \<^bold>\<open>Not modelled.\<close> The tacopie library, a git submodule (its TCP client is a parameter of
  Tcp_Client); the calls of the logging macro outside Logging, whose messages cannot throw (the
  macro expands to nothing unless logging is compiled in); data races on fields that the code
  reads without their mutex, other than those of Client_System, Sync_Wait and Hazards (the
  disconnection handler, which holds the mutex of the queue, is one step there);
  callbacks that destroy the object that calls them; the time that passes in the sleeps between attempts and in the waits with a timeout.
\<close>

end
